(* ===== verification/PqPrelude.thy ===== *)
theory PqPrelude
  imports Main "HOL-Library.Word" "HOL-Library.Monad_Syntax"
begin

text \<open>
  The vocabulary every component of pqauth shares: the machine types of the Rust code
  (\<open>u8\<close>, \<open>u32\<close>, \<open>u64\<close> as words), the two ways a Rust function can fail (a \<open>Result\<close> is a
  sum with the error on the left, a panic is \<open>None\<close> of an \<open>option\<close> around it), the
  arithmetic of the standard library that the code calls, and generic facts about words,
  maps and lists. The final part is a locale of deterministic machines from which every
  component takes its invariants over runs.
\<close>

unbundle bit_operations_syntax

named_theorems rust_std \<comment> \<open>unfolding of the standard-library operations\<close>
named_theorems lens \<comment> \<open>lengths of byte strings\<close>

section \<open>Types\<close>

type_synonym byte = "8 word"
type_synonym bytes = "byte list"
type_synonym u32 = "32 word"
type_synonym u64 = "64 word"

text \<open>
  The build profile decides what an overflowing \<open>+\<close> or \<open>-\<close> does: the debug profile checks
  and panics, the release profile wraps. \<open>Cargo.toml\<close> changes neither default.
\<close>

datatype profile = Debug | Release

definition checked_sub :: "profile \<Rightarrow> 'a::len word \<Rightarrow> 'a word \<Rightarrow> 'a word option" where
  "checked_sub pf a b = (if b \<le> a \<or> pf = Release then Some (a - b) else None)"

definition checked_add :: "profile \<Rightarrow> 'a::len word \<Rightarrow> 'a word \<Rightarrow> 'a word option" where
  "checked_add pf a b =
     (if unat a + unat b < 2 ^ LENGTH('a) \<or> pf = Release then Some (a + b) else None)"

text \<open>The standard library's \<open>saturating_sub\<close> and \<open>abs_diff\<close> on unsigned integers.\<close>

definition saturating_sub :: "'a::len word \<Rightarrow> 'a word \<Rightarrow> 'a word" where
  "saturating_sub a b = (if b \<le> a then a - b else 0)"

definition abs_diff :: "'a::len word \<Rightarrow> 'a word \<Rightarrow> 'a word" where
  "abs_diff a b = (if a < b then b - a else a - b)"

text \<open>\<open>Option::ok_or\<close>, \<open>Result::map_err\<close>, \<open>Result::is_ok\<close> and \<open>unwrap_or_default\<close> on vectors.\<close>

fun ok_or :: "'e \<Rightarrow> 'a option \<Rightarrow> 'e + 'a" where
  "ok_or e None = Inl e"
| "ok_or e (Some x) = Inr x"

fun map_err :: "('e \<Rightarrow> 'f) \<Rightarrow> 'e + 'a \<Rightarrow> 'f + 'a" where
  "map_err f (Inl e) = Inl (f e)"
| "map_err f (Inr x) = Inr x"

fun is_ok :: "'e + 'a \<Rightarrow> bool" where
  "is_ok (Inl e) = False"
| "is_ok (Inr x) = True"

fun err_opt :: "'e + 'a \<Rightarrow> 'e option" where
  "err_opt (Inl e) = Some e"
| "err_opt (Inr x) = None"

instantiation list :: (type) default
begin

definition default_list :: "'a list" where
  "default_list = []"

instance ..

end

definition unwrap_or_default :: "'a::default option \<Rightarrow> 'a" where
  "unwrap_or_default r = (case r of None \<Rightarrow> default | Some x \<Rightarrow> x)"

text \<open>\<open><[u8; N]>::try_from(Vec<u8>)\<close>: an array of \<open>N\<close> bytes is a list of that length.\<close>

definition try_into_array :: "nat \<Rightarrow> bytes \<Rightarrow> bytes option" where
  "try_into_array n bs = (if length bs = n then Some bs else None)"

text \<open>Indexing \<open>xs[i]\<close> panics out of range.\<close>

definition index :: "'a list \<Rightarrow> nat \<Rightarrow> 'a option" where
  "index xs i = (if i < length xs then Some (xs ! i) else None)"

text \<open>\<open>HashMap::retain\<close> and the other map operations are function updates.\<close>

definition retain :: "('v \<Rightarrow> bool) \<Rightarrow> ('k \<rightharpoonup> 'v) \<Rightarrow> ('k \<rightharpoonup> 'v)" where
  "retain keep m = (\<lambda>k. case m k of None \<Rightarrow> None | Some v \<Rightarrow> if keep v then Some v else None)"

definition contains_key :: "('k \<rightharpoonup> 'v) \<Rightarrow> 'k \<Rightarrow> bool" where
  "contains_key m k = (m k \<noteq> None)"

definition map_remove :: "('k \<rightharpoonup> 'v) \<Rightarrow> 'k \<Rightarrow> ('k \<rightharpoonup> 'v)" where
  "map_remove m k = m(k := None)"

text \<open>\<open>to_be_bytes\<close> and \<open>from_be_bytes\<close>: the most significant byte first.\<close>

definition u32_to_be :: "u32 \<Rightarrow> bytes" where
  "u32_to_be x = map (\<lambda>i. ucast (drop_bit (8 * i) x)) [3, 2, 1, 0]"

definition u64_to_be :: "u64 \<Rightarrow> bytes" where
  "u64_to_be x = map (\<lambda>i. ucast (drop_bit (8 * i) x)) [7, 6, 5, 4, 3, 2, 1, 0]"

definition u32_of_be :: "byte \<Rightarrow> byte \<Rightarrow> byte \<Rightarrow> byte \<Rightarrow> u32" where
  "u32_of_be a b c d =
     push_bit 24 (ucast a) OR push_bit 16 (ucast b) OR push_bit 8 (ucast c) OR ucast d"

text \<open>A Rust string is its UTF-8 encoding: a \<open>char\<close> of a HOL string is one byte of it.\<close>

definition as_bytes :: "string \<Rightarrow> bytes" where
  "as_bytes s = map (\<lambda>c. word_of_nat (of_char c)) s"

text \<open>Decimal text of an unsigned integer (\<open>{}\<close>), most significant digit first.\<close>

fun dec_text :: "nat \<Rightarrow> string" where
  "dec_text n = (if n < 10 then [char_of (48 + n)] else dec_text (n div 10) @ [char_of (48 + n mod 10)])"

declare dec_text.simps [simp del]

text \<open>The number a decimal text denotes, leading zeros allowed.\<close>

definition dec_value :: "string \<Rightarrow> nat" where
  "dec_value s = foldl (\<lambda>n c. 10 * n + (of_char c - 48)) 0 s"

text \<open>\<open>SystemTime\<close> before the epoch: the clock is a signed 64-bit count of seconds.\<close>

definition secs_since_epoch :: "u64 \<Rightarrow> u64 option" where
  "secs_since_epoch t = (if sint t < 0 then None else Some t)"

section \<open>Generic facts\<close>

lemmas [rust_std] = saturating_sub_def abs_diff_def checked_sub_def checked_add_def

lemma default_list_Nil [simp]: "(default :: 'a list) = []"
  by (simp add: default_list_def)

lemma unwrap_or_default_simps [simp]:
  "unwrap_or_default None = default"
  "unwrap_or_default (Some x) = x"
  by (simp_all add: unwrap_or_default_def)

lemma ok_or_Inr [simp]: "ok_or e r = Inr x \<longleftrightarrow> r = Some x"
  by (cases r) auto

lemma ok_or_Inl [simp]: "ok_or e r = Inl e' \<longleftrightarrow> r = None \<and> e' = e"
  by (cases r) auto

lemma map_err_Inr [simp]: "map_err f r = Inr x \<longleftrightarrow> r = Inr x"
  by (cases r) auto

lemma is_ok_iff: "is_ok r \<longleftrightarrow> (\<exists>x. r = Inr x)"
  by (cases r) auto

lemma try_into_array_Some [simp]:
  "try_into_array n bs = Some a \<longleftrightarrow> length bs = n \<and> a = bs"
  by (auto simp: try_into_array_def)

lemma try_into_array_None [simp]: "try_into_array n bs = None \<longleftrightarrow> length bs \<noteq> n"
  by (auto simp: try_into_array_def)

lemma index_in_range [simp]: "i < length xs \<Longrightarrow> index xs i = Some (xs ! i)"
  by (simp add: index_def)

lemma index_None [simp]: "index xs i = None \<longleftrightarrow> length xs \<le> i"
  by (auto simp: index_def)

lemma retain_Some [simp]: "retain keep m k = Some v \<longleftrightarrow> m k = Some v \<and> keep v"
  by (auto simp: retain_def split: option.splits)

lemma retain_None: "retain keep m k = None \<longleftrightarrow> (\<forall>v. m k = Some v \<longrightarrow> \<not> keep v)"
  by (auto simp: retain_def split: option.splits)

lemma retain_empty [simp]: "retain keep Map.empty = Map.empty"
  by (simp add: retain_def fun_eq_iff)

lemma retain_update:
  "retain keep (m(k \<mapsto> v)) = (if keep v then (retain keep m)(k \<mapsto> v) else (retain keep m)(k := None))"
  by (simp add: retain_def fun_eq_iff)

lemma contains_key_dom [simp]: "contains_key m k \<longleftrightarrow> k \<in> dom m"
  by (auto simp: contains_key_def)

lemma map_remove_apply [simp]: "map_remove m k j = (if j = k then None else m j)"
  by (simp add: map_remove_def)

lemma dom_map_remove [simp]: "dom (map_remove m k) = dom m - {k}"
  by (auto simp: map_remove_def)

lemma secs_since_epoch_Some: "secs_since_epoch t = Some u \<longleftrightarrow> u = t \<and> 0 \<le> sint t"
  by (auto simp: secs_since_epoch_def)

lemma secs_since_epoch_None: "secs_since_epoch t = None \<longleftrightarrow> sint t < 0"
  by (simp add: secs_since_epoch_def)

lemma length_to_be [simp, lens]:
  "length (u32_to_be x) = 4"
  "length (u64_to_be y) = 8"
  by (simp_all add: u32_to_be_def u64_to_be_def)

lemma length_as_bytes [simp, lens]: "length (as_bytes s) = length s"
  by (simp add: as_bytes_def)

subsection \<open>Words\<close>

lemma le_saturating_sub: "saturating_sub a b \<le> (a :: 'a::len word)"
  by (auto simp: saturating_sub_def word_sub_le)

lemma unat_saturating_sub: "unat (saturating_sub a b) = unat a - unat (b :: 'a::len word)"
  by (auto simp: saturating_sub_def unat_sub word_le_nat_alt)

lemma unat_abs_diff: "unat (abs_diff a b) = (if unat a < unat b then unat b - unat a else unat a - unat (b :: 'a::len word))"
  by (auto simp: abs_diff_def unat_sub word_le_nat_alt word_less_nat_alt)

lemma abs_diff_commute: "abs_diff a b = abs_diff b (a :: 'a::len word)"
  by (auto simp: abs_diff_def)

lemma abs_diff_self [simp]: "abs_diff a a = (0 :: 'a::len word)"
  by (simp add: abs_diff_def)

lemma unat_bound: "unat (x :: 'a::len word) < 2 ^ LENGTH('a)"
  by (rule unsigned_less)

lemma unat64_bound: "unat (x :: u64) < 18446744073709551616"
  using unat_bound [of x] by simp

lemma unat64_add:
  "unat x + unat y < 18446744073709551616 \<Longrightarrow> unat (x + y) = unat x + unat (y :: u64)"
  by (simp add: unat_word_ariths)

lemma unat64_add_wrap:
  assumes "18446744073709551616 \<le> unat x + unat y"
  shows "unat (x + y) = unat x + unat (y :: u64) - 18446744073709551616"
proof -
  have "unat (x + y) = (unat x + unat y) mod 18446744073709551616"
    by (simp add: unat_word_ariths)
  also have "\<dots> = (unat x + unat y - 18446744073709551616) mod 18446744073709551616"
    using assms by (rule le_mod_geq)
  also have "unat x + unat y - 18446744073709551616 < 18446744073709551616"
    using unat64_bound [of x] unat64_bound [of y] by linarith
  then have "(unat x + unat y - 18446744073709551616) mod 18446744073709551616
      = unat x + unat y - 18446744073709551616" by (rule mod_less)
  finally show ?thesis .
qed

lemma unat_succ_less: "x < y \<Longrightarrow> unat (x + 1) = Suc (unat (x :: 'a::len word))"
proof -
  assume "x < y"
  moreover have "unat y < 2 ^ LENGTH('a)" by (rule unat_bound)
  ultimately have "unat x + 1 < 2 ^ LENGTH('a)" unfolding word_less_nat_alt by linarith
  then show ?thesis by (simp add: unat_word_ariths unat_1 unsigned_of_nat)
qed

lemma succ_le_iff: "x < y \<Longrightarrow> x + 1 \<le> z \<longleftrightarrow> x < (z :: 'a::len word)"
  by (simp add: word_le_nat_alt word_less_nat_alt unat_succ_less Suc_le_eq)

lemma checked_sub_le: "b \<le> a \<Longrightarrow> checked_sub pf a b = Some (a - b)"
  by (simp add: checked_sub_def)

lemma checked_sub_release: "checked_sub Release a b = Some (a - b)"
  by (simp add: checked_sub_def)

lemma checked_sub_debug_None: "checked_sub Debug a b = None \<longleftrightarrow> a < b"
  by (auto simp: checked_sub_def)

lemma checked_add_small:
  "unat a + unat b < 2 ^ LENGTH('a) \<Longrightarrow> checked_add pf a b = Some (a + (b :: 'a::len word))"
  by (simp add: checked_add_def)

lemma u32_of_be_to_be: "(case u32_to_be x of [a, b, c, d] \<Rightarrow> u32_of_be a b c d) = x"
proof -
  have "u32_of_be (ucast (drop_bit 24 x)) (ucast (drop_bit 16 x)) (ucast (drop_bit 8 x)) (ucast x) = x"
  proof (rule bit_word_eqI)
    fix n assume "n < LENGTH(32)"
    then consider "n < 8" | "8 \<le> n" "n < 16" | "16 \<le> n" "n < 24" | "24 \<le> n" "n < 32"
      by fastforce
    then show "bit (u32_of_be (ucast (drop_bit 24 x)) (ucast (drop_bit 16 x)) (ucast (drop_bit 8 x)) (ucast x)) n
        = bit x n"
      unfolding u32_of_be_def by cases (auto simp: bit_simps)
  qed
  then show ?thesis by (simp add: u32_to_be_def)
qed

lemma u32_to_be_inject: "u32_to_be x = u32_to_be y \<longleftrightarrow> x = y"
  by (metis u32_of_be_to_be)

lemma byte_slices_eq:
  fixes x y :: "'a::len word"
  assumes "\<And>i. i < LENGTH('a) div 8 \<Longrightarrow> ucast (drop_bit (8 * i) x) = (ucast (drop_bit (8 * i) y) :: byte)"
    and "8 dvd LENGTH('a)"
  shows "x = y"
proof (rule bit_word_eqI)
  fix n assume n: "n < LENGTH('a)"
  let ?i = "n div 8" and ?j = "n mod 8"
  have "?i < LENGTH('a) div 8" using n assms(2) by (auto simp: div_less_mono)
  then have "bit (ucast (drop_bit (8 * ?i) x) :: byte) ?j = bit (ucast (drop_bit (8 * ?i) y) :: byte) ?j"
    using assms(1) by simp
  then show "bit x n = bit y n" by (simp add: bit_simps)
qed

lemma u64_to_be_inject: "u64_to_be x = u64_to_be y \<longleftrightarrow> x = y"
proof
  assume *: "u64_to_be x = u64_to_be y"
  show "x = y"
  proof (rule byte_slices_eq)
    fix i assume "i < LENGTH(64) div 8"
    then have "i \<in> {0, 1, 2, 3, 4, 5, 6, 7}" by auto
    with * show "ucast (drop_bit (8 * i) x) = (ucast (drop_bit (8 * i) y) :: byte)"
      by (auto simp: u64_to_be_def)
  qed simp
qed simp

lemma u32_of_be_mask:
  "u32_of_be (a AND 0x7F) b c d = u32_of_be a b c d AND 0x7FFFFFFF"
proof -
  have m8: "(0x7F :: byte) = mask 7" and m32: "(0x7FFFFFFF :: u32) = mask 31"
    by (simp_all add: mask_eq_exp_minus_1)
  have short: "\<not> bit x k" if "8 \<le> k" for x :: byte and k
    using that bit_imp_le_length [of x k] by auto
  show ?thesis
  proof (rule bit_word_eqI)
    fix n assume "n < LENGTH(32)"
    then consider "n < 24" | "24 \<le> n" "n < 31" | "n = 31" by fastforce
    then show "bit (u32_of_be (a AND 0x7F) b c d) n = bit (u32_of_be a b c d AND 0x7FFFFFFF) n"
      unfolding u32_of_be_def m8 m32 by cases (auto simp: bit_simps short)
  qed
qed

subsection \<open>Decimal text\<close>

lemma digit_char:
  assumes "k < 10"
  shows "of_char (char_of (48 + k) :: char) = (48 + k :: nat)"
  using assms by simp

lemma dec_text_digits: "\<forall>c \<in> set (dec_text n). 48 \<le> (of_char c :: nat) \<and> (of_char c :: nat) \<le> 57"
proof (induction n rule: dec_text.induct)
  case (1 n)
  then show ?case by (subst dec_text.simps) (auto)
qed

lemma dec_value_dec_text: "dec_value (dec_text n) = n"
proof (induction n rule: dec_text.induct)
  case (1 n)
  show ?case
  proof (cases "n < 10")
    case True
    then show ?thesis by (subst dec_text.simps) (simp add: dec_value_def)
  next
    case False
    with 1 have "dec_value (dec_text (n div 10)) = n div 10" by simp
    with False show ?thesis
      by (subst dec_text.simps) (simp add: dec_value_def)
  qed
qed

lemma dec_value_zeros: "dec_value (replicate k (CHR ''0'') @ s) = dec_value s"
proof -
  have "foldl (\<lambda>n c. 10 * n + (of_char c - 48)) 0 (replicate k (CHR ''0'')) = (0 :: nat)"
    by (induction k) simp_all
  then show ?thesis by (simp add: dec_value_def)
qed

lemma dec_text_length: "n < 10 ^ k \<Longrightarrow> 0 < k \<Longrightarrow> length (dec_text n) \<le> k"
proof (induction n arbitrary: k rule: dec_text.induct)
  case (1 n)
  show ?case
  proof (cases "n < 10")
    case True
    with 1 show ?thesis by (subst dec_text.simps) simp
  next
    case False
    from 1(3) obtain j where k: "k = Suc j" by (cases k) auto
    with False 1(2) have "0 < j" by (cases j) auto
    with 1(2) k have "n div 10 < 10 ^ j" by (simp add: less_mult_imp_div_less mult.commute)
    with 1(1) False \<open>0 < j\<close> have "length (dec_text (n div 10)) \<le> j" by blast
    with False k show ?thesis by (subst dec_text.simps) simp
  qed
qed
lemma as_bytes_inject: "as_bytes s = as_bytes t \<longleftrightarrow> s = t"
proof
  have "inj (\<lambda>c :: char. word_of_nat (of_char c) :: byte)"
  proof (rule injI)
    fix c d :: char assume "(word_of_nat (of_char c) :: byte) = word_of_nat (of_char d)"
    then have "unat (word_of_nat (of_char c) :: byte) = unat (word_of_nat (of_char d) :: byte)" by simp
    then have "(of_char c :: nat) mod 256 = of_char d mod 256" by (simp add: unat_of_nat)
    then show "c = d" by simp
  qed
  then show "as_bytes s = as_bytes t \<Longrightarrow> s = t"
    by (simp add: as_bytes_def inj_map_eq_map)
qed simp

section \<open>Transition systems\<close>

text \<open>
  The components with state are transition systems: a relation between the state before
  and after one call. The locale gives what is proved about runs once: a property of the
  initial states that every step keeps holds in every reachable state. Its extension adds
  a reflexive and transitive order that every step climbs, from which facts such as "an
  entry, once stored, stays" follow for whole runs.
\<close>

locale transition_system =
  fixes init :: "'s \<Rightarrow> bool"
    and step :: "'s \<Rightarrow> 's \<Rightarrow> bool"
    and inv :: "'s \<Rightarrow> bool"
  assumes init_inv: "init s \<Longrightarrow> inv s"
    and step_inv: "step s t \<Longrightarrow> inv s \<Longrightarrow> inv t"
begin

lemma run_inv: "step\<^sup>*\<^sup>* s t \<Longrightarrow> inv s \<Longrightarrow> inv t"
  by (induction rule: rtranclp_induct) (auto intro: step_inv)

lemma reachable_inv: "init s \<Longrightarrow> step\<^sup>*\<^sup>* s t \<Longrightarrow> inv t"
  by (blast intro: run_inv init_inv)

end

locale climbing_system = transition_system +
  fixes below :: "'s \<Rightarrow> 's \<Rightarrow> bool"
  assumes below_refl: "below s s"
    and below_trans: "below s t \<Longrightarrow> below t u \<Longrightarrow> below s u"
    and step_below: "step s t \<Longrightarrow> inv s \<Longrightarrow> below s t"
begin

lemma run_below: "step\<^sup>*\<^sup>* s t \<Longrightarrow> inv s \<Longrightarrow> below s t"
proof (induction rule: rtranclp_induct)
  case base
  show ?case by (rule below_refl)
next
  case (step t u)
  then have "inv t" by (blast intro: run_inv)
  with step show ?case by (blast intro: below_trans step_below)
qed

end

end
