(* ===== verification/Crates.thy ===== *)
theory Crates
  imports PqPrelude
begin

text \<open>
  The code that pqauth calls and that is not part of the repository: the crates of
  \<open>Cargo.toml\<close> and the operating system. Each is a record of functions, an argument of the
  definitions that call it; nothing about them is defined here. A foreign key, signature or
  ciphertext object is represented by its byte view (\<open>as_bytes\<close>), a fallible constructor by
  an \<open>option\<close> when the caller discards the error. Operations that draw randomness or read the
  clock pass the outside world \<open>'w\<close> through. A buffer that a crate fills is given as the
  function from positions to bytes, so that its length is the caller's, as in Rust.

  After the records come the laws the properties rely on, one predicate per crate: each
  states the documented behaviour of that crate (a decoder inverts its encoder, a signature
  made with a generated key verifies, and so on).
\<close>

section \<open>Interfaces\<close>

text \<open>\<open>sha3::Shake256\<close>: \<open>default\<close>, \<open>update\<close>, and the output stream of \<open>finalize_xof\<close>.\<close>

record 'h sha3_crate =
  shake_default :: 'h
  shake_update :: "'h \<Rightarrow> bytes \<Rightarrow> 'h"
  shake_xof :: "'h \<Rightarrow> nat \<Rightarrow> byte"

text \<open>\<open>hex::encode\<close> and \<open>hex::decode\<close>.\<close>

record hex_crate =
  hex_encode :: "bytes \<Rightarrow> string"
  hex_decode :: "string \<Rightarrow> bytes option"

text \<open>The system clock: seconds relative to the Unix epoch, a signed 64-bit number.\<close>

record 'w os_clock =
  clock_secs :: "'w \<Rightarrow> u64 \<times> 'w"

text \<open>\<open>rand\<close>: \<open>fill_bytes\<close> and \<open>gen_range(lo..hi)\<close>.\<close>

record 'w rand_crate =
  rand_fill :: "'w \<Rightarrow> (nat \<Rightarrow> byte) \<times> 'w"
  rand_range :: "nat \<Rightarrow> nat \<Rightarrow> 'w \<Rightarrow> nat \<times> 'w"

text \<open>\<open>pqcrypto_dilithium::dilithium3\<close> with the constructors of \<open>pqcrypto_traits::sign\<close>.\<close>

record 'w dilithium3_crate =
  d3_keypair :: "'w \<Rightarrow> (bytes \<times> bytes) \<times> 'w"
  d3_pk_from :: "bytes \<Rightarrow> bytes option"
  d3_sk_from :: "bytes \<Rightarrow> bytes option"
  d3_sig_from :: "bytes \<Rightarrow> bytes option"
  d3_sign :: "bytes \<Rightarrow> bytes \<Rightarrow> 'w \<Rightarrow> bytes \<times> 'w"
  d3_verify :: "bytes \<Rightarrow> bytes \<Rightarrow> bytes \<Rightarrow> bool"

text \<open>\<open>pqcrypto_kyber::kyber768\<close>; \<open>encapsulate\<close> returns the shared secret, then the ciphertext.\<close>

record 'w kyber768_crate =
  k768_keypair :: "'w \<Rightarrow> (bytes \<times> bytes) \<times> 'w"
  k768_pk_from :: "bytes \<Rightarrow> bytes option"
  k768_sk_from :: "bytes \<Rightarrow> bytes option"
  k768_ct_from :: "bytes \<Rightarrow> bytes option"
  k768_encapsulate :: "bytes \<Rightarrow> 'w \<Rightarrow> (bytes \<times> bytes) \<times> 'w"
  k768_decapsulate :: "bytes \<Rightarrow> bytes \<Rightarrow> bytes"

text \<open>\<open>ed25519_dalek\<close>: a signing key is its 32-byte seed.\<close>

record 'w ed25519_crate =
  ed_generate :: "'w \<Rightarrow> bytes \<times> 'w"
  ed_verifying_key :: "bytes \<Rightarrow> bytes"
  ed_vk_from :: "bytes \<Rightarrow> bytes option"
  ed_sign :: "bytes \<Rightarrow> bytes \<Rightarrow> bytes"
  ed_verify :: "bytes \<Rightarrow> bytes \<Rightarrow> bytes \<Rightarrow> bool"

text \<open>
  \<open>argon2\<close>: \<open>Params::new\<close> and \<open>hash_password_into\<close> for Argon2id version 0x13, with errors as
  their text.
\<close>

record 'p argon2_crate =
  argon2_params :: "u32 \<Rightarrow> u32 \<Rightarrow> u32 \<Rightarrow> nat option \<Rightarrow> string + 'p"
  argon2_hash :: "'p \<Rightarrow> bytes \<Rightarrow> bytes \<Rightarrow> string + (nat \<Rightarrow> byte)"

text \<open>
  \<open>aes_gcm\<close>: \<open>new_from_slice\<close>, \<open>Nonce::from_slice\<close> (which panics, \<open>None\<close>, on a wrong length),
  \<open>encrypt\<close> and \<open>decrypt\<close> of a cipher \<open>'c\<close>.
\<close>

record 'c aes_gcm_crate =
  aes_new :: "bytes \<Rightarrow> string + 'c"
  aes_nonce :: "bytes \<Rightarrow> bytes option"
  aes_encrypt :: "'c \<Rightarrow> bytes \<Rightarrow> bytes \<Rightarrow> string + bytes"
  aes_decrypt :: "'c \<Rightarrow> bytes \<Rightarrow> bytes \<Rightarrow> bytes option"

text \<open>What the server needs, with the build profile of its arithmetic.\<close>

record ('h, 'w) deps =
  build :: profile
  sha :: "'h sha3_crate"
  hexc :: hex_crate
  os :: "'w os_clock"
  rnd :: "'w rand_crate"
  dil :: "'w dilithium3_crate"
  kyb :: "'w kyber768_crate"

section \<open>Laws\<close>

text \<open>Absorbing in pieces is absorbing the concatenation (the contract of \<open>digest::Update\<close>).\<close>

definition sha3_law :: "'h sha3_crate \<Rightarrow> bool" where
  "sha3_law s \<longleftrightarrow>
     (\<forall>h a b. shake_xof s (shake_update s (shake_update s h a) b) = shake_xof s (shake_update s h (a @ b)))"

definition hex_law :: "hex_crate \<Rightarrow> bool" where
  "hex_law x \<longleftrightarrow> (\<forall>b. hex_decode x (hex_encode x b) = Some b)"

text \<open>A draw from a non-empty range lies in it.\<close>

definition rand_law :: "'w rand_crate \<Rightarrow> bool" where
  "rand_law r \<longleftrightarrow>
     (\<forall>lo hi w. lo < hi \<longrightarrow> lo \<le> fst (rand_range r lo hi w) \<and> fst (rand_range r lo hi w) < hi)"

text \<open>A generated Dilithium3 key pair, and what the crate promises of it.\<close>

definition d3_pair :: "'w dilithium3_crate \<Rightarrow> bytes \<Rightarrow> bytes \<Rightarrow> bool" where
  "d3_pair d pk sk \<longleftrightarrow> (\<exists>w. fst (d3_keypair d w) = (pk, sk))"

definition dilithium3_law :: "'w dilithium3_crate \<Rightarrow> bool" where
  "dilithium3_law d \<longleftrightarrow>
     (\<forall>pk sk. d3_pair d pk sk \<longrightarrow>
        length pk = 1952 \<and> length sk = 4032 \<and>
        d3_pk_from d pk = Some pk \<and> d3_sk_from d sk = Some sk \<and>
        (\<forall>m w. let sg = fst (d3_sign d m sk w) in
           length sg = 3309 \<and> d3_sig_from d sg = Some sg \<and> d3_verify d sg m pk))"

definition k768_pair :: "'w kyber768_crate \<Rightarrow> bytes \<Rightarrow> bytes \<Rightarrow> bool" where
  "k768_pair k pk sk \<longleftrightarrow> (\<exists>w. fst (k768_keypair k w) = (pk, sk))"

definition kyber768_law :: "'w kyber768_crate \<Rightarrow> bool" where
  "kyber768_law k \<longleftrightarrow>
     (\<forall>pk sk. k768_pair k pk sk \<longrightarrow>
        length pk = 1184 \<and> length sk = 2400 \<and>
        k768_pk_from k pk = Some pk \<and> k768_sk_from k sk = Some sk \<and>
        (\<forall>w. let (ss, ct) = fst (k768_encapsulate k pk w) in
           length ss = 32 \<and> length ct = 1088 \<and> k768_ct_from k ct = Some ct \<and>
           k768_decapsulate k ct sk = ss))"

definition ed25519_law :: "'w ed25519_crate \<Rightarrow> bool" where
  "ed25519_law e \<longleftrightarrow>
     (\<forall>w. length (fst (ed_generate e w)) = 32) \<and>
     (\<forall>sk. length sk = 32 \<longrightarrow>
        length (ed_verifying_key e sk) = 32 \<and>
        ed_vk_from e (ed_verifying_key e sk) = Some (ed_verifying_key e sk) \<and>
        (\<forall>m. length (ed_sign e sk m) = 64 \<and> ed_verify e (ed_verifying_key e sk) m (ed_sign e sk m)))"

definition aes_gcm_law :: "'c aes_gcm_crate \<Rightarrow> bool" where
  "aes_gcm_law a \<longleftrightarrow>
     (\<forall>k. length k = 32 \<longrightarrow> (\<exists>c. aes_new a k = Inr c)) \<and>
     (\<forall>n. length n = 12 \<longrightarrow> aes_nonce a n = Some n) \<and>
     (\<forall>c n m ct. length n = 12 \<longrightarrow> aes_encrypt a c n m = Inr ct \<longrightarrow> aes_decrypt a c n ct = Some m)"

lemma sha3_lawD:
  "sha3_law s \<Longrightarrow>
     shake_xof s (shake_update s (shake_update s h a) b) = shake_xof s (shake_update s h (a @ b))"
  by (simp add: sha3_law_def)

lemma hex_lawD [simp]: "hex_law x \<Longrightarrow> hex_decode x (hex_encode x b) = Some b"
  by (simp add: hex_law_def)

lemma rand_lawD:
  "rand_law r \<Longrightarrow> lo < hi \<Longrightarrow> rand_range r lo hi w = (k, w') \<Longrightarrow> lo \<le> k \<and> k < hi"
  unfolding rand_law_def by (metis fst_conv)

lemma dilithium3_lawD:
  assumes "dilithium3_law d" and "d3_pair d pk sk"
  shows "length pk = 1952" and "length sk = 4032"
    and "d3_pk_from d pk = Some pk" and "d3_sk_from d sk = Some sk"
    and "d3_sign d m sk w = (sg, w') \<Longrightarrow>
      length sg = 3309 \<and> d3_sig_from d sg = Some sg \<and> d3_verify d sg m pk"
  using assms unfolding dilithium3_law_def Let_def by (blast, blast, blast, blast, metis fst_conv)

lemma kyber768_lawD:
  assumes "kyber768_law k" and "k768_pair k pk sk"
  shows "length pk = 1184" and "length sk = 2400"
    and "k768_pk_from k pk = Some pk" and "k768_sk_from k sk = Some sk"
    and "k768_encapsulate k pk w = ((ss, ct), w') \<Longrightarrow>
      length ss = 32 \<and> length ct = 1088 \<and> k768_ct_from k ct = Some ct \<and> k768_decapsulate k ct sk = ss"
proof -
  have law: "length pk = 1184 \<and> length sk = 2400 \<and>
        k768_pk_from k pk = Some pk \<and> k768_sk_from k sk = Some sk \<and>
        (\<forall>w. let (ss, ct) = fst (k768_encapsulate k pk w) in
           length ss = 32 \<and> length ct = 1088 \<and> k768_ct_from k ct = Some ct \<and>
           k768_decapsulate k ct sk = ss)"
    using assms unfolding kyber768_law_def by blast
  then show "length pk = 1184" and "length sk = 2400"
    and "k768_pk_from k pk = Some pk" and "k768_sk_from k sk = Some sk"
    by auto
  assume "k768_encapsulate k pk w = ((ss, ct), w')"
  moreover have "let (ss, ct) = fst (k768_encapsulate k pk w) in
           length ss = 32 \<and> length ct = 1088 \<and> k768_ct_from k ct = Some ct \<and>
           k768_decapsulate k ct sk = ss" using law by blast
  ultimately show "length ss = 32 \<and> length ct = 1088 \<and> k768_ct_from k ct = Some ct \<and> k768_decapsulate k ct sk = ss"
    by simp
qed

lemma ed25519_lawD:
  assumes "ed25519_law e"
  shows "ed_generate e w = (sk, w') \<Longrightarrow> length sk = 32"
    and "length sk = 32 \<Longrightarrow> length (ed_verifying_key e sk) = 32"
    and "length sk = 32 \<Longrightarrow> ed_vk_from e (ed_verifying_key e sk) = Some (ed_verifying_key e sk)"
    and "length sk = 32 \<Longrightarrow> length (ed_sign e sk m) = 64"
    and "length sk = 32 \<Longrightarrow> ed_verify e (ed_verifying_key e sk) m (ed_sign e sk m)"
  using assms unfolding ed25519_law_def by (metis fst_conv, blast, blast, blast, blast)

lemma aes_gcm_lawD:
  assumes "aes_gcm_law a"
  shows "length k = 32 \<Longrightarrow> \<exists>c. aes_new a k = Inr c"
    and "length n = 12 \<Longrightarrow> aes_nonce a n = Some n"
    and "length n = 12 \<Longrightarrow> aes_encrypt a c n m = Inr ct \<Longrightarrow> aes_decrypt a c n ct = Some m"
  using assms unfolding aes_gcm_law_def by blast+

end
