(* ===== verification/Instances.thy ===== *)
theory Instances
  imports Crates
begin

text \<open>
  Concrete functions for the parameters of the model, used by the witness theorems only:
  hexadecimal as the crate documents it, and small stand-ins for the cryptography that
  satisfy the laws (they have the documented sizes and accept what they produced; they are
  not secure). The world is a clock and one byte of entropy that each draw increments.
\<close>

section \<open>Hexadecimal\<close>

definition hex_digit :: "nat \<Rightarrow> char" where
  "hex_digit n = char_of (if n < 10 then 48 + n else 87 + n)"

definition hex_value :: "char \<Rightarrow> nat option" where
  "hex_value c =
     (let k = (of_char c :: nat) in
      if 48 \<le> k \<and> k \<le> 57 then Some (k - 48)
      else if 97 \<le> k \<and> k \<le> 102 then Some (k - 87)
      else if 65 \<le> k \<and> k \<le> 70 then Some (k - 55)
      else None)"

fun hex_text :: "bytes \<Rightarrow> string" where
  "hex_text [] = []"
| "hex_text (b # bs) = hex_digit (unat b div 16) # hex_digit (unat b mod 16) # hex_text bs"

fun hex_parse :: "string \<Rightarrow> bytes option" where
  "hex_parse [] = Some []"
| "hex_parse [c] = None"
| "hex_parse (c # d # s) =
     do { a \<leftarrow> hex_value c; b \<leftarrow> hex_value d; bs \<leftarrow> hex_parse s; Some (word_of_nat (16 * a + b) # bs) }"

definition toy_hex :: hex_crate where
  "toy_hex = \<lparr>hex_encode = hex_text, hex_decode = hex_parse\<rparr>"

lemma hex_value_digit: "n < 16 \<Longrightarrow> hex_value (hex_digit n) = Some n"
  by (simp add: hex_value_def hex_digit_def)

lemma hex_parse_text: "hex_parse (hex_text bs) = Some bs"
proof (induction bs)
  case (Cons b bs)
  have "unat b div 16 < 16" using unsigned_less [of b, where ?'a = nat] by (simp add: less_mult_imp_div_less)
  moreover have "(word_of_nat (16 * (unat b div 16) + unat b mod 16) :: byte) = b"
    by (simp del: of_nat_add of_nat_mult)
  ultimately show ?case using Cons by (simp add: hex_value_digit del: of_nat_add of_nat_mult)
qed simp

lemma toy_hex_law: "hex_law toy_hex"
  by (simp add: hex_law_def toy_hex_def hex_parse_text)

section \<open>World, clock, randomness\<close>

type_synonym toy_world = "u64 \<times> byte"

definition toy_os :: "toy_world os_clock" where
  "toy_os = \<lparr>clock_secs = (\<lambda>(t, e). (t, (t, e)))\<rparr>"

definition toy_rnd :: "toy_world rand_crate" where
  "toy_rnd = \<lparr>rand_fill = (\<lambda>(t, e). ((\<lambda>i. e + word_of_nat i), (t, e + 1))),
     rand_range = (\<lambda>lo hi (t, e). (lo + unat e mod (hi - lo), (t, e + 1)))\<rparr>"

lemma toy_rand_law: "rand_law toy_rnd"
  unfolding rand_law_def toy_rnd_def
  by (auto intro: less_le_trans [OF add_strict_left_mono [OF mod_less_divisor]])

section \<open>Cryptography\<close>

definition toy_sha :: "bytes sha3_crate" where
  "toy_sha = \<lparr>shake_default = [], shake_update = (@),
     shake_xof = (\<lambda>h i. fold (\<lambda>b a. 31 * a + b) h (word_of_nat i))\<rparr>"

lemma toy_sha3_law: "sha3_law toy_sha"
  by (simp add: sha3_law_def toy_sha_def)

definition toy_sig :: "byte \<Rightarrow> bytes \<Rightarrow> bytes" where
  "toy_sig k m = take 3309 (k # m @ replicate 3309 0)"

definition toy_dil :: "toy_world dilithium3_crate" where
  "toy_dil = \<lparr>
     d3_keypair = (\<lambda>(t, e). ((replicate 1952 e, replicate 4032 e), (t, e + 1))),
     d3_pk_from = (\<lambda>b. if length b = 1952 then Some b else None),
     d3_sk_from = (\<lambda>b. if length b = 4032 then Some b else None),
     d3_sig_from = (\<lambda>b. if length b \<le> 3309 then Some b else None),
     d3_sign = (\<lambda>m sk w. (toy_sig (hd sk) m, w)),
     d3_verify = (\<lambda>sg m pk. sg = toy_sig (hd pk) m)\<rparr>"

definition toy_kyb :: "toy_world kyber768_crate" where
  "toy_kyb = \<lparr>
     k768_keypair = (\<lambda>(t, e). ((replicate 1184 e, replicate 2400 e), (t, e + 1))),
     k768_pk_from = (\<lambda>b. if length b = 1184 then Some b else None),
     k768_sk_from = (\<lambda>b. if length b = 2400 then Some b else None),
     k768_ct_from = (\<lambda>b. if length b = 1088 then Some b else None),
     k768_encapsulate = (\<lambda>pk (t, e). ((replicate 32 (e + hd pk), replicate 1088 e), (t, e + 1))),
     k768_decapsulate = (\<lambda>ct sk. replicate 32 (hd ct + hd sk))\<rparr>"

definition toy_ed :: "toy_world ed25519_crate" where
  "toy_ed = \<lparr>
     ed_generate = (\<lambda>(t, e). (replicate 32 e, (t, e + 1))),
     ed_verifying_key = (\<lambda>sk. sk),
     ed_vk_from = (\<lambda>b. Some b),
     ed_sign = (\<lambda>sk m. take 64 (sk @ m @ replicate 64 0)),
     ed_verify = (\<lambda>vk m sg. sg = take 64 (vk @ m @ replicate 64 0))\<rparr>"

definition toy_argon :: "unit argon2_crate" where
  "toy_argon = \<lparr>argon2_params = (\<lambda>_ _ _ _. Inr ()),
     argon2_hash = (\<lambda>_ pw salt. Inr (\<lambda>i. fold (\<lambda>b a. 31 * a + b) (pw @ salt) (word_of_nat i)))\<rparr>"

definition toy_aes :: "bytes aes_gcm_crate" where
  "toy_aes = \<lparr>
     aes_new = (\<lambda>k. if length k = 32 then Inr k else Inl ''Invalid Length''),
     aes_nonce = (\<lambda>n. if length n = 12 then Some n else None),
     aes_encrypt = (\<lambda>k n m. Inr (k @ n @ m)),
     aes_decrypt = (\<lambda>k n ct. if take (length (k @ n)) ct = k @ n then Some (drop (length (k @ n)) ct) else None)\<rparr>"

definition toy_deps :: "profile \<Rightarrow> (bytes, toy_world) deps" where
  "toy_deps pf = \<lparr>build = pf, sha = toy_sha, hexc = toy_hex, os = toy_os, rnd = toy_rnd,
     dil = toy_dil, kyb = toy_kyb\<rparr>"

lemma length_toy_sig [simp]: "length (toy_sig k m) = 3309"
  by (simp add: toy_sig_def)

lemma hd_replicate_pos [simp]: "0 < n \<Longrightarrow> hd (replicate n x) = x"
  by (cases n) auto

lemma toy_d3_pair [simp]: "d3_pair toy_dil pk sk \<longleftrightarrow> (\<exists>e. pk = replicate 1952 e \<and> sk = replicate 4032 e)"
  by (auto simp: d3_pair_def toy_dil_def)

lemma toy_dilithium3_law: "dilithium3_law toy_dil"
  unfolding dilithium3_law_def toy_d3_pair by (auto simp: toy_dil_def Let_def)

lemma toy_k768_pair [simp]: "k768_pair toy_kyb pk sk \<longleftrightarrow> (\<exists>e. pk = replicate 1184 e \<and> sk = replicate 2400 e)"
  by (auto simp: k768_pair_def toy_kyb_def)

lemma toy_kyber768_law: "kyber768_law toy_kyb"
  unfolding kyber768_law_def toy_k768_pair by (auto simp: toy_kyb_def Let_def)

lemma toy_ed25519_law: "ed25519_law toy_ed"
  by (auto simp: ed25519_law_def toy_ed_def)

lemma toy_aes_gcm_law: "aes_gcm_law toy_aes"
  by (auto simp: aes_gcm_law_def toy_aes_def)

lemmas toy_laws = toy_hex_law toy_rand_law toy_sha3_law toy_dilithium3_law toy_kyber768_law
  toy_ed25519_law toy_aes_gcm_law

lemma toy_deps_sel [simp]:
  "build (toy_deps pf) = pf" "sha (toy_deps pf) = toy_sha" "hexc (toy_deps pf) = toy_hex"
  "os (toy_deps pf) = toy_os" "rnd (toy_deps pf) = toy_rnd" "dil (toy_deps pf) = toy_dil"
  "kyb (toy_deps pf) = toy_kyb"
  by (simp_all add: toy_deps_def)

end
