(* ===== verification/ShakeMac.thy ===== *)
theory ShakeMac
  imports Crates Instances
begin

text \<open>
  \<open>src/shake_mac.rs\<close>: the SHAKE-256 hash, the envelope MAC in its two variants, the
  constant-time comparison loop and the keyed context. The lemmas show that both MAC
  variants are the hash of \<open>K || M || K\<close>, that the comparison loop decides equality, and for
  which keys the envelope determines key and message.
\<close>

section \<open>Definitions\<close>

definition DEFAULT_MAC_LEN :: nat where
  "DEFAULT_MAC_LEN = 32"

text \<open>\<open>reader.read(&mut output)\<close> on a buffer of \<open>n\<close> bytes.\<close>

definition xof_read :: "'h sha3_crate \<Rightarrow> 'h \<Rightarrow> nat \<Rightarrow> bytes" where
  "xof_read s h n = map (shake_xof s h) [0..<n]"

definition shake256 :: "'h sha3_crate \<Rightarrow> bytes \<Rightarrow> nat \<Rightarrow> bytes" where
  "shake256 s input out_len =
     (let hasher = shake_default s;
          hasher = shake_update s hasher input
      in xof_read s hasher out_len)"

definition shake256_mac :: "'h sha3_crate \<Rightarrow> bytes \<Rightarrow> bytes \<Rightarrow> nat \<Rightarrow> bytes" where
  "shake256_mac s key message out_len =
     (let hasher = shake_default s;
          hasher = shake_update s hasher key;
          hasher = shake_update s hasher message;
          hasher = shake_update s hasher key
      in xof_read s hasher out_len)"

definition shake256_mac_fixed :: "'h sha3_crate \<Rightarrow> bytes \<Rightarrow> bytes \<Rightarrow> bytes" where
  "shake256_mac_fixed s key message =
     (let hasher = shake_default s;
          hasher = shake_update s hasher key;
          hasher = shake_update s hasher message;
          hasher = shake_update s hasher key
      in xof_read s hasher DEFAULT_MAC_LEN)"

text \<open>
  The loop over the zipped iterators, which stops with the shorter one; \<open>diff |= a ^ b\<close>
  accumulates every differing bit.
\<close>

fun mac_diff :: "byte \<Rightarrow> bytes \<Rightarrow> bytes \<Rightarrow> byte" where
  "mac_diff diff (a # as) (b # bs) = mac_diff (diff OR (a XOR b)) as bs"
| "mac_diff diff _ _ = diff"

definition verify_mac :: "bytes \<Rightarrow> bytes \<Rightarrow> bool" where
  "verify_mac expected computed =
     (if length expected \<noteq> length computed then False
      else mac_diff 0 expected computed = 0)"

text \<open>\<open>ShakeMac\<close>: a context that holds the key.\<close>

record shake_mac =
  mac_key :: bytes

definition shake_mac_new :: "bytes \<Rightarrow> shake_mac" where
  "shake_mac_new key = \<lparr>mac_key = key\<rparr>"

definition shake_mac_mac :: "'h sha3_crate \<Rightarrow> shake_mac \<Rightarrow> bytes \<Rightarrow> bytes" where
  "shake_mac_mac s m message = shake256_mac_fixed s (mac_key m) message"

definition shake_mac_verify :: "'h sha3_crate \<Rightarrow> shake_mac \<Rightarrow> bytes \<Rightarrow> bytes \<Rightarrow> bool" where
  "shake_mac_verify s m message tag =
     (let computed = shake_mac_mac s m message in verify_mac computed tag)"

section \<open>Output lengths\<close>

lemma length_xof_read [simp, lens]: "length (xof_read s h n) = n"
  by (simp add: xof_read_def)

lemma length_shake [simp, lens]:
  "length (shake256 s input n) = n"
  "length (shake256_mac s k m n) = n"
  "length (shake256_mac_fixed s k m) = 32"
  by (simp_all add: shake256_def shake256_mac_def shake256_mac_fixed_def DEFAULT_MAC_LEN_def)

lemma xof_read_prefix: "n \<le> k \<Longrightarrow> take n (xof_read s h k) = xof_read s h n"
  by (simp add: xof_read_def take_map)

section \<open>The comparison loop\<close>

lemma or_eq_zero_iff: "(x :: 'a::len word) OR y = 0 \<longleftrightarrow> x = 0 \<and> y = 0"
  by (auto simp: bit_eq_iff bit_simps)

lemma xor_eq_zero_iff: "(x :: 'a::len word) XOR y = 0 \<longleftrightarrow> x = y"
  by (auto simp: bit_eq_iff bit_simps)

lemma mac_diff_eq_zero:
  "length as = length bs \<Longrightarrow> mac_diff diff as bs = 0 \<longleftrightarrow> diff = 0 \<and> as = bs"
  by (induction diff as bs rule: mac_diff.induct) (auto simp: or_eq_zero_iff xor_eq_zero_iff)

text \<open>
  The contract that callers of the comparison rely on: whatever the loop does, it decides
  equality of the two byte strings. The one-time code check and the recovery codes use it.
\<close>

locale tag_comparison =
  fixes same :: "'a list \<Rightarrow> 'a list \<Rightarrow> bool"
  assumes same_iff: "same a b \<longleftrightarrow> a = b"
begin

lemma same_refl: "same a a"
  by (simp add: same_iff)

lemma same_commute: "same a b = same b a"
  by (auto simp: same_iff)

lemma same_through: "inj f \<Longrightarrow> same (f x) (f y) \<longleftrightarrow> x = y"
  by (simp add: same_iff inj_eq)

end

interpretation ct: tag_comparison verify_mac
  by unfold_locales (auto simp: verify_mac_def mac_diff_eq_zero)

text \<open>The constant-time comparison of two MACs accepts exactly the equal byte strings:
  the loop that ORs the XOR of every pair of bytes, after the length check, decides equality.\<close>

theorem verify_mac_iff: "verify_mac expected computed \<longleftrightarrow> expected = computed"
  by (rule ct.same_iff)

section \<open>The envelope\<close>

lemma shake256_mac_fixed_eq: "shake256_mac_fixed s k m = shake256_mac s k m DEFAULT_MAC_LEN"
  by (simp add: shake256_mac_fixed_def shake256_mac_def)

lemma shake256_mac_hash:
  assumes "sha3_law s"
  shows "shake256_mac s k m n = shake256 s (k @ m @ k) n"
  by (simp add: shake256_mac_def shake256_def xof_read_def Let_def sha3_lawD [OF assms])

lemma envelope_inject:
  assumes "length k = length k'"
  shows "k @ m @ k = k' @ m' @ k' \<longleftrightarrow> k = k' \<and> m = m'"
  using assms by auto

text \<open>Both MAC variants are the documented envelope construction: absorbing key, message
  and key again in three updates gives SHAKE-256 of \<open>K || M || K\<close>, the fixed variant the first
  32 bytes of that stream, and the keyed context accepts exactly that tag.\<close>

theorem mac_is_envelope:
  assumes "sha3_law s"
  shows "shake256_mac s k m n = shake256 s (k @ m @ k) n \<and>
    shake256_mac_fixed s k m = shake256 s (k @ m @ k) 32 \<and>
    (shake_mac_verify s (shake_mac_new k) m tag \<longleftrightarrow> tag = shake256 s (k @ m @ k) 32)"
proof (intro conjI)
  show fixed: "shake256_mac_fixed s k m = shake256 s (k @ m @ k) 32"
    using assms by (simp add: shake256_mac_fixed_eq shake256_mac_hash DEFAULT_MAC_LEN_def)
  show "shake256_mac s k m n = shake256 s (k @ m @ k) n"
    using assms by (rule shake256_mac_hash)
  show "shake_mac_verify s (shake_mac_new k) m tag \<longleftrightarrow> tag = shake256 s (k @ m @ k) 32"
    using fixed by (auto simp: shake_mac_verify_def shake_mac_mac_def shake_mac_new_def ct.same_iff)
qed

text \<open>C27. Two different pairs of key and message with one MAC, the keys of one length, are a
  collision of SHAKE-256 itself: their envelopes differ and have the same hash. The length condition is
  needed: for keys of different lengths the envelope is ambiguous, and the pairs \<open>([x], [x, x])\<close> and
  \<open>([x, x], [])\<close> have the same MAC whatever the hash does.\<close>

theorem envelope_collisions:
  assumes "sha3_law s"
  shows "(length k = length k' \<and> (k, m) \<noteq> (k', m') \<and> shake256_mac s k m n = shake256_mac s k' m' n \<longrightarrow>
      k @ m @ k \<noteq> k' @ m' @ k' \<and> shake256 s (k @ m @ k) n = shake256 s (k' @ m' @ k') n) \<and>
    shake256_mac s [x] [x, x] n = shake256_mac s [x, x] [] n"
  using assms by (auto simp: shake256_mac_hash envelope_inject)

theorem envelope_collisions_witness:
  "shake256 toy_sha [1, 2, 1] 0 = shake256 toy_sha [1, 3, 1] 0 \<and>
   shake256_mac toy_sha [7] [7, 7] 32 = shake256_mac toy_sha [7, 7] [] 32"
proof
  have "shake256_mac toy_sha [1] [2] 0 = shake256_mac toy_sha [1] [3] 0"
    by (simp add: shake256_mac_def xof_read_def)
  then show "shake256 toy_sha [1, 2, 1] 0 = shake256 toy_sha [1, 3, 1] 0"
    using envelope_collisions [OF toy_sha3_law, of "[1]" "[1]" "[2]" "[3]" 0] by simp
qed (use envelope_collisions [OF toy_sha3_law] in blast)

end
