(* ===== verification/PqTotp.thy ===== *)
theory PqTotp
  imports ShakeMac
begin

text \<open>
  \<open>src/pq_totp.rs\<close>: one-time codes from the MAC of the 30-second step counter, their
  verification over a window of steps, and their display. A panic (an index out of range, an
  overflow in the debug profile) is \<open>None\<close>. \<open>totp_code\<close> is the reference: the formula of the
  README, without indexing checks.
\<close>

section \<open>Definitions\<close>

definition TIME_STEP :: u64 where
  "TIME_STEP = 30"

definition CODE_DIGITS :: u32 where
  "CODE_DIGITS = 8"

definition MODULUS :: u32 where
  "MODULUS = 100000000"

definition generate_at_step :: "'h sha3_crate \<Rightarrow> bytes \<Rightarrow> u64 \<Rightarrow> u32 option" where
  "generate_at_step s secret counter =
     (let msg = u64_to_be counter;
          mac = shake256_mac s secret msg 32
      in do {
        l \<leftarrow> index mac (length mac - 1);
        let offset = unat (l AND 0x0F);
        a \<leftarrow> index mac offset;
        b \<leftarrow> index mac (offset + 1);
        c \<leftarrow> index mac (offset + 2);
        d \<leftarrow> index mac (offset + 3);
        Some (u32_of_be (a AND 0x7F) b c d mod MODULUS)
      })"

definition generate :: "'h sha3_crate \<Rightarrow> bytes \<Rightarrow> u64 \<Rightarrow> u32 option" where
  "generate s secret timestamp = generate_at_step s secret (timestamp div TIME_STEP)"

text \<open>The loop over \<open>start..=end\<close>: it returns at the first match and stops after \<open>end\<close>.\<close>

function verify_steps :: "'h sha3_crate \<Rightarrow> bytes \<Rightarrow> bytes \<Rightarrow> u64 \<Rightarrow> u64 \<Rightarrow> bool option" where
  "verify_steps s secret candidate step stop =
     (if stop < step then Some False
      else do {
        expected \<leftarrow> generate_at_step s secret step;
        if verify_mac candidate (u32_to_be expected) then Some True
        else if step = stop then Some False
        else verify_steps s secret candidate (step + 1) stop
      })"
  by pat_completeness auto
termination
proof (relation "measure (\<lambda>(s, secret, candidate, step, stop). unat stop - unat step)", goal_cases)
  case (2 s secret candidate step stop expected)
  then have "step < stop" by auto
  then show ?case by (simp add: unat_succ_less [of step stop] word_less_nat_alt)
qed simp

declare verify_steps.simps [simp del]

definition verify :: "profile \<Rightarrow> 'h sha3_crate \<Rightarrow> bytes \<Rightarrow> u32 \<Rightarrow> u64 \<Rightarrow> u64 \<Rightarrow> bool option" where
  "verify pf s secret code timestamp window =
     (let current_step = timestamp div TIME_STEP;
          start = saturating_sub current_step window
      in do {
        stop \<leftarrow> checked_add pf current_step window;
        let candidate = u32_to_be code;
        verify_steps s secret candidate start stop
      })"

text \<open>\<open>format!("{:08}", code)\<close>: at least eight characters, padded with zeros on the left.\<close>

definition format_code :: "u32 \<Rightarrow> string" where
  "format_code code =
     (let text = dec_text (unat code) in replicate (8 - length text) (CHR ''0'') @ text)"

definition current_step :: "u64 \<Rightarrow> u64" where
  "current_step timestamp = timestamp div TIME_STEP"

definition seconds_remaining :: "profile \<Rightarrow> u64 \<Rightarrow> u64 option" where
  "seconds_remaining pf timestamp = checked_sub pf TIME_STEP (timestamp mod TIME_STEP)"

text \<open>The README's formula.\<close>

definition truncated :: "bytes \<Rightarrow> u32" where
  "truncated mac =
     (let offset = unat (mac ! 31 AND 0x0F)
      in (u32_of_be (mac ! offset) (mac ! (offset + 1)) (mac ! (offset + 2)) (mac ! (offset + 3))
          AND 0x7FFFFFFF) mod 100000000)"

definition totp_code :: "'h sha3_crate \<Rightarrow> bytes \<Rightarrow> u64 \<Rightarrow> u32" where
  "totp_code s secret counter = truncated (shake256_mac s secret (u64_to_be counter) 32)"

section \<open>Code generation\<close>

lemma low_nibble_bound: "unat ((x :: byte) AND 0x0F) < 16"
proof -
  have "x AND 0x0F \<le> 0x0F" by (rule word_and_le1)
  then show ?thesis by (simp add: word_le_nat_alt)
qed

lemma generate_at_step_total: "generate_at_step s secret counter = Some (totp_code s secret counter)"
proof -
  let ?mac = "shake256_mac s secret (u64_to_be counter) 32"
  have "unat (?mac ! 31 AND 0x0F) < 16" by (rule low_nibble_bound)
  then show ?thesis
    by (simp add: generate_at_step_def totp_code_def truncated_def Let_def u32_of_be_mask MODULUS_def)
qed

lemma totp_code_bound: "totp_code s secret counter < MODULUS"
  by (simp add: totp_code_def truncated_def MODULUS_def Let_def word_mod_less_divisor)

section \<open>The window\<close>

lemma verify_steps_eq:
  "verify_steps s secret candidate step stop =
     Some (\<exists>x. step \<le> x \<and> x \<le> stop \<and> candidate = u32_to_be (totp_code s secret x))"
proof (induction s secret candidate step stop rule: verify_steps.induct)
  case (1 s secret candidate step stop)
  show ?case
  proof (cases "stop < step")
    case True
    then show ?thesis by (subst verify_steps.simps) auto
  next
    case False
    show ?thesis
    proof (cases "candidate = u32_to_be (totp_code s secret step) \<or> step = stop")
      case True
      with False show ?thesis
        by (subst verify_steps.simps) (auto simp: generate_at_step_total ct.same_iff)
    next
      case neq: False
      with False have lt: "step < stop" by auto
      have next_le: "step + 1 \<le> x \<longleftrightarrow> step < x" for x
        using lt by (rule succ_le_iff)
      have "verify_steps s secret candidate (step + 1) stop =
          Some (\<exists>x. step + 1 \<le> x \<and> x \<le> stop \<and> candidate = u32_to_be (totp_code s secret x))"
        using 1 [of "totp_code s secret step"] False neq by (simp add: generate_at_step_total ct.same_iff)
      moreover have "(\<exists>x. step + 1 \<le> x \<and> x \<le> stop \<and> candidate = u32_to_be (totp_code s secret x))
          \<longleftrightarrow> (\<exists>x. step \<le> x \<and> x \<le> stop \<and> candidate = u32_to_be (totp_code s secret x))"
        using neq next_le by (auto simp: order.order_iff_strict)
      ultimately show ?thesis
        using False neq by (subst verify_steps.simps) (simp add: generate_at_step_total ct.same_iff)
    qed
  qed
qed

lemma unat_step: "unat (t div TIME_STEP) = unat t div 30"
  by (simp add: TIME_STEP_def unat_div)

lemma unat_step_rem: "unat (t mod TIME_STEP) = unat t mod 30"
  by (simp add: TIME_STEP_def unat_mod)

lemma window_interval:
  assumes "unat cur + unat w < 2 ^ 64"
  shows "saturating_sub cur w \<le> x \<and> x \<le> cur + w \<longleftrightarrow> abs_diff x cur \<le> (w :: u64)"
proof -
  have "unat (cur + w) = unat cur + unat w" using assms by (simp add: unat_word_ariths)
  then show ?thesis by (auto simp: word_le_nat_alt unat_saturating_sub unat_abs_diff)
qed

lemma verify_eq:
  assumes "unat (timestamp div TIME_STEP) + unat window < 2 ^ 64"
  shows "verify pf s secret code timestamp window =
    Some (\<exists>x. abs_diff x (timestamp div TIME_STEP) \<le> window \<and> totp_code s secret x = code)"
  using window_interval [OF assms] checked_add_small [of "timestamp div TIME_STEP" window pf] assms
  by (auto simp: verify_def verify_steps_eq u32_to_be_inject Let_def)

lemma small_window_fits: "unat window < 2 ^ 63 \<Longrightarrow> unat (timestamp div TIME_STEP) + unat window < 2 ^ 64"
  using unat64_bound [of timestamp] by (simp add: unat_step)

lemma step_drift:
  assumes "unat (abs_diff t1 t2) \<le> 30 * unat w"
  shows "abs_diff (t1 div TIME_STEP) (t2 div TIME_STEP) \<le> (w :: u64)"
proof -
  have "unat t1 \<le> unat t2 + 30 * unat w" and "unat t2 \<le> unat t1 + 30 * unat w"
    using assms by (auto simp: unat_abs_diff split: if_splits)
  then have "unat t1 div 30 \<le> unat t2 div 30 + unat w" and "unat t2 div 30 \<le> unat t1 div 30 + unat w"
    by linarith+
  then show ?thesis by (auto simp: word_le_nat_alt unat_abs_diff unat_step)
qed

text \<open>
  What a client of one-time codes relies on: generation never fails and gives the code of the
  time's step, and the check accepts the codes of the steps around it.
\<close>

locale one_time_codes =
  fixes gen :: "'k \<Rightarrow> u64 \<Rightarrow> u32 option"
    and check :: "'k \<Rightarrow> u32 \<Rightarrow> u64 \<Rightarrow> u64 \<Rightarrow> bool option"
    and code :: "'k \<Rightarrow> u64 \<Rightarrow> u32"
  assumes gen_eq: "gen k t = Some (code k (t div TIME_STEP))"
    and check_eq: "unat (t div TIME_STEP) + unat w < 2 ^ 64 \<Longrightarrow>
      check k c t w = Some (\<exists>x. abs_diff x (t div TIME_STEP) \<le> w \<and> code k x = c)"
begin

lemma drift_accepted:
  assumes "gen k t1 = Some c" and "unat (abs_diff t1 t2) \<le> 30 * unat w"
    and "unat (t2 div TIME_STEP) + unat w < 2 ^ 64"
  shows "check k c t2 w = Some True"
  using assms(1) step_drift [OF assms(2)] by (auto simp: gen_eq check_eq [OF assms(3)])

lemma small_window_decides: "unat w < 2 ^ 63 \<Longrightarrow> \<exists>b. check k c t w = Some b"
  using check_eq [OF small_window_fits [of w t]] by blast

end

interpretation totp: one_time_codes "generate s" "verify pf s" "totp_code s" for s pf
  by unfold_locales (simp_all add: generate_def generate_at_step_total verify_eq)

lemma seconds_remaining_total: "seconds_remaining pf t = Some (TIME_STEP - t mod TIME_STEP)"
proof -
  have "t mod TIME_STEP \<le> TIME_STEP" by (simp add: TIME_STEP_def word_le_nat_alt unat_mod)
  then show ?thesis unfolding seconds_remaining_def by (rule checked_sub_le)
qed

section \<open>Properties\<close>

text \<open>C25. Code generation never panics (the four indexed bytes are in range) and computes the
  documented formula: 31 bits at the offset given by the low nibble of the last byte of
  \<open>SHAKE256(secret || T || secret)\<close>, modulo ten to the eighth, so the code has at most eight
  digits.\<close>

theorem generate_is_readme_formula:
  assumes "sha3_law s"
  shows "\<exists>code. generate s secret timestamp = Some code \<and>
    code = truncated (shake256 s (secret @ u64_to_be (timestamp div 30) @ secret) 32) \<and> code < 100000000"
  using totp_code_bound [of s secret "timestamp div TIME_STEP"]
  by (auto simp: totp.gen_eq totp_code_def shake256_mac_hash [OF assms] TIME_STEP_def MODULUS_def)

theorem generate_is_readme_formula_witness:
  "\<exists>code. generate toy_sha [1, 2, 3] 1000000 = Some code \<and>
    code = truncated (shake256 toy_sha ([1, 2, 3] @ u64_to_be (1000000 div 30) @ [1, 2, 3]) 32) \<and>
    code < 100000000"
  by (rule generate_is_readme_formula [OF toy_sha3_law])

text \<open>C11. Verification accepts a code exactly when it is the code of some step at most \<open>window\<close>
  steps from the current one, before or after (the window is cut off at step 0), whenever the last
  step of the window fits 64 bits; the loop terminates and nothing panics.\<close>

theorem verify_window:
  assumes "unat (timestamp div TIME_STEP) + unat window < 2 ^ 64"
  shows "verify pf s secret code timestamp window =
    Some (\<exists>x. abs_diff x (current_step timestamp) \<le> window \<and> generate_at_step s secret x = Some code)"
  using assms by (simp add: verify_eq generate_at_step_total current_step_def)

theorem verify_window_witness:
  "verify Debug toy_sha [1] 5 1000000 1 =
    Some (\<exists>x. abs_diff x (current_step 1000000) \<le> 1 \<and> generate_at_step toy_sha [1] x = Some 5)"
  by (rule verify_window) (simp add: TIME_STEP_def)

text \<open>A code is accepted by a verifier whose clock differs from the generator's by up to
  \<open>30 * window\<close> seconds in either direction.\<close>

theorem verify_tolerates_drift:
  assumes "generate s secret t_client = Some code"
    and "unat (abs_diff t_client t_server) \<le> 30 * unat window"
    and "unat window < 2 ^ 63"
  shows "verify pf s secret code t_server window = Some True"
  using assms(1,2) small_window_fits [OF assms(3)] by (rule totp.drift_accepted)

text \<open>At any time at most \<open>2 * window + 1\<close> codes are accepted, so with the window of 1 that the
  server uses a guess hits with at most 3 of the ten to the eighth codes.\<close>

theorem verify_accepts_few:
  assumes "unat window < 2 ^ 63"
  shows "card {code. verify pf s secret code timestamp window = Some True} \<le> 2 * unat window + 1"
proof -
  let ?cur = "timestamp div TIME_STEP"
  let ?I = "{unat ?cur - unat window .. unat ?cur + unat window}"
  have "{code. verify pf s secret code timestamp window = Some True}
      \<subseteq> (\<lambda>n. totp_code s secret (word_of_nat n)) ` ?I" (is "?A \<subseteq> ?B")
  proof
    fix code assume "code \<in> ?A"
    then obtain x where x: "abs_diff x ?cur \<le> window" "totp_code s secret x = code"
      by (auto simp: verify_eq [OF small_window_fits [OF assms]])
    then have "unat x \<in> ?I" by (auto simp: word_le_nat_alt unat_abs_diff split: if_splits)
    with x(2) show "code \<in> ?B" by force
  qed
  then have "card ?A \<le> card ?B" by (rule card_mono [rotated]) simp
  also have "card ?B \<le> card ?I" by (rule card_image_le) simp
  also have "card ?I \<le> 2 * unat window + 1" by simp
  finally show ?thesis .
qed

text \<open>C31. The end of the window is computed without the saturation its start has. When
  \<open>current_step + window\<close> does not fit 64 bits, the debug build panics; the release build wraps
  around and checks the steps from 0 up to the wrapped end, which is before the current step, so
  the current code is accepted only by coincidence with an older one.\<close>

theorem verify_window_overflow:
  assumes "2 ^ 64 \<le> unat (timestamp div TIME_STEP) + unat window"
  shows "verify Debug s secret code timestamp window = None \<and>
    verify Release s secret code timestamp window =
      Some (\<exists>x \<le> timestamp div TIME_STEP + window. generate_at_step s secret x = Some code) \<and>
    timestamp div TIME_STEP + window < timestamp div TIME_STEP"
proof (intro conjI)
  let ?cur = "timestamp div TIME_STEP"
  have cur: "unat ?cur < 2 ^ 60"
    using unat64_bound [of timestamp] by (simp add: unat_step)
  have w: "unat window < 2 ^ 64" using unat64_bound [of window] by simp
  show "verify Debug s secret code timestamp window = None"
    using assms by (simp add: verify_def checked_add_def Let_def)
  have "unat ?cur \<le> unat window" using assms cur by simp
  then have "saturating_sub ?cur window = 0"
    by (simp add: word_unat_eq_iff unat_saturating_sub)
  then show "verify Release s secret code timestamp window =
      Some (\<exists>x \<le> ?cur + window. generate_at_step s secret x = Some code)"
    by (auto simp: generate_at_step_total verify_def checked_add_def Let_def verify_steps_eq u32_to_be_inject)
  have "unat (?cur + window) = unat ?cur + unat window - 18446744073709551616"
    using assms by (intro unat64_add_wrap) simp
  then show "?cur + window < ?cur"
    using assms w cur unfolding word_less_nat_alt by simp
qed

theorem verify_window_overflow_witness:
  "verify Debug toy_sha [1] 5 1000000 18446744073709551615 = None"
  by (rule verify_window_overflow [THEN conjunct1]) (simp add: TIME_STEP_def)

text \<open>A generated code is displayed as exactly eight decimal digits whose value is the code.\<close>

theorem format_code_of_generated:
  assumes "generate s secret timestamp = Some code"
  shows "length (format_code code) = 8 \<and>
    (\<forall>c \<in> set (format_code code). 48 \<le> (of_char c :: nat) \<and> (of_char c :: nat) \<le> 57) \<and>
    dec_value (format_code code) = unat code"
proof (intro conjI)
  have "unat code < 10 ^ 8"
    using assms totp_code_bound [of s secret "timestamp div TIME_STEP"]
    by (auto simp: totp.gen_eq MODULUS_def word_less_nat_alt)
  then have "length (dec_text (unat code)) \<le> 8" by (rule dec_text_length) simp
  then show "length (format_code code) = 8" by (simp add: format_code_def Let_def)
  show "\<forall>c \<in> set (format_code code). 48 \<le> (of_char c :: nat) \<and> (of_char c :: nat) \<le> 57"
    using dec_text_digits [of "unat code"] by (auto simp: format_code_def Let_def)
  show "dec_value (format_code code) = unat code"
    by (simp add: format_code_def Let_def dec_value_zeros dec_value_dec_text)
qed

text \<open>C34. The displayed number of remaining seconds is between 1 and 30 and is exact: until then
  the time step, and so the code, stays the same, and then the next step begins. It never panics.\<close>

theorem seconds_remaining_exact:
  "\<exists>r. seconds_remaining pf t = Some r \<and> 0 < r \<and> r \<le> 30 \<and>
    (\<forall>d < r. unat t + unat d < 2 ^ 64 \<longrightarrow> current_step (t + d) = current_step t) \<and>
    (unat t + unat r < 2 ^ 64 \<longrightarrow> current_step (t + r) = current_step t + 1)"
proof (intro exI conjI allI impI)
  let ?r = "TIME_STEP - t mod TIME_STEP"
  have rem: "unat (t mod TIME_STEP) < 30" by (simp add: unat_step_rem)
  then have le: "t mod TIME_STEP \<le> TIME_STEP"
    by (simp add: word_le_nat_alt) (simp add: TIME_STEP_def)
  show "seconds_remaining pf t = Some ?r" by (rule seconds_remaining_total)
  have r: "unat ?r = 30 - unat t mod 30"
    using le by (simp add: unat_sub word_le_nat_alt unat_step_rem) (simp add: TIME_STEP_def)
  then show "0 < ?r" and "?r \<le> 30" by (simp_all add: word_less_nat_alt word_le_nat_alt)
  have split: "unat t = 30 * (unat t div 30) + unat t mod 30" by simp
  show "current_step (t + d) = current_step t" if "d < ?r" and "unat t + unat d < 2 ^ 64" for d
  proof (rule word_unat_eq_iff [THEN iffD2])
    have "unat d < 30 - unat t mod 30" using that(1) r by (simp add: word_less_nat_alt)
    then have "(unat t + unat d) div 30 = unat t div 30" using split by linarith
    with that(2) show "unat (current_step (t + d)) = unat (current_step t)"
      by (simp add: current_step_def unat_step unat64_add)
  qed
  show "current_step (t + ?r) = current_step t + 1" if "unat t + unat ?r < 2 ^ 64"
  proof (rule word_unat_eq_iff [THEN iffD2])
    have "(unat t + unat ?r) div 30 = unat t div 30 + 1" using r split by linarith
    moreover have "unat t div 30 + 1 < 2 ^ 64" using unat64_bound [of t] by simp
    ultimately show "unat (current_step (t + ?r)) = unat (current_step t + 1)"
      using that by (simp add: current_step_def unat_step unat64_add)
  qed
qed

theorem seconds_remaining_exact_witness:
  "\<exists>r. seconds_remaining Debug 59 = Some r \<and> 0 < r \<and> r \<le> 30 \<and>
    (\<forall>d < r. unat (59 :: u64) + unat d < 2 ^ 64 \<longrightarrow> current_step (59 + d) = current_step 59) \<and>
    (unat (59 :: u64) + unat r < 2 ^ 64 \<longrightarrow> current_step (59 + r) = current_step 59 + 1)"
  by (rule seconds_remaining_exact)

end
