(* ===== verification/Io.thy ===== *)
theory Io
  imports Instances
begin

text \<open>
  Straight-line code that can panic and acts on the world: the \<open>Benchmark\<close> command and the unit tests
  are written with it. A computation is a function of the world that returns \<open>None\<close> for a panic. Its
  weakest precondition \<open>wp\<close> is the set of worlds from which it returns with a given postcondition, so
  that a proof follows the code from call to call; the collection \<open>wp_rules\<close> has one rule per
  operation that draws randomness.
\<close>

named_theorems wp_rules \<comment> \<open>weakest preconditions of the operations, as introduction rules\<close>

section \<open>Computations\<close>

type_synonym ('a, 'w) io = "'w \<Rightarrow> 'a option \<times> 'w"

definition io_ret :: "'a \<Rightarrow> ('a, 'w) io" where
  "io_ret x w = (Some x, w)"

definition io_then :: "('a, 'w) io \<Rightarrow> ('a \<Rightarrow> ('b, 'w) io) \<Rightarrow> ('b, 'w) io" where
  "io_then m f w = (case m w of (None, w') \<Rightarrow> (None, w') | (Some x, w') \<Rightarrow> f x w')"

text \<open>A call that cannot panic, one whose \<open>Result\<close> is unwrapped, and one that may itself panic.\<close>

definition io_lift :: "('w \<Rightarrow> 'a \<times> 'w) \<Rightarrow> ('a, 'w) io" where
  "io_lift f w = (case f w of (x, w') \<Rightarrow> (Some x, w'))"

definition io_unwrap :: "('w \<Rightarrow> ('e + 'a) \<times> 'w) \<Rightarrow> ('a, 'w) io" where
  "io_unwrap f w = (case f w of (Inl e, w') \<Rightarrow> (None, w') | (Inr x, w') \<Rightarrow> (Some x, w'))"

definition io_expect :: "('e + 'a, 'w) io \<Rightarrow> ('a, 'w) io" where
  "io_expect m w = (case m w of (Some (Inr x), w') \<Rightarrow> (Some x, w') | (_, w') \<Rightarrow> (None, w'))"

text \<open>The same for calls that do not touch the world, and \<open>assert!\<close>.\<close>

definition io_value :: "'a option \<Rightarrow> ('a, 'w) io" where
  "io_value v w = (v, w)"

definition io_result :: "'e + 'a \<Rightarrow> ('a, 'w) io" where
  "io_result r w = (case r of Inl e \<Rightarrow> (None, w) | Inr x \<Rightarrow> (Some x, w))"

definition io_assert :: "bool \<Rightarrow> (unit, 'w) io" where
  "io_assert b w = ((if b then Some () else None), w)"

text \<open>\<open>x = init; for _ in 0..n { x = body }\<close>, and a loop over a list.\<close>

fun io_loop :: "nat \<Rightarrow> ('a, 'w) io \<Rightarrow> 'a \<Rightarrow> ('a, 'w) io" where
  "io_loop 0 body x = io_ret x"
| "io_loop (Suc n) body x = io_then body (io_loop n body)"

fun io_each :: "('a \<Rightarrow> (unit, 'w) io) \<Rightarrow> 'a list \<Rightarrow> (unit, 'w) io" where
  "io_each body [] = io_ret ()"
| "io_each body (x # xs) = io_then (body x) (\<lambda>_. io_each body xs)"

section \<open>Weakest preconditions\<close>

definition wp :: "('a, 'w) io \<Rightarrow> ('a \<Rightarrow> 'w \<Rightarrow> bool) \<Rightarrow> 'w \<Rightarrow> bool" where
  "wp m Q w = (case m w of (None, w') \<Rightarrow> False | (Some x, w') \<Rightarrow> Q x w')"

lemma wp_simps [simp]:
  "wp (io_ret x) Q = Q x"
  "wp (io_then m f) P = wp m (\<lambda>y. wp (f y) P)"
  "wp (io_value v) Q = (\<lambda>w. \<exists>x. v = Some x \<and> Q x w)"
  "wp (io_result r) Q = (\<lambda>w. \<exists>x. r = Inr x \<and> Q x w)"
  "wp (io_assert b) R = (\<lambda>w. b \<and> R () w)"
  by (auto simp: fun_eq_iff wp_def io_ret_def io_then_def io_value_def io_result_def io_assert_def
      split: prod.splits option.splits sum.splits)

lemma wp_result_ok: "\<exists>x. r = Inr x \<Longrightarrow> wp (io_result r) (\<lambda>_ _. True) w"
  by auto

lemma wp_lift: "(\<And>x w'. f w = (x, w') \<Longrightarrow> Q x w') \<Longrightarrow> wp (io_lift f) Q w"
  by (simp add: wp_def io_lift_def split: prod.splits)

lemma wp_unwrap: "f w = (Inr x, w') \<Longrightarrow> Q x w' \<Longrightarrow> wp (io_unwrap f) Q w"
  by (simp add: wp_def io_unwrap_def)

lemma wp_expect: "wp (io_expect m) Q w \<longleftrightarrow> wp m (\<lambda>r w'. \<exists>x. r = Inr x \<and> Q x w') w"
  by (simp add: wp_def io_expect_def split: prod.splits option.splits sum.splits)

lemma wp_expect_value [simp]: "wp (io_expect (io_value v)) Q = (\<lambda>w. \<exists>x. v = Some (Inr x) \<and> Q x w)"
  by (auto simp: fun_eq_iff wp_expect)

lemma wp_mono: "wp m P w \<Longrightarrow> (\<And>x w'. P x w' \<Longrightarrow> Q x w') \<Longrightarrow> wp m Q w"
  by (auto simp: wp_def split: prod.splits option.splits)

lemma wp_result: "wp m Q w \<longleftrightarrow> (\<exists>x w'. m w = (Some x, w') \<and> Q x w')"
  by (auto simp: wp_def split: prod.splits option.splits)

text \<open>A loop is described by what every pass establishes.\<close>

lemma wp_loop:
  assumes "\<And>w. wp body (\<lambda>x _. P x) w" and "P x" and "\<And>x w'. P x \<Longrightarrow> Q x w'"
  shows "wp (io_loop n body x) Q w"
  using assms(2)
proof (induction n arbitrary: x w)
  case 0
  with assms(3) show ?case by simp
next
  case (Suc n)
  show ?case by (simp, rule wp_mono [OF assms(1)], rule Suc.IH)
qed

lemma wp_loop_pos:
  assumes "\<And>w. wp body (\<lambda>x _. P x) w" and "0 < n" and "\<And>x w'. P x \<Longrightarrow> Q x w'"
  shows "wp (io_loop n body x) Q w"
proof (cases n)
  case (Suc m)
  show ?thesis unfolding Suc by (simp, rule wp_mono [OF assms(1)], rule wp_loop [OF assms(1)]) (use assms(3) in auto)
qed (use assms(2) in simp)

lemma wp_each: "(\<And>x w. x \<in> set xs \<Longrightarrow> wp (body x) (\<lambda>_ _. True) w) \<Longrightarrow> wp (io_each body xs) (\<lambda>_ _. True) w"
  by (induction xs arbitrary: w) (auto intro: wp_mono)

text \<open>A computation that panics from every world.\<close>

lemma stops_then: "(\<And>w. fst (m w) = None) \<Longrightarrow> fst (io_then m f w) = None"
  by (simp add: io_then_def split: prod.splits option.splits) (metis fst_conv option.distinct(1))

lemma panics_then:
  assumes "wp m P w" and "\<And>x w. P x w \<Longrightarrow> fst (f x w) = None"
  shows "fst (io_then m f w) = None"
  using assms by (auto simp: wp_def io_then_def split: prod.splits option.splits)

end
