(* ===== verification/Dilithium.thy ===== *)
theory Dilithium
  imports Io
begin

text \<open>
  \<open>src/dilithium.rs\<close>: the Dilithium3 key pair and its detached signatures, over the
  \<open>pqcrypto\<close> crate. The locale \<open>signature_scheme\<close> is the contract of a signature scheme that
  the challenge protocol uses and that the hybrid scheme also meets.
\<close>

section \<open>Definitions\<close>

datatype dilithium_error =
  VerificationFailed | InvalidPublicKey | InvalidSecretKey | InvalidSignature

fun dilithium_error_text :: "dilithium_error \<Rightarrow> string" where
  "dilithium_error_text VerificationFailed = ''signature verification failed''"
| "dilithium_error_text InvalidPublicKey = ''invalid public key length''"
| "dilithium_error_text InvalidSecretKey = ''invalid secret key length''"
| "dilithium_error_text InvalidSignature = ''invalid signature length''"

record keypair =
  public_key :: bytes
  secret_key :: bytes

text \<open>\<open>KeySizes\<close>\<close>

definition DILITHIUM_PUBLIC_KEY :: nat where "DILITHIUM_PUBLIC_KEY = 1952"
definition DILITHIUM_SECRET_KEY :: nat where "DILITHIUM_SECRET_KEY = 4032"
definition DILITHIUM_SIGNATURE :: nat where "DILITHIUM_SIGNATURE = 3309"

definition keypair_generate :: "'w dilithium3_crate \<Rightarrow> 'w \<Rightarrow> keypair \<times> 'w" where
  "keypair_generate d w =
     (case d3_keypair d w of ((pk, sk), w') \<Rightarrow> (\<lparr>public_key = pk, secret_key = sk\<rparr>, w'))"

definition keypair_sign ::
  "'w dilithium3_crate \<Rightarrow> keypair \<Rightarrow> bytes \<Rightarrow> 'w \<Rightarrow> (dilithium_error + bytes) \<times> 'w" where
  "keypair_sign d kp message w =
     (case d3_sk_from d (secret_key kp) of
        None \<Rightarrow> (Inl InvalidSecretKey, w)
      | Some sk \<Rightarrow> (case d3_sign d message sk w of (sig, w') \<Rightarrow> (Inr sig, w')))"

definition verify_detached ::
  "'w dilithium3_crate \<Rightarrow> bytes \<Rightarrow> bytes \<Rightarrow> bytes \<Rightarrow> dilithium_error + unit" where
  "verify_detached d pk_bytes message signature =
     (case d3_pk_from d pk_bytes of
        None \<Rightarrow> Inl InvalidPublicKey
      | Some pk \<Rightarrow>
        (case d3_sig_from d signature of
           None \<Rightarrow> Inl InvalidSignature
         | Some sig \<Rightarrow>
           if d3_verify d sig message pk then Inr () else Inl VerificationFailed))"

definition keypair_verify ::
  "'w dilithium3_crate \<Rightarrow> keypair \<Rightarrow> bytes \<Rightarrow> bytes \<Rightarrow> dilithium_error + unit" where
  "keypair_verify d kp message signature = verify_detached d (public_key kp) message signature"

text \<open>A key pair that \<open>generate\<close> can return.\<close>

definition generated :: "'w dilithium3_crate \<Rightarrow> keypair \<Rightarrow> bool" where
  "generated d kp \<longleftrightarrow> d3_pair d (public_key kp) (secret_key kp)"

section \<open>The contract of a signature scheme\<close>

locale signature_scheme =
  fixes law :: bool
    and good :: "'kp \<Rightarrow> bool"
    and pub :: "'kp \<Rightarrow> 'pk"
    and sign :: "'kp \<Rightarrow> bytes \<Rightarrow> 'w \<Rightarrow> ('e + bytes) \<times> 'w"
    and check :: "'pk \<Rightarrow> bytes \<Rightarrow> bytes \<Rightarrow> 'e + unit"
    and sig_len :: nat
  assumes sign_total: "law \<Longrightarrow> good kp \<Longrightarrow> \<exists>sg w'. sign kp m w = (Inr sg, w')"
    and sign_length: "law \<Longrightarrow> good kp \<Longrightarrow> sign kp m w = (Inr sg, w') \<Longrightarrow> length sg = sig_len"
    and sign_check: "law \<Longrightarrow> good kp \<Longrightarrow> sign kp m w = (Inr sg, w') \<Longrightarrow> check (pub kp) m sg = Inr ()"
begin

lemma sign_then_check:
  assumes "law" and "good kp"
  obtains sg w' where "sign kp m w = (Inr sg, w')" and "length sg = sig_len"
    and "check (pub kp) m sg = Inr ()"
  using sign_total [OF assms] sign_length [OF assms] sign_check [OF assms] by metis

lemma never_sign_error:
  assumes "law" and "good kp"
  shows "sign kp m w \<noteq> (Inl e, w')"
  using sign_total [OF assms, of m w] by auto

end

lemma generated_keypair_generate: "keypair_generate d w = (kp, w') \<Longrightarrow> generated d kp"
  by (auto simp: keypair_generate_def generated_def d3_pair_def split: prod.splits)
     (metis fst_conv)

lemma verify_detached_ok:
  "verify_detached d pk m sg = Inr () \<longleftrightarrow>
     (\<exists>k s. d3_pk_from d pk = Some k \<and> d3_sig_from d sg = Some s \<and> d3_verify d s m k)"
  by (auto simp: verify_detached_def split: option.splits)

interpretation dsig: signature_scheme "dilithium3_law d" "generated d" public_key "keypair_sign d"
  "verify_detached d" DILITHIUM_SIGNATURE for d
proof (unfold_locales, goal_cases)
  case (1 kp m w)
  then show ?case
    using dilithium3_lawD(4) by (fastforce simp: keypair_sign_def generated_def split: prod.splits)
next
  case (2 kp m w sg w')
  then have "d3_sign d m (secret_key kp) w = (sg, w')"
    using dilithium3_lawD(4) by (fastforce simp: keypair_sign_def generated_def split: prod.splits)
  with 2 show ?case
    using dilithium3_lawD(5) by (fastforce simp: generated_def DILITHIUM_SIGNATURE_def)
next
  case (3 kp m w sg w')
  then have "d3_sign d m (secret_key kp) w = (sg, w')"
    using dilithium3_lawD(4) by (fastforce simp: keypair_sign_def generated_def split: prod.splits)
  with 3 show ?case
    using dilithium3_lawD(3,5) unfolding verify_detached_ok generated_def by metis
qed

lemma wp_keypair_generate [wp_rules]:
  "(\<And>kp w'. generated d kp \<Longrightarrow> Q kp w') \<Longrightarrow> wp (io_lift (keypair_generate d)) Q w"
  by (rule wp_lift) (auto dest: generated_keypair_generate)

lemma wp_keypair_sign [wp_rules]:
  assumes "dilithium3_law d" and "generated d kp"
    and "\<And>sg w'. length sg = 3309 \<Longrightarrow> verify_detached d (public_key kp) m sg = Inr () \<Longrightarrow>
      keypair_verify d kp m sg = Inr () \<Longrightarrow> Q sg w'"
  shows "wp (io_unwrap (keypair_sign d kp m)) Q w"
proof (rule dsig.sign_then_check [OF assms(1,2), of m w])
  fix sg w'
  assume "keypair_sign d kp m w = (Inr sg, w')" and "length sg = DILITHIUM_SIGNATURE"
    and "verify_detached d (public_key kp) m sg = Inr ()"
  then show ?thesis
    by (intro wp_unwrap assms(3)) (simp_all add: DILITHIUM_SIGNATURE_def keypair_verify_def)
qed

lemma generated_lengths:
  "dilithium3_law d \<Longrightarrow> generated d kp \<Longrightarrow> length (public_key kp) = 1952"
  "dilithium3_law d \<Longrightarrow> generated d kp \<Longrightarrow> length (secret_key kp) = 4032"
  unfolding generated_def by (auto dest: dilithium3_lawD(1,2))

lemma toy_verify_detached [simp]:
  "verify_detached toy_dil (replicate 1952 e) m (toy_sig e m) = Inr ()"
  unfolding verify_detached_ok by (simp add: toy_dil_def)

section \<open>Properties\<close>

text \<open>Dilithium round trip: a key pair that \<open>generate\<close> returned signs every message, with a
  signature of 3309 bytes, and its public key verifies that signature, through the pair or through
  \<open>verify_detached\<close>.\<close>

theorem dilithium_round_trip:
  assumes "dilithium3_law d" and "keypair_generate d w0 = (kp, w1)"
  shows "\<exists>sg w'. keypair_sign d kp m w = (Inr sg, w') \<and> length sg = 3309 \<and>
    keypair_verify d kp m sg = Inr () \<and> verify_detached d (public_key kp) m sg = Inr ()"
  using dsig.sign_then_check [OF assms(1) generated_keypair_generate [OF assms(2)], of m w]
  unfolding keypair_verify_def DILITHIUM_SIGNATURE_def by metis

end
