(* ===== verification/Hybrid.thy ===== *)
theory Hybrid
  imports Dilithium
begin

text \<open>
  \<open>src/hybrid.rs\<close>: the composite of an Ed25519 and a Dilithium3 signature. It meets the
  contract \<open>signature_scheme\<close>, and verification is the conjunction of its two parts.
\<close>

section \<open>Definitions\<close>

definition ED25519_SIG_SIZE :: nat where "ED25519_SIG_SIZE = 64"
definition HYBRID_SIG_SIZE :: nat where "HYBRID_SIG_SIZE = ED25519_SIG_SIZE + DILITHIUM_SIGNATURE"

datatype hybrid_error =
    Ed25519Failed
  | DilithiumFailed dilithium_error
  | InvalidSignatureLength (expected: nat) (got: nat)
  | InvalidEd25519PublicKey
  | InvalidEd25519SecretKey

fun hybrid_error_text :: "hybrid_error \<Rightarrow> string" where
  "hybrid_error_text Ed25519Failed = ''Ed25519 verification failed''"
| "hybrid_error_text (DilithiumFailed e) = ''Dilithium verification failed: '' @ dilithium_error_text e"
| "hybrid_error_text (InvalidSignatureLength e g) =
     ''invalid hybrid signature length (expected '' @ dec_text e @ '', got '' @ dec_text g @ '')''"
| "hybrid_error_text InvalidEd25519PublicKey = ''invalid Ed25519 public key''"
| "hybrid_error_text InvalidEd25519SecretKey = ''invalid Ed25519 secret key''"

record hybrid_keypair =
  ed25519_public :: bytes
  ed25519_secret :: bytes
  dilithium_public :: bytes
  dilithium_secret :: bytes

record hybrid_public_key =
  hpk_ed25519 :: bytes
  hpk_dilithium :: bytes

definition hybrid_generate ::
  "'w ed25519_crate \<Rightarrow> 'w dilithium3_crate \<Rightarrow> 'w \<Rightarrow> hybrid_keypair \<times> 'w" where
  "hybrid_generate e d w =
     (case ed_generate e w of (ed_signing, w1) \<Rightarrow>
      let ed_verifying = ed_verifying_key e ed_signing in
      case keypair_generate d w1 of (dil_kp, w2) \<Rightarrow>
        (\<lparr>ed25519_public = ed_verifying, ed25519_secret = ed_signing,
          dilithium_public = public_key dil_kp, dilithium_secret = secret_key dil_kp\<rparr>, w2))"

definition hybrid_public :: "hybrid_keypair \<Rightarrow> hybrid_public_key" where
  "hybrid_public kp = \<lparr>hpk_ed25519 = ed25519_public kp, hpk_dilithium = dilithium_public kp\<rparr>"

definition hybrid_sign ::
  "'w ed25519_crate \<Rightarrow> 'w dilithium3_crate \<Rightarrow> hybrid_keypair \<Rightarrow> bytes \<Rightarrow> 'w \<Rightarrow>
   (hybrid_error + bytes) \<times> 'w" where
  "hybrid_sign e d kp message w =
     (case try_into_array 32 (ed25519_secret kp) of
        None \<Rightarrow> (Inl InvalidEd25519SecretKey, w)
      | Some ed_signing \<Rightarrow>
        let ed_sig = ed_sign e ed_signing message;
            dil_kp = \<lparr>public_key = dilithium_public kp, secret_key = dilithium_secret kp\<rparr>
        in case keypair_sign d dil_kp message w of
             (Inl err, w') \<Rightarrow> (Inl (DilithiumFailed err), w')
           | (Inr dil_sig, w') \<Rightarrow> (Inr (ed_sig @ dil_sig), w'))"

definition verify_hybrid ::
  "'w ed25519_crate \<Rightarrow> 'w dilithium3_crate \<Rightarrow> hybrid_public_key \<Rightarrow> bytes \<Rightarrow> bytes \<Rightarrow>
   hybrid_error + unit" where
  "verify_hybrid e d hpk message signature =
     (if length signature \<noteq> HYBRID_SIG_SIZE
      then Inl (InvalidSignatureLength HYBRID_SIG_SIZE (length signature))
      else
        let ed_sig_bytes = take ED25519_SIG_SIZE signature;
            dil_sig_bytes = drop ED25519_SIG_SIZE signature
        in case try_into_array 32 (hpk_ed25519 hpk) of
             None \<Rightarrow> Inl InvalidEd25519PublicKey
           | Some ed_pub_bytes \<Rightarrow>
             (case ed_vk_from e ed_pub_bytes of
                None \<Rightarrow> Inl InvalidEd25519PublicKey
              | Some ed_verifying \<Rightarrow>
                (case try_into_array 64 ed_sig_bytes of
                   None \<Rightarrow> Inl Ed25519Failed
                 | Some ed_sig \<Rightarrow>
                   if \<not> ed_verify e ed_verifying message ed_sig then Inl Ed25519Failed
                   else map_err DilithiumFailed
                          (verify_detached d (hpk_dilithium hpk) message dil_sig_bytes))))"

definition hybrid_verify ::
  "'w ed25519_crate \<Rightarrow> 'w dilithium3_crate \<Rightarrow> hybrid_keypair \<Rightarrow> bytes \<Rightarrow> bytes \<Rightarrow> hybrid_error + unit" where
  "hybrid_verify e d kp message signature = verify_hybrid e d (hybrid_public kp) message signature"

text \<open>A key pair that \<open>generate\<close> can return.\<close>

definition hybrid_generated :: "'w ed25519_crate \<Rightarrow> 'w dilithium3_crate \<Rightarrow> hybrid_keypair \<Rightarrow> bool" where
  "hybrid_generated e d kp \<longleftrightarrow>
     length (ed25519_secret kp) = 32 \<and> ed25519_public kp = ed_verifying_key e (ed25519_secret kp) \<and>
     d3_pair d (dilithium_public kp) (dilithium_secret kp)"

section \<open>Contract\<close>

lemmas hybrid_sizes = HYBRID_SIG_SIZE_def ED25519_SIG_SIZE_def DILITHIUM_SIGNATURE_def

lemma verify_hybrid_ok:
  "verify_hybrid e d hpk m sg = Inr () \<longleftrightarrow>
     length sg = 3373 \<and> length (hpk_ed25519 hpk) = 32 \<and>
     (\<exists>vk. ed_vk_from e (hpk_ed25519 hpk) = Some vk \<and> ed_verify e vk m (take 64 sg)) \<and>
     verify_detached d (hpk_dilithium hpk) m (drop 64 sg) = Inr ()"
  by (auto simp: verify_hybrid_def hybrid_sizes Let_def try_into_array_def split: option.splits)

lemma hybrid_generated_generate:
  "ed25519_law e \<Longrightarrow> hybrid_generate e d w = (kp, w') \<Longrightarrow> hybrid_generated e d kp"
  by (auto simp: hybrid_generate_def hybrid_generated_def Let_def generated_def
      dest: ed25519_lawD(1) generated_keypair_generate split: prod.splits)

lemma hybrid_sign_parts:
  assumes "hybrid_generated e d kp" and "hybrid_sign e d kp m w = (Inr sg, w')"
  obtains dil_sig where "sg = ed_sign e (ed25519_secret kp) m @ dil_sig"
    and "keypair_sign d \<lparr>public_key = dilithium_public kp, secret_key = dilithium_secret kp\<rparr> m w = (Inr dil_sig, w')"
  using assms by (auto simp: hybrid_sign_def hybrid_generated_def try_into_array_def Let_def
      split: prod.splits sum.splits)

lemma hybrid_sign_sound:
  assumes law: "dilithium3_law d" "ed25519_law e"
    and kp: "hybrid_generated e d kp" and sign: "hybrid_sign e d kp m w = (Inr sg, w')"
  shows "length sg = HYBRID_SIG_SIZE" and "verify_hybrid e d (hybrid_public kp) m sg = Inr ()"
proof -
  let ?dkp = "\<lparr>public_key = dilithium_public kp, secret_key = dilithium_secret kp\<rparr>"
  have good: "generated d ?dkp" using kp by (simp add: generated_def hybrid_generated_def)
  obtain dil_sig where sg: "sg = ed_sign e (ed25519_secret kp) m @ dil_sig"
    and dil: "keypair_sign d ?dkp m w = (Inr dil_sig, w')"
    using hybrid_sign_parts [OF kp sign] by blast
  have dil_len: "length dil_sig = 3309"
    using dsig.sign_length [OF law(1) good dil] by (simp add: DILITHIUM_SIGNATURE_def)
  have ed: "length (ed25519_secret kp) = 32" "ed25519_public kp = ed_verifying_key e (ed25519_secret kp)"
    using kp by (simp_all add: hybrid_generated_def)
  note ed_law = ed25519_lawD(2-5) [OF law(2) ed(1)]
  show "length sg = HYBRID_SIG_SIZE" using sg dil_len ed_law(3) by (simp add: hybrid_sizes)
  show "verify_hybrid e d (hybrid_public kp) m sg = Inr ()"
    using dsig.sign_check [OF law(1) good dil] sg dil_len ed ed_law
    unfolding verify_hybrid_ok by (simp add: hybrid_public_def)
qed

interpretation hsig: signature_scheme "dilithium3_law d \<and> ed25519_law e" "hybrid_generated e d"
  hybrid_public "hybrid_sign e d" "verify_hybrid e d" HYBRID_SIG_SIZE for e d
proof (unfold_locales, goal_cases)
  case (1 kp m w)
  let ?dkp = "\<lparr>public_key = dilithium_public kp, secret_key = dilithium_secret kp\<rparr>"
  have good: "generated d ?dkp" using 1(2) by (simp add: generated_def hybrid_generated_def)
  from 1(1) have law: "dilithium3_law d" ..
  from dsig.sign_total [OF law good, of m w]
  obtain sg w' where "keypair_sign d ?dkp m w = (Inr sg, w')" by auto
  moreover from 1(2) have "length (ed25519_secret kp) = 32" by (simp add: hybrid_generated_def)
  ultimately show ?case by (simp add: hybrid_sign_def try_into_array_def Let_def)
qed (auto dest: hybrid_sign_sound)

lemma wp_hybrid_generate [wp_rules]:
  "ed25519_law e \<Longrightarrow> (\<And>kp w'. hybrid_generated e d kp \<Longrightarrow> Q kp w') \<Longrightarrow>
     wp (io_lift (hybrid_generate e d)) Q w"
  by (rule wp_lift) (auto dest: hybrid_generated_generate)

lemma wp_hybrid_sign [wp_rules]:
  assumes "dilithium3_law d" and "ed25519_law e" and "hybrid_generated e d kp"
    and "\<And>sg w'. length sg = 3373 \<Longrightarrow> verify_hybrid e d (hybrid_public kp) m sg = Inr () \<Longrightarrow>
      hybrid_verify e d kp m sg = Inr () \<Longrightarrow> Q sg w'"
  shows "wp (io_unwrap (hybrid_sign e d kp m)) Q w"
proof (rule hsig.sign_then_check [OF conjI [OF assms(1,2)] assms(3), of m w])
  fix sg w'
  assume "hybrid_sign e d kp m w = (Inr sg, w')" and "length sg = HYBRID_SIG_SIZE"
    and "verify_hybrid e d (hybrid_public kp) m sg = Inr ()"
  then show ?thesis
    by (intro wp_unwrap assms(4)) (simp_all add: hybrid_sizes hybrid_verify_def)
qed

section \<open>Properties\<close>

text \<open>A hybrid signature is accepted exactly when it has 3373 bytes, its first 64 bytes are a
  valid Ed25519 signature of the message under the (32-byte) Ed25519 key, and the rest is a valid
  Dilithium3 signature of the same message: breaking one scheme does not help.\<close>

theorem hybrid_needs_both:
  "verify_hybrid e d hpk m sg = Inr () \<longleftrightarrow>
     length sg = 3373 \<and> length (hpk_ed25519 hpk) = 32 \<and>
     (\<exists>vk. ed_vk_from e (hpk_ed25519 hpk) = Some vk \<and> ed_verify e vk m (take 64 sg)) \<and>
     verify_detached d (hpk_dilithium hpk) m (drop 64 sg) = Inr ()"
  by (rule verify_hybrid_ok)

text \<open>Hybrid round trip: a generated hybrid key pair signs every message without error, the
  composite has the documented length, and both the pair and its extracted public key accept it.\<close>

theorem hybrid_round_trip:
  assumes "dilithium3_law d" and "ed25519_law e" and "hybrid_generate e d w0 = (kp, w1)"
  shows "\<exists>sg w'. hybrid_sign e d kp m w = (Inr sg, w') \<and> length sg = 64 + 3309 \<and>
    hybrid_verify e d kp m sg = Inr () \<and> verify_hybrid e d (hybrid_public kp) m sg = Inr ()"
proof -
  have "hybrid_generated e d kp" using assms(2,3) by (rule hybrid_generated_generate)
  from hsig.sign_then_check [OF conjI [OF assms(1,2)] this, of m w]
  show ?thesis unfolding hybrid_verify_def by (metis hybrid_sizes)
qed

end
