(* ===== verification/Kyber.thy ===== *)
theory Kyber
  imports Io
begin

text \<open>
  \<open>src/kyber.rs\<close>: the Kyber768 key pair, encapsulation and decapsulation over the
  \<open>pqcrypto\<close> crate. The locale \<open>key_encapsulation\<close> is the contract enrollment relies on: both
  ends of an exchange hold the same secret.
\<close>

section \<open>Definitions\<close>

datatype kyber_error =
  KyberInvalidPublicKey | KyberInvalidSecretKey | InvalidCiphertext | DecapsulationFailed

fun kyber_error_text :: "kyber_error \<Rightarrow> string" where
  "kyber_error_text KyberInvalidPublicKey = ''invalid public key''"
| "kyber_error_text KyberInvalidSecretKey = ''invalid secret key''"
| "kyber_error_text InvalidCiphertext = ''invalid ciphertext''"
| "kyber_error_text DecapsulationFailed = ''decapsulation failed''"

text \<open>\<open>KeySizes\<close>\<close>

definition KYBER_PUBLIC_KEY :: nat where "KYBER_PUBLIC_KEY = 1184"
definition KYBER_SECRET_KEY :: nat where "KYBER_SECRET_KEY = 2400"
definition KYBER_CIPHERTEXT :: nat where "KYBER_CIPHERTEXT = 1088"
definition KYBER_SHARED_SECRET :: nat where "KYBER_SHARED_SECRET = 32"

record kyber_keypair =
  kyber_public :: bytes
  kyber_secret :: bytes

record encapsulated =
  enc_ciphertext :: bytes
  enc_shared_secret :: bytes

definition kyber_generate :: "'w kyber768_crate \<Rightarrow> 'w \<Rightarrow> kyber_keypair \<times> 'w" where
  "kyber_generate k w =
     (case k768_keypair k w of ((pk, sk), w') \<Rightarrow> (\<lparr>kyber_public = pk, kyber_secret = sk\<rparr>, w'))"

definition decapsulate :: "'w kyber768_crate \<Rightarrow> kyber_keypair \<Rightarrow> bytes \<Rightarrow> kyber_error + bytes" where
  "decapsulate k kp ct_bytes =
     (case k768_sk_from k (kyber_secret kp) of
        None \<Rightarrow> Inl KyberInvalidSecretKey
      | Some sk \<Rightarrow>
        (case k768_ct_from k ct_bytes of
           None \<Rightarrow> Inl InvalidCiphertext
         | Some ct \<Rightarrow> Inr (k768_decapsulate k ct sk)))"

definition encapsulate :: "'w kyber768_crate \<Rightarrow> bytes \<Rightarrow> 'w \<Rightarrow> (kyber_error + encapsulated) \<times> 'w" where
  "encapsulate k pk_bytes w =
     (case k768_pk_from k pk_bytes of
        None \<Rightarrow> (Inl KyberInvalidPublicKey, w)
      | Some pk \<Rightarrow>
        (case k768_encapsulate k pk w of
           ((ss, ct), w') \<Rightarrow> (Inr \<lparr>enc_ciphertext = ct, enc_shared_secret = ss\<rparr>, w')))"

text \<open>A key pair that \<open>generate\<close> can return.\<close>

definition kyber_generated :: "'w kyber768_crate \<Rightarrow> kyber_keypair \<Rightarrow> bool" where
  "kyber_generated k kp \<longleftrightarrow> k768_pair k (kyber_public kp) (kyber_secret kp)"

section \<open>The contract of a key encapsulation\<close>

locale key_encapsulation =
  fixes law :: bool
    and good :: "'kp \<Rightarrow> bool"
    and pub :: "'kp \<Rightarrow> bytes"
    and encaps :: "bytes \<Rightarrow> 'w \<Rightarrow> ('e + encapsulated) \<times> 'w"
    and decaps :: "'kp \<Rightarrow> bytes \<Rightarrow> 'e + bytes"
    and ct_len :: nat
  assumes encaps_total: "law \<Longrightarrow> good kp \<Longrightarrow> \<exists>c w'. encaps (pub kp) w = (Inr c, w')"
    and encaps_decaps: "law \<Longrightarrow> good kp \<Longrightarrow> encaps (pub kp) w = (Inr c, w') \<Longrightarrow>
      length (enc_ciphertext c) = ct_len \<and> decaps kp (enc_ciphertext c) = Inr (enc_shared_secret c)"
begin

lemma exchange:
  assumes "law" and "good kp"
  obtains c w' where "encaps (pub kp) w = (Inr c, w')" and "length (enc_ciphertext c) = ct_len"
    and "decaps kp (enc_ciphertext c) = Inr (enc_shared_secret c)"
  using encaps_total [OF assms] encaps_decaps [OF assms] by metis

end

lemma kyber_generated_generate: "kyber_generate k w = (kp, w') \<Longrightarrow> kyber_generated k kp"
  by (auto simp: kyber_generate_def kyber_generated_def k768_pair_def split: prod.splits)
     (metis fst_conv)

interpretation kem: key_encapsulation "kyber768_law k" "kyber_generated k" kyber_public "encapsulate k"
  "decapsulate k" KYBER_CIPHERTEXT for k
proof (unfold_locales, goal_cases)
  case (1 kp w)
  then show ?case
    using kyber768_lawD(3) by (fastforce simp: encapsulate_def kyber_generated_def split: prod.splits)
next
  case (2 kp w c w')
  then have pair: "k768_pair k (kyber_public kp) (kyber_secret kp)" by (simp add: kyber_generated_def)
  with 2 obtain ss ct where enc: "k768_encapsulate k (kyber_public kp) w = ((ss, ct), w')"
    and c: "c = \<lparr>enc_ciphertext = ct, enc_shared_secret = ss\<rparr>"
    using kyber768_lawD(3) [OF 2(1) pair] by (auto simp: encapsulate_def split: prod.splits)
  show ?case
    using kyber768_lawD(4,5) [OF 2(1) pair] enc c
    by (simp add: decapsulate_def KYBER_CIPHERTEXT_def)
qed

lemma wp_kyber_generate [wp_rules]:
  "(\<And>kp w'. kyber_generated k kp \<Longrightarrow> Q kp w') \<Longrightarrow> wp (io_lift (kyber_generate k)) Q w"
  by (rule wp_lift) (auto dest: kyber_generated_generate)

lemma wp_encapsulate [wp_rules]:
  assumes "kyber768_law k" and "kyber_generated k kp"
    and "\<And>c w'. length (enc_ciphertext c) = 1088 \<Longrightarrow> length (enc_shared_secret c) = 32 \<Longrightarrow>
      decapsulate k kp (enc_ciphertext c) = Inr (enc_shared_secret c) \<Longrightarrow> Q c w'"
  shows "wp (io_unwrap (encapsulate k (kyber_public kp))) Q w"
proof (rule kem.exchange [OF assms(1,2), of w])
  fix c w'
  assume c: "encapsulate k (kyber_public kp) w = (Inr c, w')" "length (enc_ciphertext c) = KYBER_CIPHERTEXT"
    "decapsulate k kp (enc_ciphertext c) = Inr (enc_shared_secret c)"
  have pair: "k768_pair k (kyber_public kp) (kyber_secret kp)" using assms(2) by (simp add: kyber_generated_def)
  have "length (enc_shared_secret c) = 32"
    using c(1) kyber768_lawD(3,5) [OF assms(1) pair] by (auto simp: encapsulate_def split: prod.splits)
  with c show ?thesis by (intro wp_unwrap assms(3)) (simp_all add: KYBER_CIPHERTEXT_def)
qed

lemma kyber_generated_lengths:
  "kyber768_law k \<Longrightarrow> kyber_generated k kp \<Longrightarrow> length (kyber_public kp) = 1184"
  "kyber768_law k \<Longrightarrow> kyber_generated k kp \<Longrightarrow> length (kyber_secret kp) = 2400"
  unfolding kyber_generated_def by (auto dest: kyber768_lawD(1,2))

section \<open>Properties\<close>

text \<open>Key encapsulation round trip: for a generated key pair, encapsulation against its public
  key succeeds with a ciphertext of 1088 bytes, and decapsulating that ciphertext with the pair gives
  the very secret the encapsulator holds. Decapsulation fails only on keys or ciphertexts that the
  crate rejects; \<open>DecapsulationFailed\<close> never occurs.\<close>

theorem kyber_round_trip:
  assumes "kyber768_law k" and "kyber_generate k w0 = (kp, w1)"
  shows "(\<exists>c w'. encapsulate k (kyber_public kp) w = (Inr c, w') \<and>
      length (enc_ciphertext c) = 1088 \<and> decapsulate k kp (enc_ciphertext c) = Inr (enc_shared_secret c)) \<and>
    decapsulate k kp' ct \<noteq> Inl DecapsulationFailed"
proof (intro conjI)
  show "\<exists>c w'. encapsulate k (kyber_public kp) w = (Inr c, w') \<and>
      length (enc_ciphertext c) = 1088 \<and> decapsulate k kp (enc_ciphertext c) = Inr (enc_shared_secret c)"
    using kem.exchange [OF assms(1) kyber_generated_generate [OF assms(2)], of w]
    unfolding KYBER_CIPHERTEXT_def by metis
  show "decapsulate k kp' ct \<noteq> Inl DecapsulationFailed"
    by (simp add: decapsulate_def split: option.splits)
qed

end
