(* ===== verification/Challenge.thy ===== *)
theory Challenge
  imports Dilithium
begin

text \<open>
  \<open>src/challenge.rs\<close>: challenges, signed responses, and the verifier with its table of used
  nonces. The verifier is a state machine over calls of \<open>verify\<close> and \<open>clear_expired\<close>; its
  contract is that an accepted response is not accepted again while its challenge lives,
  although the table forgets entries. The locale \<open>nonce_store\<close> isolates what the table must
  guarantee for that.
\<close>

section \<open>Definitions\<close>

definition CHALLENGE_VALIDITY_SECS :: u64 where
  "CHALLENGE_VALIDITY_SECS = 300"

datatype challenge_error =
    Expired
  | Replay
  | SignatureFailed dilithium_error
  | TimestampOutOfRange

fun challenge_error_text :: "challenge_error \<Rightarrow> string" where
  "challenge_error_text Expired = ''challenge expired''"
| "challenge_error_text Replay = ''challenge already used (replay attack)''"
| "challenge_error_text (SignatureFailed e) = ''signature verification failed: '' @ dilithium_error_text e"
| "challenge_error_text TimestampOutOfRange = ''timestamp out of range''"

record challenge =
  nonce :: bytes
  issued_at :: u64

text \<open>\<open>Challenge::new\<close> fills a 32-byte array with random bytes.\<close>

definition challenge_new :: "'w rand_crate \<Rightarrow> u64 \<Rightarrow> 'w \<Rightarrow> challenge \<times> 'w" where
  "challenge_new r timestamp w =
     (case rand_fill r w of (fill, w') \<Rightarrow> (\<lparr>nonce = map fill [0..<32], issued_at = timestamp\<rparr>, w'))"

definition signing_payload :: "challenge \<Rightarrow> u64 \<Rightarrow> bytes" where
  "signing_payload c client_ts = nonce c @ u64_to_be client_ts"

definition is_expired :: "challenge \<Rightarrow> u64 \<Rightarrow> bool" where
  "is_expired c current = (saturating_sub current (issued_at c) > CHALLENGE_VALIDITY_SECS)"

record challenge_response =
  resp_nonce :: bytes
  client_timestamp :: u64
  signature :: bytes

definition respond_to_challenge ::
  "'w dilithium3_crate \<Rightarrow> keypair \<Rightarrow> challenge \<Rightarrow> u64 \<Rightarrow> 'w \<Rightarrow>
   (dilithium_error + challenge_response) \<times> 'w" where
  "respond_to_challenge d kp c client_ts w =
     (let payload = signing_payload c client_ts in
      case keypair_sign d kp payload w of
        (Inl e, w') \<Rightarrow> (Inl e, w')
      | (Inr sig, w') \<Rightarrow>
          (Inr \<lparr>resp_nonce = nonce c, client_timestamp = client_ts, signature = sig\<rparr>, w'))"

record challenge_verifier =
  used_nonces :: "bytes \<rightharpoonup> u64"
  max_clock_skew :: u64

definition verifier_new :: "u64 \<Rightarrow> challenge_verifier" where
  "verifier_new skew = \<lparr>used_nonces = Map.empty, max_clock_skew = skew\<rparr>"

definition horizon :: "challenge_verifier \<Rightarrow> u64 \<Rightarrow> u64" where
  "horizon v current =
     saturating_sub (saturating_sub current CHALLENGE_VALIDITY_SECS) (max_clock_skew v)"

definition clear_expired :: "challenge_verifier \<Rightarrow> u64 \<Rightarrow> challenge_verifier" where
  "clear_expired v current =
     v\<lparr>used_nonces := retain (\<lambda>issued. issued > horizon v current) (used_nonces v)\<rparr>"

definition mark_used :: "challenge_verifier \<Rightarrow> bytes \<Rightarrow> u64 \<Rightarrow> challenge_verifier" where
  "mark_used v n issued = v\<lparr>used_nonces := (used_nonces v)(n \<mapsto> issued)\<rparr>"

definition verifier_verify ::
  "'w dilithium3_crate \<Rightarrow> challenge_verifier \<Rightarrow> challenge \<Rightarrow> challenge_response \<Rightarrow> bytes \<Rightarrow> u64 \<Rightarrow>
   (challenge_error + unit) \<times> challenge_verifier" where
  "verifier_verify d v0 c response pk current =
     (let v = clear_expired v0 current in
      if is_expired c current then (Inl Expired, v)
      else if contains_key (used_nonces v) (resp_nonce response) then (Inl Replay, v)
      else
        let skew = abs_diff (client_timestamp response) current in
        if skew > max_clock_skew v then (Inl TimestampOutOfRange, v)
        else
          let payload = signing_payload c (client_timestamp response) in
          case verify_detached d pk payload (signature response) of
            Inl e \<Rightarrow> (Inl (SignatureFailed e), v)
          | Inr _ \<Rightarrow> (Inr (), mark_used v (resp_nonce response) (issued_at c)))"

text \<open>Runs of a verifier: the calls other code makes on it, in order.\<close>

datatype verifier_call =
    VerifyCall challenge challenge_response bytes (call_time: u64)
  | ClearCall (call_time: u64)

fun verifier_step :: "'w dilithium3_crate \<Rightarrow> verifier_call \<Rightarrow> challenge_verifier \<Rightarrow> challenge_verifier" where
  "verifier_step d (VerifyCall c r pk t) v = snd (verifier_verify d v c r pk t)"
| "verifier_step d (ClearCall t) v = clear_expired v t"

definition verifier_run :: "'w dilithium3_crate \<Rightarrow> verifier_call list \<Rightarrow> challenge_verifier \<Rightarrow> challenge_verifier" where
  "verifier_run d = fold (verifier_step d)"

text \<open>The decisions of a run, and those of a verifier that never forgets a nonce.\<close>

fun decisions ::
  "'w dilithium3_crate \<Rightarrow> verifier_call list \<Rightarrow> challenge_verifier \<Rightarrow> (challenge_error + unit) list" where
  "decisions d [] v = []"
| "decisions d (VerifyCall c r pk t # calls) v =
     fst (verifier_verify d v c r pk t) # decisions d calls (snd (verifier_verify d v c r pk t))"
| "decisions d (ClearCall t # calls) v = decisions d calls (clear_expired v t)"

fun full_decisions ::
  "'w dilithium3_crate \<Rightarrow> verifier_call list \<Rightarrow> bytes set \<Rightarrow> u64 \<Rightarrow> (challenge_error + unit) list" where
  "full_decisions d [] used skew = []"
| "full_decisions d (VerifyCall c r pk t # calls) used skew =
     (let result =
        (if is_expired c t then Inl Expired
         else if resp_nonce r \<in> used then Inl Replay
         else if abs_diff (client_timestamp r) t > skew then Inl TimestampOutOfRange
         else map_err SignatureFailed
                (verify_detached d pk (signing_payload c (client_timestamp r)) (signature r)))
      in result # full_decisions d calls (if is_ok result then insert (resp_nonce r) used else used) skew)"
| "full_decisions d (ClearCall t # calls) used skew = full_decisions d calls used skew"

section \<open>The table of used nonces\<close>

text \<open>
  The table's contract: recording and pruning act on look-ups as on a map, and pruning at a
  later time forgets more. From it: a recorded nonce is, at any later time, either still in
  the table or was recorded with an issue time behind the horizon.
\<close>

locale nonce_store =
  fixes lookup :: "'s \<Rightarrow> 'n \<Rightarrow> u64 option"
    and mark :: "'s \<Rightarrow> 'n \<Rightarrow> u64 \<Rightarrow> 's"
    and prune :: "'s \<Rightarrow> u64 \<Rightarrow> 's"
    and hor :: "'s \<Rightarrow> u64 \<Rightarrow> u64"
  assumes lookup_mark: "lookup (mark s n i) m = (if m = n then Some i else lookup s m)"
    and lookup_prune: "lookup (prune s t) n = Some i \<longleftrightarrow> lookup s n = Some i \<and> hor s t < i"
    and hor_mark: "hor (mark s n i) = hor s"
    and hor_prune: "hor (prune s t) = hor s"
    and hor_mono: "t \<le> t' \<Longrightarrow> hor s t \<le> hor s t'"
begin

lemma kept_by_prune:
  assumes "lookup s n = Some i \<or> i \<le> hor s t" and "t \<le> t'"
  shows "lookup (prune s t') n = Some i \<or> i \<le> hor (prune s t') t'"
  using assms hor_mono [of t t' s] by (auto simp: lookup_prune hor_prune)

lemma kept_by_mark:
  assumes "lookup s n = Some i \<or> i \<le> hor s t" and "lookup s m = None"
  shows "lookup (mark s m j) n = Some i \<or> i \<le> hor (mark s m j) t"
  using assms by (auto simp: lookup_mark hor_mark)

lemma kept_after_mark: "lookup (mark s n i) n = Some i \<or> i \<le> hor (mark s n i) t"
  by (simp add: lookup_mark)

lemma kept_mono: "lookup s n = Some i \<or> i \<le> hor s t \<Longrightarrow> t \<le> t' \<Longrightarrow> lookup s n = Some i \<or> i \<le> hor s t'"
  using hor_mono [of t t' s] by auto

lemma absent_is_stale: "lookup s n = Some i \<or> i \<le> hor s t \<Longrightarrow> lookup s n = None \<Longrightarrow> i \<le> hor s t"
  by auto

end

lemma unat_horizon: "unat (horizon v t) = unat t - 300 - unat (max_clock_skew v)"
  by (simp add: horizon_def unat_saturating_sub CHALLENGE_VALIDITY_SECS_def)

lemma horizon_mono: "t \<le> t' \<Longrightarrow> horizon v t \<le> horizon v t'"
  by (simp add: word_le_nat_alt unat_horizon)

lemma verifier_frames [simp]:
  "max_clock_skew (clear_expired v t) = max_clock_skew v"
  "max_clock_skew (mark_used v n i) = max_clock_skew v"
  "horizon (clear_expired v t) = horizon v"
  "horizon (mark_used v n i) = horizon v"
  by (simp_all add: clear_expired_def mark_used_def horizon_def fun_eq_iff)

interpretation ns: nonce_store used_nonces mark_used clear_expired horizon
  by unfold_locales (auto simp: mark_used_def clear_expired_def horizon_def horizon_mono [unfolded horizon_def])

section \<open>One call of verify\<close>

lemma is_expired_iff: "is_expired c t \<longleftrightarrow> 300 < unat t - unat (issued_at c)"
  by (simp add: is_expired_def word_less_nat_alt unat_saturating_sub CHALLENGE_VALIDITY_SECS_def)

lemma verifier_verify_accepts:
  "verifier_verify d v c r pk t = (Inr u, v') \<longleftrightarrow>
     \<not> is_expired c t \<and> used_nonces (clear_expired v t) (resp_nonce r) = None \<and>
     abs_diff (client_timestamp r) t \<le> max_clock_skew v \<and>
     verify_detached d pk (signing_payload c (client_timestamp r)) (signature r) = Inr () \<and>
     v' = mark_used (clear_expired v t) (resp_nonce r) (issued_at c)"
  by (auto simp: verifier_verify_def Let_def split: sum.splits)

lemma verifier_verify_rejects:
  "verifier_verify d v c r pk t = (Inl e, v') \<Longrightarrow> v' = clear_expired v t"
  by (auto simp: verifier_verify_def Let_def split: sum.splits if_splits)

lemma verifier_verify_skew: "max_clock_skew (snd (verifier_verify d v c r pk t)) = max_clock_skew v"
  by (auto simp: verifier_verify_def Let_def split: sum.splits)

lemma stale_is_expired:
  assumes "issued_at c \<le> horizon v t" and "0 < issued_at c" and "0 < max_clock_skew v"
  shows "is_expired c t"
  using assms by (simp add: is_expired_iff word_le_nat_alt word_less_nat_alt unat_horizon)

section \<open>Runs\<close>

lemma kept_by_step:
  assumes "used_nonces v n = Some i \<or> i \<le> horizon v t" and "t \<le> call_time call"
  shows "used_nonces (verifier_step d call v) n = Some i \<or>
    i \<le> horizon (verifier_step d call v) (call_time call)"
proof (cases call)
  case (ClearCall t')
  with assms show ?thesis using ns.kept_by_prune by simp
next
  case (VerifyCall c r pk t')
  with assms have pruned: "used_nonces (clear_expired v t') n = Some i \<or> i \<le> horizon (clear_expired v t') t'"
    by (intro ns.kept_by_prune) simp_all
  obtain res v' where res: "verifier_verify d v c r pk t' = (res, v')" by fastforce
  show ?thesis
  proof (cases res)
    case (Inl e)
    with res pruned VerifyCall show ?thesis by (auto dest: verifier_verify_rejects)
  next
    case (Inr u)
    with res have none: "used_nonces (clear_expired v t') (resp_nonce r) = None"
      and v': "v' = mark_used (clear_expired v t') (resp_nonce r) (issued_at c)"
      by (simp_all add: verifier_verify_accepts)
    show ?thesis
      using ns.kept_by_mark [OF pruned none, of "issued_at c"] res VerifyCall v' by simp
  qed
qed

lemma kept_by_run:
  assumes "used_nonces v n = Some i \<or> i \<le> horizon v t" and "sorted (t # map call_time calls @ [t'])"
  shows "used_nonces (verifier_run d calls v) n = Some i \<or> i \<le> horizon (verifier_run d calls v) t'"
  using assms
proof (induction calls arbitrary: v t)
  case Nil
  then show ?case by (auto simp: verifier_run_def intro: order_trans horizon_mono)
next
  case (Cons call calls)
  then have "used_nonces (verifier_step d call v) n = Some i \<or>
      i \<le> horizon (verifier_step d call v) (call_time call)"
    by (intro kept_by_step) auto
  moreover have "sorted (call_time call # map call_time calls @ [t'])" using Cons.prems(2) by simp
  ultimately show ?case using Cons.IH by (simp add: verifier_run_def)
qed

lemma verifier_run_skew: "max_clock_skew (verifier_run d calls v) = max_clock_skew v"
proof (induction calls arbitrary: v)
  case (Cons call calls)
  then show ?case
    by (cases call) (simp_all add: verifier_run_def verifier_verify_skew)
qed (simp add: verifier_run_def)

text \<open>Forgetting is invisible: the table and the set of all used nonces agree on what is alive.\<close>

definition table_agrees :: "(bytes \<Rightarrow> u64) \<Rightarrow> challenge_verifier \<Rightarrow> bytes set \<Rightarrow> u64 \<Rightarrow> bool" where
  "table_agrees born v used t \<longleftrightarrow>
     (\<forall>n. case used_nonces v n of
        Some i \<Rightarrow> n \<in> used \<and> i = born n
      | None \<Rightarrow> n \<in> used \<longrightarrow> born n \<le> horizon v t)"

definition labelled :: "(bytes \<Rightarrow> u64) \<Rightarrow> verifier_call \<Rightarrow> bool" where
  "labelled born call =
     (case call of VerifyCall c r pk t \<Rightarrow> issued_at c = born (resp_nonce r) | ClearCall t \<Rightarrow> True)"

lemma table_agrees_prune:
  assumes "table_agrees born v used t" and "t \<le> t'"
  shows "table_agrees born (clear_expired v t') used t'"
  unfolding table_agrees_def
proof
  fix n
  have "horizon v t \<le> horizon v t'" using assms(2) by (rule horizon_mono)
  then show "case used_nonces (clear_expired v t') n of
      Some i \<Rightarrow> n \<in> used \<and> i = born n | None \<Rightarrow> n \<in> used \<longrightarrow> born n \<le> horizon (clear_expired v t') t'"
    using assms(1) [unfolded table_agrees_def, rule_format, of n]
    by (auto simp: clear_expired_def retain_def horizon_def split: option.splits)
qed

lemma table_agrees_mark:
  "table_agrees born v used t \<Longrightarrow> table_agrees born (mark_used v n (born n)) (insert n used) t"
  by (auto simp: table_agrees_def mark_used_def horizon_def split: option.splits)

lemma verify_against_full:
  assumes agrees: "table_agrees born v used t" and "t \<le> t'"
    and born: "issued_at c = born (resp_nonce r)" "\<And>n. 0 < born n" and skew: "0 < max_clock_skew v"
    and res: "verifier_verify d v c r pk t' = (res, v')"
  shows "res = (if is_expired c t' then Inl Expired
         else if resp_nonce r \<in> used then Inl Replay
         else if abs_diff (client_timestamp r) t' > max_clock_skew v then Inl TimestampOutOfRange
         else map_err SignatureFailed
                (verify_detached d pk (signing_payload c (client_timestamp r)) (signature r)))"
    and "table_agrees born v' (if is_ok res then insert (resp_nonce r) used else used) t'"
proof -
  let ?n = "resp_nonce r" and ?v = "clear_expired v t'"
  have pruned: "table_agrees born ?v used t'"
    using agrees \<open>t \<le> t'\<close> by (rule table_agrees_prune)
  from this [unfolded table_agrees_def, THEN spec, of ?n]
  have entry: "case used_nonces ?v ?n of
      Some i \<Rightarrow> ?n \<in> used \<and> i = born ?n | None \<Rightarrow> ?n \<in> used \<longrightarrow> born ?n \<le> horizon v t'"
    by (simp split: option.splits)
  have dead: "is_expired c t'" if "born ?n \<le> horizon v t'"
    using that born skew by (intro stale_is_expired) simp_all
  have same: "is_expired c t' \<or> (used_nonces ?v ?n \<noteq> None \<longleftrightarrow> ?n \<in> used)"
    using entry dead by (auto split: option.splits)
  show "res = (if is_expired c t' then Inl Expired
         else if resp_nonce r \<in> used then Inl Replay
         else if abs_diff (client_timestamp r) t' > max_clock_skew v then Inl TimestampOutOfRange
         else map_err SignatureFailed
                (verify_detached d pk (signing_payload c (client_timestamp r)) (signature r)))"
    using res same by (auto simp: verifier_verify_def Let_def split: sum.splits if_splits)
  show "table_agrees born v' (if is_ok res then insert (resp_nonce r) used else used) t'"
  proof (cases res)
    case (Inl e)
    with res pruned show ?thesis by (auto dest: verifier_verify_rejects)
  next
    case (Inr u)
    with res pruned born(1) table_agrees_mark [of born ?v used t' ?n] show ?thesis
      by (auto simp: verifier_verify_accepts)
  qed
qed

lemma decisions_eq_full:
  assumes "table_agrees born v used t" and "sorted (t # map call_time calls)"
    and "list_all (labelled born) calls" and "\<And>n. 0 < born n" and "0 < max_clock_skew v"
  shows "decisions d calls v = full_decisions d calls used (max_clock_skew v)"
  using assms
proof (induction calls arbitrary: v used t)
  case (Cons call calls)
  show ?case
  proof (cases call)
    case (ClearCall t')
    with Cons.prems have "table_agrees born (clear_expired v t') used t'"
      by (intro table_agrees_prune) auto
    with Cons ClearCall show ?thesis by simp
  next
    case (VerifyCall c r pk t')
    obtain res v' where res: "verifier_verify d v c r pk t' = (res, v')" by fastforce
    have born: "issued_at c = born (resp_nonce r)" and le: "t \<le> t'"
      using Cons.prems(2,3) VerifyCall by (auto simp: labelled_def)
    note step = verify_against_full [OF Cons.prems(1) le born Cons.prems(4,5) res]
    have skew: "max_clock_skew v' = max_clock_skew v"
      using verifier_verify_skew [of d v c r pk t'] res by simp
    have "decisions d calls v' =
        full_decisions d calls (if is_ok res then insert (resp_nonce r) used else used) (max_clock_skew v')"
      using Cons.prems VerifyCall skew by (intro Cons.IH [OF step(2)]) auto
    then show ?thesis
      unfolding VerifyCall by (simp add: res step(1) [symmetric] skew Let_def)
  qed
qed simp

lemma clear_expired_new [simp]: "clear_expired (verifier_new skew) t = verifier_new skew"
  by (simp add: clear_expired_def verifier_new_def retain_def)

lemma verifier_new_sel [simp]:
  "used_nonces (verifier_new skew) n = None" "max_clock_skew (verifier_new skew) = skew"
  by (simp_all add: verifier_new_def)

lemma replay_is_caught:
  assumes first: "verifier_verify d v c r pk t = (Inr (), v1)"
    and times: "sorted (t # map call_time calls @ [t'])"
    and issue: "issued_at c' \<le> issued_at c" "0 < issued_at c" and skew: "0 < max_clock_skew v"
    and same: "resp_nonce r' = resp_nonce r"
  shows "fst (verifier_verify d (verifier_run d calls v1) c' r' pk' t') \<in> {Inl Expired, Inl Replay}"
proof -
  let ?v = "verifier_run d calls v1" and ?n = "resp_nonce r"
  have v1: "v1 = mark_used (clear_expired v t) ?n (issued_at c)"
    using first by (simp add: verifier_verify_accepts)
  have "used_nonces v1 ?n = Some (issued_at c) \<or> issued_at c \<le> horizon v1 t"
    unfolding v1 by (rule ns.kept_after_mark)
  then have kept: "used_nonces ?v ?n = Some (issued_at c) \<or> issued_at c \<le> horizon ?v t'"
    using times by (rule kept_by_run)
  have "max_clock_skew ?v = max_clock_skew v" using v1 by (simp add: verifier_run_skew)
  then have "is_expired c t'" if "issued_at c \<le> horizon ?v t'"
    using that issue(2) skew by (intro stale_is_expired [where v = ?v]) simp_all
  then have "is_expired c' t'" if "issued_at c \<le> horizon ?v t'"
    using that issue(1) by (fastforce simp: is_expired_iff word_le_nat_alt)
  with kept have "is_expired c' t' \<or> used_nonces (clear_expired ?v t') ?n = Some (issued_at c)"
    unfolding ns.lookup_prune by (metis not_less)
  with same show ?thesis
    by (auto simp: verifier_verify_def Let_def)
qed

lemma signing_payload_inject:
  assumes "length (nonce c) = length (nonce c')"
  shows "signing_payload c t = signing_payload c' t' \<longleftrightarrow> nonce c = nonce c' \<and> t = t'"
  using assms by (simp add: signing_payload_def u64_to_be_inject)

section \<open>Properties\<close>

text \<open>C3. Replay prevention under four conditions. Let a response to a challenge be accepted, and let further
  calls of the verifier follow at non-decreasing times. Then every later response with the same nonce is
  rejected, as expired or as a replay, for the same challenge and for every challenge that was not issued
  later than it, provided that the challenge was not issued at time 0 and that the verifier's clock skew is
  not 0. The conditions are needed: pruning forgets the nonce at these boundaries, as shown below, and a
  challenge issued later may use the nonce again once the table has forgotten it.\<close>

theorem replay_rejected:
  assumes "verifier_verify d v c r pk t = (Inr (), v1)"
    and "sorted (t # map call_time calls @ [t'])"
    and "issued_at c' \<le> issued_at c" and "0 < issued_at c" and "0 < max_clock_skew v"
    and "resp_nonce r' = resp_nonce r"
  shows "fst (verifier_verify d (verifier_run d calls v1) c' r' pk' t') \<in> {Inl Expired, Inl Replay}"
  using assms by (rule replay_is_caught)

theorem replay_rejected_witness:
  defines "c \<equiv> \<lparr>nonce = replicate 32 1, issued_at = 1000\<rparr>"
  defines "r \<equiv> \<lparr>resp_nonce = replicate 32 1, client_timestamp = 1003,
    signature = toy_sig 5 (signing_payload c 1003)\<rparr>"
  defines "v1 \<equiv> mark_used (verifier_new 60) (replicate 32 1) 1000"
  shows "fst (verifier_verify toy_dil (verifier_run toy_dil [ClearCall 1100] v1) c r (replicate 1952 5) 1200)
    \<in> {Inl Expired, Inl Replay}"
proof (rule replay_rejected)
  show "verifier_verify toy_dil (verifier_new 60) c r (replicate 1952 5) 1005 = (Inr (), v1)"
    unfolding verifier_verify_accepts
    by (simp add: c_def r_def v1_def is_expired_iff abs_diff_def)
qed (simp_all add: c_def)

text \<open>C10. Forgetting is invisible to well-behaved runs. Take a run of a new verifier at non-decreasing times,
  with a clock skew other than 0, in which every nonce has one issue time \<open>born n\<close> other than 0: each call
  answers, with the nonce \<open>n\<close> in its response, a challenge issued at \<open>born n\<close>. Then the verifier with its
  pruned table takes exactly the decisions of a verifier that remembers every nonce ever accepted. A run in
  which one nonce stands for challenges of different issue times, as when a response is relabelled, is
  not covered.\<close>

theorem pruning_is_invisible:
  assumes "sorted (map call_time calls)" and "list_all (labelled born) calls"
    and "\<And>n. 0 < born n" and "0 < skew"
  shows "decisions d calls (verifier_new skew) = full_decisions d calls {} skew"
proof -
  have "table_agrees born (verifier_new skew) {} 0" by (simp add: table_agrees_def)
  then have "decisions d calls (verifier_new skew) =
      full_decisions d calls {} (max_clock_skew (verifier_new skew))"
    by (rule decisions_eq_full) (use assms in simp_all)
  then show ?thesis by simp
qed

theorem pruning_is_invisible_witness:
  defines "c \<equiv> \<lparr>nonce = replicate 32 1, issued_at = 1000\<rparr>"
  defines "r \<equiv> \<lparr>resp_nonce = replicate 32 1, client_timestamp = 1003,
    signature = toy_sig 5 (signing_payload c 1003)\<rparr>"
  defines "calls \<equiv> [VerifyCall c r (replicate 1952 5) 1005, ClearCall 1100, VerifyCall c r (replicate 1952 5) 1200]"
  shows "decisions toy_dil calls (verifier_new 60) = full_decisions toy_dil calls {} 60"
  by (rule pruning_is_invisible [where born = "\<lambda>n. 1000"])
    (simp_all add: calls_def c_def labelled_def)

text \<open>The entries of the table whose issue time is less than 300 seconds and the skew behind the time \<open>t\<close>.\<close>

definition live_entries :: "challenge_verifier \<Rightarrow> u64 \<Rightarrow> (bytes \<rightharpoonup> u64)" where
  "live_entries v t n = (case used_nonces v n of
     None \<Rightarrow> None
   | Some i \<Rightarrow> if unat t - 300 - unat (max_clock_skew v) < unat i then Some i else None)"

lemma clear_expired_table:
  "clear_expired v t = \<lparr>used_nonces = live_entries v t, max_clock_skew = max_clock_skew v\<rparr>"
  by (rule challenge_verifier.equality)
    (simp_all add: clear_expired_def retain_def live_entries_def fun_eq_iff word_less_nat_alt unat_horizon
      split: option.splits)

lemma mark_used_table:
  "mark_used \<lparr>used_nonces = m, max_clock_skew = skew\<rparr> n i = \<lparr>used_nonces = m(n \<mapsto> i), max_clock_skew = skew\<rparr>"
  by (simp add: mark_used_def)

lemma verifier_verify_refuses:
  "verifier_verify d v c r pk t = (Inl e, v') \<Longrightarrow>
     e = Expired \<and> is_expired c t \<or> e = Replay \<and> resp_nonce r \<in> dom (used_nonces (clear_expired v t)) \<or>
     e = TimestampOutOfRange \<and> max_clock_skew v < abs_diff (client_timestamp r) t \<or>
     (\<exists>e'. e = SignatureFailed e' \<and> verify_detached d pk (signing_payload c (client_timestamp r)) (signature r) = Inl e')"
  by (auto simp: verifier_verify_def Let_def contains_key_def split: sum.splits if_splits)

text \<open>C17. What one call of \<open>verify\<close> does to the table and when. It accepts exactly when the challenge is at
  most 300 seconds old, the response's nonce has no live entry, the client's clock is within the allowed
  skew, and the signature over the challenge's nonce and the client's time verifies; the table then holds
  the live entries and, under the response's nonce, the issue time of the challenge. A rejection names a
  condition that failed and leaves the live entries alone.\<close>

theorem verify_accepts_iff:
  "(verifier_verify d v c r pk t = (Inr (), v') \<longleftrightarrow>
     unat t - unat (issued_at c) \<le> 300 \<and> resp_nonce r \<notin> dom (live_entries v t) \<and>
     abs_diff (client_timestamp r) t \<le> max_clock_skew v \<and>
     verify_detached d pk (nonce c @ u64_to_be (client_timestamp r)) (signature r) = Inr () \<and>
     v' = \<lparr>used_nonces = (live_entries v t)(resp_nonce r \<mapsto> issued_at c), max_clock_skew = max_clock_skew v\<rparr>) \<and>
   (verifier_verify d v c r pk t = (Inl e, v'') \<longrightarrow>
     v'' = \<lparr>used_nonces = live_entries v t, max_clock_skew = max_clock_skew v\<rparr> \<and>
     (e = Expired \<and> 300 < unat t - unat (issued_at c) \<or> e = Replay \<and> resp_nonce r \<in> dom (live_entries v t) \<or>
      e = TimestampOutOfRange \<and> max_clock_skew v < abs_diff (client_timestamp r) t \<or>
      (\<exists>e'. e = SignatureFailed e' \<and>
         verify_detached d pk (nonce c @ u64_to_be (client_timestamp r)) (signature r) = Inl e')))"
proof (intro conjI impI)
  show "verifier_verify d v c r pk t = (Inr (), v') \<longleftrightarrow>
     unat t - unat (issued_at c) \<le> 300 \<and> resp_nonce r \<notin> dom (live_entries v t) \<and>
     abs_diff (client_timestamp r) t \<le> max_clock_skew v \<and>
     verify_detached d pk (nonce c @ u64_to_be (client_timestamp r)) (signature r) = Inr () \<and>
     v' = \<lparr>used_nonces = (live_entries v t)(resp_nonce r \<mapsto> issued_at c), max_clock_skew = max_clock_skew v\<rparr>"
    by (auto simp: verifier_verify_accepts clear_expired_table mark_used_table is_expired_iff signing_payload_def)
  assume refused: "verifier_verify d v c r pk t = (Inl e, v'')"
  show "v'' = \<lparr>used_nonces = live_entries v t, max_clock_skew = max_clock_skew v\<rparr>"
    using verifier_verify_rejects [OF refused] by (simp add: clear_expired_table)
  show "e = Expired \<and> 300 < unat t - unat (issued_at c) \<or> e = Replay \<and> resp_nonce r \<in> dom (live_entries v t) \<or>
      e = TimestampOutOfRange \<and> max_clock_skew v < abs_diff (client_timestamp r) t \<or>
      (\<exists>e'. e = SignatureFailed e' \<and>
         verify_detached d pk (nonce c @ u64_to_be (client_timestamp r)) (signature r) = Inl e')"
    using verifier_verify_refuses [OF refused] by (simp add: clear_expired_table is_expired_iff signing_payload_def)
qed

theorem verify_accepts_iff_witness:
  defines "c \<equiv> \<lparr>nonce = replicate 32 1, issued_at = 1000\<rparr>"
  defines "r \<equiv> \<lparr>resp_nonce = replicate 32 1, client_timestamp = 1003,
    signature = toy_sig 5 (replicate 32 1 @ u64_to_be 1003)\<rparr>"
  defines "after \<equiv> \<lparr>used_nonces = [replicate 32 1 \<mapsto> 1000], max_clock_skew = 60\<rparr>"
  shows "verifier_verify toy_dil (verifier_new 60) c r (replicate 1952 5) 1005 = (Inr (), after) \<and>
    snd (verifier_verify toy_dil after c r (replicate 1952 5) 1005) = after"
proof
  have none: "live_entries (verifier_new 60) 1005 = Map.empty" by (simp add: live_entries_def fun_eq_iff)
  have one: "live_entries after 1005 = used_nonces after"
    by (simp add: live_entries_def after_def fun_eq_iff)
  show "verifier_verify toy_dil (verifier_new 60) c r (replicate 1952 5) 1005 = (Inr (), after)"
    using verify_accepts_iff [THEN conjunct1, of toy_dil "verifier_new 60" c r "replicate 1952 5" 1005]
    by (simp add: c_def r_def after_def abs_diff_def none)
  obtain res v' where again: "verifier_verify toy_dil after c r (replicate 1952 5) 1005 = (res, v')" by fastforce
  have "res \<noteq> Inr ()"
    using verify_accepts_iff [THEN conjunct1, of toy_dil after c r "replicate 1952 5" 1005 v'] again one
    by (auto simp: r_def after_def)
  then obtain e where "res = Inl e" by (cases res) auto
  with again show "snd (verifier_verify toy_dil after c r (replicate 1952 5) 1005) = after"
    using verify_accepts_iff [THEN conjunct2, of toy_dil after c r "replicate 1952 5" 1005 e v'] one
    by (simp add: after_def)
qed

text \<open>An honest client succeeds: a generated key pair signs the challenge without error, and the
  verifier accepts the response while the challenge is valid, the clocks agree within the skew and the
  nonce is fresh.\<close>

theorem honest_response_accepted:
  assumes "dilithium3_law d" and "keypair_generate d w0 = (kp, w1)"
    and "unat t - unat (issued_at c) \<le> 300" and "abs_diff ct t \<le> max_clock_skew v"
    and "used_nonces v (nonce c) = None"
  shows "\<exists>r w'. respond_to_challenge d kp c ct w = (Inr r, w') \<and>
    verifier_verify d v c r (public_key kp) t = (Inr (), mark_used (clear_expired v t) (nonce c) (issued_at c))"
proof -
  from dsig.sign_then_check [OF assms(1) generated_keypair_generate [OF assms(2)], of "signing_payload c ct" w]
  obtain sg w' where "keypair_sign d kp (signing_payload c ct) w = (Inr sg, w')"
    and "verify_detached d (public_key kp) (signing_payload c ct) sg = Inr ()" by metis
  then show ?thesis
    using assms(3-5)
    by (auto simp: respond_to_challenge_def verifier_verify_accepts is_expired_iff clear_expired_def retain_None)
qed

text \<open>What a signature binds: for nonces of one length, two signed payloads are equal only when
  both the nonce and the client's time are.\<close>

theorem signing_payload_binds:
  assumes "length (nonce c) = length (nonce c')"
  shows "signing_payload c t = signing_payload c' t' \<longleftrightarrow> nonce c = nonce c' \<and> t = t'"
  using assms by (rule signing_payload_inject)

text \<open>C29. The verifier does not compare the response's nonce with the challenge's: the signature
  covers the challenge's nonce, the replay table is keyed by the response's. A captured response that
  was accepted is accepted again, for the same challenge at the same time, under any other nonce that
  is not in the table. Only a caller that discards the challenge after one use prevents this.\<close>

theorem relabelled_response_accepted:
  assumes "verifier_verify d v c r pk t = (Inr (), v1)" and "used_nonces v1 n = None"
  shows "fst (verifier_verify d v1 c (r\<lparr>resp_nonce := n\<rparr>) pk t) = Inr ()"
proof -
  have "used_nonces (clear_expired v1 t) n = None"
    using assms(2) by (simp add: clear_expired_def retain_None)
  moreover have "max_clock_skew v1 = max_clock_skew v" using assms(1) by (simp add: verifier_verify_accepts)
  ultimately have "verifier_verify d v1 c (r\<lparr>resp_nonce := n\<rparr>) pk t =
      (Inr (), mark_used (clear_expired v1 t) n (issued_at c))"
    using assms(1) by (simp add: verifier_verify_accepts)
  then show ?thesis by simp
qed

theorem relabelled_response_accepted_witness:
  defines "c \<equiv> \<lparr>nonce = replicate 32 1, issued_at = 1000\<rparr>"
  defines "r \<equiv> \<lparr>resp_nonce = replicate 32 1, client_timestamp = 1003,
    signature = toy_sig 5 (signing_payload c 1003)\<rparr>"
  defines "v1 \<equiv> mark_used (verifier_new 60) (replicate 32 1) 1000"
  shows "fst (verifier_verify toy_dil v1 c (r\<lparr>resp_nonce := replicate 32 2\<rparr>) (replicate 1952 5) 1005) = Inr ()"
proof (rule relabelled_response_accepted)
  show "verifier_verify toy_dil (verifier_new 60) c r (replicate 1952 5) 1005 = (Inr (), v1)"
    unfolding verifier_verify_accepts
    by (simp add: c_def r_def v1_def is_expired_iff abs_diff_def)
qed (simp add: v1_def mark_used_def)

text \<open>C30. The two margins of the replay guarantee are needed. A challenge issued at time 0, or any
  challenge at its last valid second under a verifier with clock skew 0, can be used twice: the entry
  of its nonce is pruned (the table keeps issue times strictly above the horizon) while the challenge is
  still valid.\<close>

theorem boundary_replay:
  assumes "verifier_verify d v c r pk t = (Inr (), v1)"
    and "issued_at c = 0 \<or> max_clock_skew v = 0 \<and> unat t = unat (issued_at c) + 300"
  shows "fst (verifier_verify d v1 c r pk t) = Inr ()"
proof -
  have v1: "v1 = mark_used (clear_expired v t) (resp_nonce r) (issued_at c)"
    using assms(1) by (simp add: verifier_verify_accepts)
  have "issued_at c \<le> horizon v t"
    using assms(2) by (auto simp: word_le_nat_alt unat_horizon)
  then have "used_nonces (clear_expired v1 t) (resp_nonce r) = None"
    using v1 by (simp add: clear_expired_def mark_used_def retain_None horizon_def)
  with assms(1) v1 have "verifier_verify d v1 c r pk t =
      (Inr (), mark_used (clear_expired v1 t) (resp_nonce r) (issued_at c))"
    by (simp add: verifier_verify_accepts)
  then show ?thesis by simp
qed

theorem boundary_replay_witness:
  defines "c \<equiv> \<lparr>nonce = replicate 32 1, issued_at = 1000\<rparr>"
  defines "r \<equiv> \<lparr>resp_nonce = replicate 32 1, client_timestamp = 1300,
    signature = toy_sig 5 (signing_payload c 1300)\<rparr>"
  defines "v1 \<equiv> mark_used (verifier_new 0) (replicate 32 1) 1000"
  shows "fst (verifier_verify toy_dil v1 c r (replicate 1952 5) 1300) = Inr ()"
proof (rule boundary_replay)
  show "verifier_verify toy_dil (verifier_new 0) c r (replicate 1952 5) 1300 = (Inr (), v1)"
    unfolding verifier_verify_accepts
    by (simp add: c_def r_def v1_def is_expired_iff)
qed (simp add: c_def)

end
