(* ===== verification/Enrollment.thy ===== *)
theory Enrollment
  imports Kyber Dilithium PqTotp
begin

text \<open>
  \<open>src/enrollment.rs\<close>: the Kyber exchange that gives client and server a common TOTP seed.
  The lemmas show that both ends derive the same seed, which responses the server accepts and
  with which error it refuses the others, and that the seed separates servers.
\<close>

section \<open>Definitions\<close>

definition TOTP_SEED_DOMAIN :: bytes where
  "TOTP_SEED_DOMAIN = as_bytes ''pqauth-totp-seed-v1''"

definition TOTP_SEED_LEN :: nat where
  "TOTP_SEED_LEN = 32"

datatype enrollment_error =
    KyberErr kyber_error
  | InvalidServerIdentity
  | InvalidCiphertextLength nat nat
  | InvalidPublicKeyLength nat nat

fun enrollment_error_text :: "enrollment_error \<Rightarrow> string" where
  "enrollment_error_text (KyberErr e) = ''Kyber error: '' @ kyber_error_text e"
| "enrollment_error_text InvalidServerIdentity = ''invalid server identity''"
| "enrollment_error_text (InvalidCiphertextLength expected got) =
     ''invalid ciphertext length (expected '' @ dec_text expected @ '', got '' @ dec_text got @ '')''"
| "enrollment_error_text (InvalidPublicKeyLength expected got) =
     ''invalid Dilithium public key length (expected '' @ dec_text expected @ '', got '' @ dec_text got @ '')''"

record server_enrollment =
  se_kyber_public :: bytes
  se_kyber_secret :: bytes
  se_server_id :: string

record enrollment_challenge =
  ec_kyber_public :: bytes
  ec_server_id :: string

record enrollment_response =
  er_ciphertext :: bytes
  er_dilithium_public :: bytes

record enrollment_record =
  rec_dilithium_public :: bytes
  rec_totp_seed :: bytes
  rec_server_id :: string

record client_enrollment =
  ce_totp_seed :: bytes
  ce_server_id :: string

definition derive_totp_seed :: "'h sha3_crate \<Rightarrow> bytes \<Rightarrow> string \<Rightarrow> bytes" where
  "derive_totp_seed s secret server =
     (let input = [];
          input = input @ TOTP_SEED_DOMAIN;
          input = input @ secret;
          input = input @ as_bytes server
      in shake256 s input TOTP_SEED_LEN)"

definition server_enrollment_new :: "'w kyber768_crate \<Rightarrow> string \<Rightarrow> 'w \<Rightarrow> server_enrollment \<times> 'w" where
  "server_enrollment_new k server w =
     (case kyber_generate k w of (kp, w') \<Rightarrow>
        (\<lparr>se_kyber_public = kyber_public kp, se_kyber_secret = kyber_secret kp, se_server_id = server\<rparr>, w'))"

definition enrollment_challenge_of :: "server_enrollment \<Rightarrow> enrollment_challenge" where
  "enrollment_challenge_of se =
     \<lparr>ec_kyber_public = se_kyber_public se, ec_server_id = se_server_id se\<rparr>"

definition complete ::
  "'h sha3_crate \<Rightarrow> 'w kyber768_crate \<Rightarrow> server_enrollment \<Rightarrow> enrollment_response \<Rightarrow>
   enrollment_error + enrollment_record" where
  "complete s k se response =
     (if length (er_ciphertext response) \<noteq> KYBER_CIPHERTEXT
      then Inl (InvalidCiphertextLength KYBER_CIPHERTEXT (length (er_ciphertext response)))
      else if length (er_dilithium_public response) \<noteq> DILITHIUM_PUBLIC_KEY
      then Inl (InvalidPublicKeyLength DILITHIUM_PUBLIC_KEY (length (er_dilithium_public response)))
      else
        let kp = \<lparr>kyber_public = se_kyber_public se, kyber_secret = se_kyber_secret se\<rparr> in
        case decapsulate k kp (er_ciphertext response) of
          Inl e \<Rightarrow> Inl (KyberErr e)
        | Inr secret \<Rightarrow>
            let seed = derive_totp_seed s secret (se_server_id se) in
            Inr \<lparr>rec_dilithium_public = er_dilithium_public response,
                 rec_totp_seed = seed, rec_server_id = se_server_id se\<rparr>)"

definition client_enroll ::
  "'h sha3_crate \<Rightarrow> 'w kyber768_crate \<Rightarrow> enrollment_challenge \<Rightarrow> bytes \<Rightarrow> 'w \<Rightarrow>
   (enrollment_error + enrollment_response \<times> client_enrollment) \<times> 'w" where
  "client_enroll s k ec dilithium_pk w =
     (if ec_server_id ec = [] then (Inl InvalidServerIdentity, w)
      else case encapsulate k (ec_kyber_public ec) w of
        (Inl e, w') \<Rightarrow> (Inl (KyberErr e), w')
      | (Inr enc, w') \<Rightarrow>
          let seed = derive_totp_seed s (enc_shared_secret enc) (ec_server_id ec);
              response = \<lparr>er_ciphertext = enc_ciphertext enc, er_dilithium_public = dilithium_pk\<rparr>;
              client_data = \<lparr>ce_totp_seed = seed, ce_server_id = ec_server_id ec\<rparr>
          in (Inr (response, client_data), w'))"

section \<open>Lemmas\<close>

lemmas enrollment_sizes = KYBER_CIPHERTEXT_def DILITHIUM_PUBLIC_KEY_def TOTP_SEED_LEN_def

lemma derive_totp_seed_eq:
  "derive_totp_seed s ss sid = shake256 s (TOTP_SEED_DOMAIN @ ss @ as_bytes sid) 32"
  by (simp add: derive_totp_seed_def TOTP_SEED_LEN_def)

lemma length_derive_totp_seed [simp, lens]: "length (derive_totp_seed s ss sid) = 32"
  by (simp add: derive_totp_seed_eq)

lemma complete_ok:
  "complete s k se resp = Inr rc \<longleftrightarrow>
     length (er_ciphertext resp) = 1088 \<and> length (er_dilithium_public resp) = 1952 \<and>
     (\<exists>ss. decapsulate k \<lparr>kyber_public = se_kyber_public se, kyber_secret = se_kyber_secret se\<rparr>
        (er_ciphertext resp) = Inr ss \<and>
      rc = \<lparr>rec_dilithium_public = er_dilithium_public resp,
           rec_totp_seed = derive_totp_seed s ss (se_server_id se), rec_server_id = se_server_id se\<rparr>)"
  by (auto simp: complete_def enrollment_sizes Let_def split: sum.splits)

lemma complete_well_formed:
  "complete s k se resp = Inr rc \<Longrightarrow>
     length (rec_dilithium_public rc) = 1952 \<and> length (rec_totp_seed rc) = 32 \<and>
     rec_server_id rc = se_server_id se"
  by (auto simp: complete_ok)

lemma enrollment_exchange:
  assumes law: "kyber768_law k" and new: "server_enrollment_new k sid w0 = (se, w1)"
    and sid: "sid \<noteq> []" and pk: "length pk = 1952"
  obtains resp cd w2 rc where "client_enroll s k (enrollment_challenge_of se) pk w = (Inr (resp, cd), w2)"
    and "complete s k se resp = Inr rc" and "rec_totp_seed rc = ce_totp_seed cd"
    and "rec_dilithium_public rc = pk" and "rec_server_id rc = sid" and "ce_server_id cd = sid"
proof -
  obtain kp where gen: "kyber_generate k w0 = (kp, w1)"
    and se: "se = \<lparr>se_kyber_public = kyber_public kp, se_kyber_secret = kyber_secret kp, se_server_id = sid\<rparr>"
    using new by (auto simp: server_enrollment_new_def split: prod.splits)
  from kem.exchange [OF law kyber_generated_generate [OF gen], of w]
  obtain c w2 where enc: "encapsulate k (kyber_public kp) w = (Inr c, w2)"
    and len: "length (enc_ciphertext c) = 1088"
    and dec: "decapsulate k kp (enc_ciphertext c) = Inr (enc_shared_secret c)"
    unfolding KYBER_CIPHERTEXT_def by metis
  have "\<lparr>kyber_public = kyber_public kp, kyber_secret = kyber_secret kp\<rparr> = kp" by simp
  with dec have dec: "decapsulate k \<lparr>kyber_public = kyber_public kp, kyber_secret = kyber_secret kp\<rparr>
      (enc_ciphertext c) = Inr (enc_shared_secret c)" by (simp only:)
  show thesis
    by (rule that [of "\<lparr>er_ciphertext = enc_ciphertext c, er_dilithium_public = pk\<rparr>"
          "\<lparr>ce_totp_seed = derive_totp_seed s (enc_shared_secret c) sid, ce_server_id = sid\<rparr>" w2
          "\<lparr>rec_dilithium_public = pk, rec_totp_seed = derive_totp_seed s (enc_shared_secret c) sid,
            rec_server_id = sid\<rparr>"])
      (use se enc len dec sid pk in \<open>simp_all add: client_enroll_def enrollment_challenge_of_def complete_ok\<close>)
qed

section \<open>Properties\<close>

text \<open>Enrollment agreement. For a server with a non-empty identity and a client key of the right
  size the whole exchange succeeds, and both ends hold the same 32-byte TOTP seed, the server under the
  client's Dilithium key; so a code the client generates is accepted by the server at every time within
  30 seconds per window step.\<close>

theorem enrollment_agrees:
  assumes "kyber768_law k" and "server_enrollment_new k sid w0 = (se, w1)"
    and "sid \<noteq> []" and "length pk = 1952"
    and "unat (abs_diff t1 t2) \<le> 30 * unat window" and "unat window < 2 ^ 63"
  shows "\<exists>resp cd w2 rc code.
    client_enroll s k (enrollment_challenge_of se) pk w = (Inr (resp, cd), w2) \<and>
    complete s k se resp = Inr rc \<and>
    rec_totp_seed rc = ce_totp_seed cd \<and> length (ce_totp_seed cd) = 32 \<and>
    rec_dilithium_public rc = pk \<and> rec_server_id rc = sid \<and> ce_server_id cd = sid \<and>
    generate s (ce_totp_seed cd) t1 = Some code \<and>
    verify pf s (rec_totp_seed rc) code t2 window = Some True"
proof -
  obtain resp cd w2 rc where x: "client_enroll s k (enrollment_challenge_of se) pk w = (Inr (resp, cd), w2)"
    "complete s k se resp = Inr rc" "rec_totp_seed rc = ce_totp_seed cd"
    "rec_dilithium_public rc = pk" "rec_server_id rc = sid" "ce_server_id cd = sid"
    using enrollment_exchange [OF assms(1-4)] by metis
  moreover have "length (ce_totp_seed cd) = 32" using complete_well_formed [OF x(2)] x(3) by simp
  moreover obtain code where code: "generate s (ce_totp_seed cd) t1 = Some code"
    by (simp add: totp.gen_eq)
  moreover have "verify pf s (rec_totp_seed rc) code t2 window = Some True"
    unfolding x(3) using code assms(5) small_window_fits [OF assms(6)] by (rule totp.drift_accepted)
  ultimately show ?thesis by blast
qed

text \<open>What the server accepts as a completion, and the error otherwise: the ciphertext's length is
  checked first, then the key's length, and only then is anything decapsulated; an accepted response
  yields a record with a 1952-byte key, a 32-byte seed and the session's own server identity.\<close>

theorem complete_outcome:
  "case complete s k se resp of
     Inr rc \<Rightarrow> length (er_ciphertext resp) = 1088 \<and> length (rec_dilithium_public rc) = 1952 \<and>
       rec_dilithium_public rc = er_dilithium_public resp \<and>
       length (rec_totp_seed rc) = 32 \<and> rec_server_id rc = se_server_id se
   | Inl (InvalidCiphertextLength e g) \<Rightarrow> e = 1088 \<and> g = length (er_ciphertext resp) \<and> g \<noteq> e
   | Inl (InvalidPublicKeyLength e g) \<Rightarrow> length (er_ciphertext resp) = 1088 \<and> e = 1952 \<and>
       g = length (er_dilithium_public resp) \<and> g \<noteq> e
   | Inl (KyberErr e) \<Rightarrow> length (er_ciphertext resp) = 1088 \<and> length (er_dilithium_public resp) = 1952 \<and>
       decapsulate k \<lparr>kyber_public = se_kyber_public se, kyber_secret = se_kyber_secret se\<rparr>
         (er_ciphertext resp) = Inl e
   | Inl InvalidServerIdentity \<Rightarrow> False"
  by (auto simp: complete_def enrollment_sizes Let_def split: sum.splits)

text \<open>The seed separates servers and secrets: two enrollments with secrets of one length that
  differ in the secret or the server identity hash different inputs, so equal seeds are a collision of
  SHAKE-256.\<close>

theorem seed_separates:
  assumes "length ss = length ss'" and "(ss, sid) \<noteq> (ss', sid')"
  shows "TOTP_SEED_DOMAIN @ ss @ as_bytes sid \<noteq> TOTP_SEED_DOMAIN @ ss' @ as_bytes sid'"
    and "derive_totp_seed s ss sid = shake256 s (TOTP_SEED_DOMAIN @ ss @ as_bytes sid) TOTP_SEED_LEN"
  using assms by (auto simp: as_bytes_inject derive_totp_seed_eq TOTP_SEED_LEN_def)

end
