(* ===== verification/Recovery.thy ===== *)
theory Recovery
  imports ShakeMac "HOL-Library.Multiset"
begin

text \<open>
  \<open>src/recovery.rs\<close>: recovery codes, their normalised hashes and the set of codes of which each
  can be used once. The abstract state of a set is the multiset of its unused hashes;
  \<open>use_code\<close> takes one occurrence out of it.
\<close>

section \<open>Definitions\<close>

definition ALPHABET :: string where
  "ALPHABET = ''2346789ABCDEFGHJKMNPQRTUVWXYZ''"

definition DEFAULT_CODE_COUNT :: nat where "DEFAULT_CODE_COUNT = 10"
definition GROUPS :: nat where "GROUPS = 8"
definition GROUP_LEN :: nat where "GROUP_LEN = 4"

record recovery_code =
  code :: string

record hashed_recovery_code =
  hash :: string
  used :: bool

text \<open>The two nested loops of \<open>generate_code\<close>; each character is one draw of the generator.\<close>

fun generate_group :: "'w rand_crate \<Rightarrow> nat \<Rightarrow> 'w \<Rightarrow> string option \<times> 'w" where
  "generate_group r 0 w = (Some [], w)"
| "generate_group r (Suc n) w =
     (case rand_range r 0 (length ALPHABET) w of (idx, w1) \<Rightarrow>
      case index ALPHABET idx of
        None \<Rightarrow> (None, w1)
      | Some c \<Rightarrow>
        (case generate_group r n w1 of (rest, w2) \<Rightarrow> (map_option (Cons c) rest, w2)))"

fun generate_groups :: "'w rand_crate \<Rightarrow> nat \<Rightarrow> 'w \<Rightarrow> string list option \<times> 'w" where
  "generate_groups r 0 w = (Some [], w)"
| "generate_groups r (Suc n) w =
     (case generate_group r GROUP_LEN w of
        (None, w1) \<Rightarrow> (None, w1)
      | (Some g, w1) \<Rightarrow>
        (case generate_groups r n w1 of (rest, w2) \<Rightarrow> (map_option (Cons g) rest, w2)))"

fun join_dash :: "string list \<Rightarrow> string" where
  "join_dash [] = []"
| "join_dash [g] = g"
| "join_dash (g # gs) = g @ ''-'' @ join_dash gs"

definition generate_code :: "'w rand_crate \<Rightarrow> 'w \<Rightarrow> recovery_code option \<times> 'w" where
  "generate_code r w =
     (case generate_groups r GROUPS w of (groups, w') \<Rightarrow>
        (map_option (\<lambda>gs. \<lparr>code = join_dash gs\<rparr>) groups, w'))"

fun generate_codes :: "'w rand_crate \<Rightarrow> nat \<Rightarrow> 'w \<Rightarrow> recovery_code list option \<times> 'w" where
  "generate_codes r 0 w = (Some [], w)"
| "generate_codes r (Suc n) w =
     (case generate_code r w of
        (None, w1) \<Rightarrow> (None, w1)
      | (Some c, w1) \<Rightarrow>
        (case generate_codes r n w1 of (rest, w2) \<Rightarrow> (map_option (Cons c) rest, w2)))"

text \<open>
  \<open>str::to_uppercase\<close>: on ASCII text the 26 letters are mapped; \<open>uni\<close> stands for the Unicode
  tables, which only text with other characters consults.
\<close>

definition is_ascii :: "string \<Rightarrow> bool" where
  "is_ascii s = list_all (\<lambda>c. (of_char c :: nat) < 128) s"

definition ascii_upper :: "char \<Rightarrow> char" where
  "ascii_upper c = (let k = (of_char c :: nat) in if 97 \<le> k \<and> k \<le> 122 then char_of (k - 32) else c)"

definition ascii_lower :: "char \<Rightarrow> char" where
  "ascii_lower c = (let k = (of_char c :: nat) in if 65 \<le> k \<and> k \<le> 90 then char_of (k + 32) else c)"

definition to_uppercase :: "(string \<Rightarrow> string) \<Rightarrow> string \<Rightarrow> string" where
  "to_uppercase uni s = (if is_ascii s then map ascii_upper s else uni s)"

definition hash_code ::
  "'h sha3_crate \<Rightarrow> hex_crate \<Rightarrow> (string \<Rightarrow> string) \<Rightarrow> string \<Rightarrow> hashed_recovery_code" where
  "hash_code s x uni text =
     (let normalized = to_uppercase uni (filter (\<lambda>c. c \<noteq> CHR ''-'') text);
          h = shake256_mac s (as_bytes ''pqauth-recovery-v1'') (as_bytes normalized) 32
      in \<lparr>hash = hex_encode x h, used = False\<rparr>)"

text \<open>\<open>Iterator::position\<close>\<close>

fun position :: "('a \<Rightarrow> bool) \<Rightarrow> 'a list \<Rightarrow> nat option" where
  "position P [] = None"
| "position P (y # ys) = (if P y then Some 0 else map_option Suc (position P ys))"

definition verify_code ::
  "'h sha3_crate \<Rightarrow> hex_crate \<Rightarrow> (string \<Rightarrow> string) \<Rightarrow> string \<Rightarrow> hashed_recovery_code list \<Rightarrow> nat option" where
  "verify_code s x uni text stored =
     (let candidate = hash_code s x uni text
      in position (\<lambda>h. \<not> used h \<and> verify_mac (as_bytes (hash h)) (as_bytes (hash candidate))) stored)"

record recovery_code_set =
  codes :: "hashed_recovery_code list"
  remaining :: u64

definition from_codes ::
  "'h sha3_crate \<Rightarrow> hex_crate \<Rightarrow> (string \<Rightarrow> string) \<Rightarrow> recovery_code list \<Rightarrow> recovery_code_set" where
  "from_codes s x uni cs =
     (let hashed = map (\<lambda>c. hash_code s x uni (code c)) cs
      in \<lparr>codes = hashed, remaining = word_of_nat (length hashed)\<rparr>)"

text \<open>\<open>use_code\<close>: the index and the decrement can panic (\<open>None\<close>).\<close>

definition use_code ::
  "profile \<Rightarrow> 'h sha3_crate \<Rightarrow> hex_crate \<Rightarrow> (string \<Rightarrow> string) \<Rightarrow> string \<Rightarrow> recovery_code_set \<Rightarrow>
   (bool \<times> recovery_code_set) option" where
  "use_code pf s x uni text rs =
     (case verify_code s x uni text (codes rs) of
        Some idx \<Rightarrow> do {
          c \<leftarrow> index (codes rs) idx;
          let rs = rs\<lparr>codes := (codes rs)[idx := c\<lparr>used := True\<rparr>]\<rparr>;
          left \<leftarrow> checked_sub pf (remaining rs) 1;
          Some (True, rs\<lparr>remaining := left\<rparr>)
        }
      | None \<Rightarrow> Some (False, rs))"

text \<open>Repeated use: the answers to a sequence of attempts, and the final set.\<close>

fun use_all ::
  "profile \<Rightarrow> 'h sha3_crate \<Rightarrow> hex_crate \<Rightarrow> (string \<Rightarrow> string) \<Rightarrow> string list \<Rightarrow> recovery_code_set \<Rightarrow>
   (bool list \<times> recovery_code_set) option" where
  "use_all pf s x uni [] rs = Some ([], rs)"
| "use_all pf s x uni (t # ts) rs = do {
     (b, rs1) \<leftarrow> use_code pf s x uni t rs;
     (bs, rs2) \<leftarrow> use_all pf s x uni ts rs1;
     Some (b # bs, rs2)
   }"

text \<open>The consistency of a set and its abstract state.\<close>

definition set_ok :: "recovery_code_set \<Rightarrow> bool" where
  "set_ok rs \<longleftrightarrow> unat (remaining rs) = length (filter (\<lambda>c. \<not> used c) (codes rs))"

definition unused :: "recovery_code_set \<Rightarrow> string multiset" where
  "unused rs = mset (map hash (filter (\<lambda>c. \<not> used c) (codes rs)))"

section \<open>The abstract contract\<close>

text \<open>
  A store of single-use tokens: redeeming asks whether the token is there and takes one
  occurrence out. What follows for sequences of attempts is proved from the contract alone.
\<close>

locale single_use =
  fixes tokens :: "'s \<Rightarrow> 't multiset"
    and ok :: "'s \<Rightarrow> bool"
    and key :: "'a \<Rightarrow> 't"
    and redeem :: "'a \<Rightarrow> 's \<Rightarrow> (bool \<times> 's) option"
  assumes redeem_spec: "ok st \<Longrightarrow>
    \<exists>st'. redeem a st = Some (key a \<in># tokens st, st') \<and> ok st' \<and> tokens st' = tokens st - {#key a#}"
begin

lemma redeemed:
  assumes "ok st" and "redeem a st = Some (b, st')"
  shows "b \<longleftrightarrow> key a \<in># tokens st" and "ok st'" and "tokens st' = tokens st - {#key a#}"
  using redeem_spec [OF assms(1), of a] assms(2) by auto

lemma redeem_conserves:
  assumes "ok st" and "redeem a st = Some (b, st')"
  shows "count (tokens st) t = count (tokens st') t + (if b \<and> key a = t then 1 else 0)"
  using redeemed [OF assms] by (auto simp: not_in_iff)

lemma redeem_size:
  assumes "ok st" and "redeem a st = Some (b, st')"
  shows "size (tokens st) = size (tokens st') + (if b then 1 else 0)"
  using redeemed [OF assms] by (auto simp: size_Diff_singleton diff_single_trivial dest: size_Suc_Diff1)

lemma redeem_twice:
  assumes "ok st" and "count (tokens st) (key a) \<le> 1" and "redeem a st = Some (b, st')" and "key a' = key a"
  shows "\<exists>st''. redeem a' st' = Some (False, st'')"
proof -
  note st' = redeemed [OF assms(1,3)]
  then have "key a' \<notin># tokens st'" using assms(2,4) by (simp add: not_in_iff)
  with redeem_spec [OF st'(2), of a'] show ?thesis by auto
qed

end

section \<open>Lemmas\<close>

lemma position_Some:
  "position P ys = Some i \<longleftrightarrow> i < length ys \<and> P (ys ! i) \<and> (\<forall>j < i. \<not> P (ys ! j))"
proof (induction ys arbitrary: i)
  case (Cons y ys)
  then show ?case
    by (cases i) (auto simp: All_less_Suc2)
qed simp

lemma position_None: "position P ys = None \<longleftrightarrow> (\<forall>y \<in> set ys. \<not> P y)"
  by (induction ys) auto

lemma filter_update_unselected:
  assumes "i < length xs" and "P (xs ! i)" and "\<not> P y"
  shows "mset (map f (filter P (xs[i := y]))) = mset (map f (filter P xs)) - {#f (xs ! i)#}"
    and "length (filter P (xs[i := y])) = length (filter P xs) - 1"
proof -
  have xs: "xs = take i xs @ xs ! i # drop (Suc i) xs" using assms(1) by (rule id_take_nth_drop)
  have "filter P xs = filter P (take i xs) @ xs ! i # filter P (drop (Suc i) xs)"
    using assms(2) by (subst xs) simp
  moreover have "filter P (xs[i := y]) = filter P (take i xs) @ filter P (drop (Suc i) xs)"
    using assms(1,3) by (simp add: upd_conv_take_nth_drop)
  ultimately show "mset (map f (filter P (xs[i := y]))) = mset (map f (filter P xs)) - {#f (xs ! i)#}"
    and "length (filter P (xs[i := y])) = length (filter P xs) - 1"
    by simp_all
qed

lemma verify_code_eq:
  "verify_code s x uni text stored =
     position (\<lambda>h. \<not> used h \<and> hash h = hash (hash_code s x uni text)) stored"
  by (simp add: verify_code_def Let_def ct.same_iff as_bytes_inject)

lemma unused_elem: "t \<in># unused rs \<longleftrightarrow> (\<exists>h \<in> set (codes rs). \<not> used h \<and> hash h = t)"
  by (auto simp: unused_def)

lemma use_code_refines:
  assumes ok: "set_ok rs" and t: "t = hash (hash_code s x uni text)"
  shows "\<exists>rs'. use_code pf s x uni text rs = Some (t \<in># unused rs, rs') \<and> set_ok rs' \<and>
    unused rs' = unused rs - {#t#}"
proof (cases "verify_code s x uni text (codes rs)")
  case None
  then have "t \<notin># unused rs"
    by (auto simp: verify_code_eq position_None unused_elem t)
  with None ok show ?thesis by (simp add: use_code_def diff_single_trivial)
next
  case (Some idx)
  then have idx: "idx < length (codes rs)" "\<not> used (codes rs ! idx)" "hash (codes rs ! idx) = t"
    by (auto simp: verify_code_eq position_Some t)
  then have mem: "t \<in># unused rs" by (auto simp: unused_elem)
  let ?cs = "(codes rs)[idx := (codes rs ! idx)\<lparr>used := True\<rparr>]"
  let ?rs = "rs\<lparr>codes := ?cs, remaining := remaining rs - 1\<rparr>"
  note upd = filter_update_unselected [of idx "codes rs" "\<lambda>c. \<not> used c" "(codes rs ! idx)\<lparr>used := True\<rparr>" for f]
  have "codes rs ! idx \<in> set (filter (\<lambda>c. \<not> used c) (codes rs))" using idx by simp
  then have "0 < length (filter (\<lambda>c. \<not> used c) (codes rs))" by (rule length_pos_if_in_set)
  then have pos: "1 \<le> remaining rs" using ok by (simp add: set_ok_def word_le_nat_alt Suc_le_eq)
  then have "use_code pf s x uni text rs = Some (True, ?rs)"
    using Some idx(1) by (simp add: use_code_def checked_sub_le)
  moreover have "set_ok ?rs"
    using ok upd(2) idx pos by (simp add: set_ok_def unat_sub word_le_nat_alt)
  moreover have "unused ?rs = unused rs - {#t#}"
    using upd(1) [where f = hash] idx by (simp add: unused_def)
  ultimately show ?thesis using mem by auto
qed

interpretation rec: single_use unused set_ok "\<lambda>t. hash (hash_code s x uni t)" "use_code pf s x uni"
  for pf s x uni
  by unfold_locales (auto dest: use_code_refines)

lemma use_all_conserves:
  assumes "set_ok rs"
  shows "\<exists>bs rs'. use_all pf s x uni ts rs = Some (bs, rs') \<and> length bs = length ts \<and> set_ok rs' \<and>
    size (unused rs) = size (unused rs') + length (filter (\<lambda>b. b) bs) \<and>
    (\<forall>h. count (unused rs) h =
      count (unused rs') h + length (filter (\<lambda>(t, b). b \<and> hash (hash_code s x uni t) = h) (zip ts bs)))"
  using assms
proof (induction ts arbitrary: rs)
  case Nil
  then show ?case by simp
next
  case (Cons t ts)
  from rec.redeem_spec [OF Cons.prems, of pf s x uni t]
  obtain b rs1 where use: "use_code pf s x uni t rs = Some (b, rs1)" and "set_ok rs1" by auto
  from Cons.IH [OF this(2)] obtain bs rs' where
    rest: "use_all pf s x uni ts rs1 = Some (bs, rs')" "length bs = length ts" "set_ok rs'"
    "size (unused rs1) = size (unused rs') + length (filter (\<lambda>b. b) bs)"
    "\<forall>h. count (unused rs1) h =
      count (unused rs') h + length (filter (\<lambda>(t, b). b \<and> hash (hash_code s x uni t) = h) (zip ts bs))"
    by blast
  have "\<forall>h. count (unused rs) h = count (unused rs') h +
      length (filter (\<lambda>(t, b). b \<and> hash (hash_code s x uni t) = h) (zip (t # ts) (b # bs)))"
    using rest(5) rec.redeem_conserves [OF Cons.prems use] by auto
  moreover have "size (unused rs) = size (unused rs') + length (filter (\<lambda>b. b) (b # bs))"
    using rest(4) rec.redeem_size [OF Cons.prems use] by simp
  ultimately show ?case using use rest(1-3) by auto
qed

lemma from_codes_ok: "length cs < 2 ^ 64 \<Longrightarrow> set_ok (from_codes s x uni cs)"
  by (simp add: set_ok_def from_codes_def hash_code_def Let_def unat_of_nat filter_map o_def)

lemma set_ok_size: "set_ok rs \<longleftrightarrow> unat (remaining rs) = size (unused rs)"
  by (simp add: set_ok_def unused_def del: mset_filter mset_map)

lemma unused_from_codes:
  "unused (from_codes s x uni cs) = image_mset (\<lambda>c. hash (hash_code s x uni (code c))) (mset cs)"
  by (simp add: unused_def from_codes_def hash_code_def Let_def filter_map o_def multiset.map_comp)

lemma generate_group_format:
  assumes "rand_law r"
  shows "\<exists>g w'. generate_group r n w = (Some g, w') \<and> length g = n \<and> set g \<subseteq> set ALPHABET"
proof (induction n arbitrary: w)
  case (Suc n)
  obtain idx w1 where draw: "rand_range r 0 (length ALPHABET) w = (idx, w1)" by fastforce
  have "idx < length ALPHABET"
    using rand_lawD [OF assms _ draw] by (simp add: ALPHABET_def)
  moreover obtain g w' where "generate_group r n w1 = (Some g, w')" "length g = n" "set g \<subseteq> set ALPHABET"
    using Suc by blast
  ultimately show ?case using draw by simp
qed simp

lemma generate_groups_format:
  assumes "rand_law r"
  shows "\<exists>gs w'. generate_groups r n w = (Some gs, w') \<and> length gs = n \<and>
    list_all (\<lambda>g. length g = 4 \<and> set g \<subseteq> set ALPHABET) gs"
proof (induction n arbitrary: w)
  case (Suc n)
  obtain g w1 where "generate_group r GROUP_LEN w = (Some g, w1)" "length g = 4" "set g \<subseteq> set ALPHABET"
    using generate_group_format [OF assms] GROUP_LEN_def by metis
  moreover obtain gs w' where "generate_groups r n w1 = (Some gs, w')" "length gs = n"
    "list_all (\<lambda>g. length g = 4 \<and> set g \<subseteq> set ALPHABET) gs"
    using Suc by blast
  ultimately show ?case by simp
qed simp

lemma length_join_dash:
  "list_all (\<lambda>g. length g = k) gs \<Longrightarrow> length (join_dash gs) = length gs * k + (length gs - 1)"
  by (induction gs rule: join_dash.induct) auto

lemma set_join_dash: "set (join_dash gs) \<subseteq> \<Union> (set ` set gs) \<union> {CHR ''-''}"
  by (induction gs rule: join_dash.induct) auto

lemma generate_code_format:
  assumes "rand_law r"
  obtains gs w' where "generate_code r w = (Some \<lparr>code = join_dash gs\<rparr>, w')" and "length gs = 8"
    and "list_all (\<lambda>g. length g = 4 \<and> set g \<subseteq> set ALPHABET) gs"
  using generate_groups_format [OF assms, of 8 w] by (auto simp: generate_code_def GROUPS_def)

lemma is_ascii_generated:
  assumes "list_all (\<lambda>g. length g = 4 \<and> set g \<subseteq> set ALPHABET) gs"
  shows "is_ascii (join_dash gs)"
proof -
  have "\<forall>c \<in> set ALPHABET \<union> {CHR ''-''}. (of_char c :: nat) < 128" by (simp add: ALPHABET_def)
  moreover have "set (join_dash gs) \<subseteq> set ALPHABET \<union> {CHR ''-''}"
    using set_join_dash [of gs] assms by (fastforce simp: list_all_iff)
  ultimately show ?thesis unfolding is_ascii_def list_all_iff by blast
qed

lemma generate_codes_ascii:
  assumes "rand_law r"
  shows "\<exists>cs w'. generate_codes r n w = (Some cs, w') \<and> length cs = n \<and> list_all (\<lambda>c. is_ascii (code c)) cs"
proof (induction n arbitrary: w)
  case (Suc n)
  obtain gs w1 where "generate_code r w = (Some \<lparr>code = join_dash gs\<rparr>, w1)" "is_ascii (join_dash gs)"
    using generate_code_format [OF assms] is_ascii_generated by metis
  moreover obtain cs w' where "generate_codes r n w1 = (Some cs, w')" "length cs = n"
    "list_all (\<lambda>c. is_ascii (code c)) cs"
    using Suc by blast
  ultimately show ?case by simp
qed simp

lemma ascii_case:
  "ascii_upper (ascii_lower c) = ascii_upper c"
  "ascii_lower c = CHR ''-'' \<longleftrightarrow> c = CHR ''-''"
  "(of_char (ascii_lower c) :: nat) < 128 \<longleftrightarrow> (of_char c :: nat) < 128"
proof -
  show "ascii_upper (ascii_lower c) = ascii_upper c"
    by (auto simp: ascii_upper_def ascii_lower_def Let_def)
  have "char_of (of_char c + 32 :: nat) \<noteq> CHR ''-''" if "(of_char c :: nat) \<le> 90" "65 \<le> (of_char c :: nat)"
  proof
    assume "char_of (of_char c + 32 :: nat) = CHR ''-''"
    then have "(of_char (char_of (of_char c + 32 :: nat) :: char) :: nat) = of_char (CHR ''-'')" by simp
    with that show False by simp
  qed
  then show "ascii_lower c = CHR ''-'' \<longleftrightarrow> c = CHR ''-''"
    by (auto simp: ascii_lower_def Let_def)
  show "(of_char (ascii_lower c) :: nat) < 128 \<longleftrightarrow> (of_char c :: nat) < 128"
    by (auto simp: ascii_lower_def Let_def)
qed

lemma hash_code_relaxed:
  assumes "is_ascii text"
  shows "hash_code s x uni (map ascii_lower (filter (\<lambda>c. c \<noteq> CHR ''-'') text)) = hash_code s x uni text"
proof -
  let ?plain = "filter (\<lambda>c. c \<noteq> CHR ''-'') text"
  have "filter (\<lambda>c. c \<noteq> CHR ''-'') (map ascii_lower ?plain) = map ascii_lower ?plain"
    by (simp add: filter_map o_def ascii_case)
  moreover have "is_ascii ?plain" and "is_ascii (map ascii_lower ?plain)"
    using assms by (auto simp: is_ascii_def list_all_iff ascii_case)
  ultimately show ?thesis by (simp add: hash_code_def to_uppercase_def o_def ascii_case)
qed

section \<open>Properties\<close>

text \<open>Using a code refines taking a token out of a multiset. On a consistent set (the counter
  \<open>remaining\<close> is the number of unused hashes) \<open>use_code\<close> never panics, answers whether the hash of the
  code is among the unused ones, and exactly that one occurrence becomes used; the set stays
  consistent.\<close>

theorem use_code_takes_one:
  assumes "set_ok rs" and "t = hash (hash_code s x uni text)"
  shows "\<exists>rs'. use_code pf s x uni text rs = Some (t \<in># unused rs, rs') \<and> set_ok rs' \<and>
    unused rs' = unused rs - {#t#}"
  using assms by (rule use_code_refines)

text \<open>C12. No code is accepted more often than it was issued. After making a set from \<open>n\<close> codes, any
  sequence of attempts is answered without a panic, the attempts accepted for one hash are at most the
  codes issued with it, and the counter is \<open>n\<close> minus the accepted attempts.\<close>

theorem codes_used_at_most_once:
  assumes "length cs < 2 ^ 64"
  shows "\<exists>bs rs'. use_all pf s x uni ts (from_codes s x uni cs) = Some (bs, rs') \<and>
    unat (remaining rs') + length (filter (\<lambda>b. b) bs) = length cs \<and>
    (\<forall>h. length (filter (\<lambda>(t, b). b \<and> hash (hash_code s x uni t) = h) (zip ts bs))
      \<le> length (filter (\<lambda>c. hash (hash_code s x uni (code c)) = h) cs))"
proof -
  let ?rs = "from_codes s x uni cs"
  have ok: "set_ok ?rs" using assms by (rule from_codes_ok)
  from use_all_conserves [OF ok, of pf s x uni ts] obtain bs rs' where
    run: "use_all pf s x uni ts ?rs = Some (bs, rs')" "set_ok rs'"
      "size (unused ?rs) = size (unused rs') + length (filter (\<lambda>b. b) bs)"
      "\<forall>h. count (unused ?rs) h =
        count (unused rs') h + length (filter (\<lambda>(t, b). b \<and> hash (hash_code s x uni t) = h) (zip ts bs))"
    by blast
  have issued: "count (unused ?rs) h = length (filter (\<lambda>c. hash (hash_code s x uni (code c)) = h) cs)" for h
    unfolding unused_from_codes by (induction cs) auto
  have "size (unused ?rs) = length cs" by (simp add: unused_from_codes)
  then show ?thesis
    using run issued by (intro exI [of _ bs] exI [of _ rs']) (auto simp: set_ok_size)
qed

theorem codes_used_at_most_once_witness:
  "\<exists>bs rs'. use_all Debug toy_sha toy_hex id [''ab'', ''AB''] (from_codes toy_sha toy_hex id [\<lparr>code = ''AB''\<rparr>]) = Some (bs, rs') \<and>
    unat (remaining rs') + length (filter (\<lambda>b. b) bs) = 1 \<and>
    (\<forall>h. length (filter (\<lambda>(t, b). b \<and> hash (hash_code toy_sha toy_hex id t) = h) (zip [''ab'', ''AB''] bs))
      \<le> length (filter (\<lambda>c. hash (hash_code toy_sha toy_hex id (code c)) = h) [\<lparr>code = ''AB''\<rparr>]))"
  using codes_used_at_most_once [of "[\<lparr>code = ''AB''\<rparr>]" Debug toy_sha toy_hex id "[''ab'', ''AB'']"] by simp

text \<open>Every generated code has the documented shape: eight groups of four characters of the
  alphabet joined by dashes, 39 characters in all, and generation never indexes out of the
  alphabet.\<close>

theorem generated_code_shape:
  assumes "rand_law r"
  shows "\<exists>gs w'. generate_code r w = (Some \<lparr>code = join_dash gs\<rparr>, w') \<and> length gs = 8 \<and>
    list_all (\<lambda>g. length g = 4 \<and> set g \<subseteq> set ALPHABET) gs \<and> length (join_dash gs) = 39"
proof -
  obtain gs w' where gen: "generate_code r w = (Some \<lparr>code = join_dash gs\<rparr>, w')" "length gs = 8"
    "list_all (\<lambda>g. length g = 4 \<and> set g \<subseteq> set ALPHABET) gs"
    using generate_code_format [OF assms] by blast
  then have "list_all (\<lambda>g. length g = 4) gs" by (auto simp: list_all_iff)
  from length_join_dash [OF this] gen(2) have "length (join_dash gs) = 39" by simp
  with gen show ?thesis by blast
qed

text \<open>C26. A code of a generated batch works however it is typed: without its dashes and in lower case
  it is accepted by the set made from the batch, and one code fewer remains.\<close>

theorem generated_code_redeemable:
  assumes "rand_law r" and "generate_codes r n w = (Some cs, w')" and "n < 2 ^ 64" and "c \<in> set cs"
  shows "\<exists>rs'. use_code pf s x uni (map ascii_lower (filter (\<lambda>c. c \<noteq> CHR ''-'') (code c))) (from_codes s x uni cs)
      = Some (True, rs') \<and> unat (remaining rs') + 1 = n"
proof -
  let ?rs = "from_codes s x uni cs" and ?typed = "map ascii_lower (filter (\<lambda>c. c \<noteq> CHR ''-'') (code c))"
  have cs: "length cs = n" "list_all (\<lambda>c. is_ascii (code c)) cs"
    using generate_codes_ascii [OF assms(1), of n w] assms(2) by auto
  then have hash: "hash_code s x uni ?typed = hash_code s x uni (code c)"
    using assms(4) by (intro hash_code_relaxed) (simp add: list_all_iff)
  have ok: "set_ok ?rs" using cs(1) assms(3) by (intro from_codes_ok) simp
  have mem: "hash (hash_code s x uni ?typed) \<in># unused ?rs"
    using assms(4) unfolding hash unused_from_codes by auto
  then obtain rs' where use: "use_code pf s x uni ?typed ?rs = Some (True, rs')" and "set_ok rs'"
    using rec.redeem_spec [OF ok, of pf s x uni ?typed] by auto
  then have "unat (remaining rs') + 1 = size (unused ?rs)"
    using rec.redeem_size [OF ok use] by (simp add: set_ok_size)
  also have "\<dots> = n" using cs(1) by (simp add: unused_from_codes)
  finally show ?thesis using use by blast
qed

theorem generated_code_redeemable_witness:
  "\<exists>cs c rs'. generate_codes toy_rnd 1 (0, 17) = (Some cs, snd (generate_codes toy_rnd 1 (0, 17))) \<and>
    c \<in> set cs \<and> use_code Debug toy_sha toy_hex id (map ascii_lower (filter (\<lambda>c. c \<noteq> CHR ''-'') (code c)))
      (from_codes toy_sha toy_hex id cs) = Some (True, rs') \<and> unat (remaining rs') + 1 = 1"
proof -
  obtain cs w' where gen: "generate_codes toy_rnd 1 (0, 17) = (Some cs, w')" and "length cs = 1"
    using generate_codes_ascii [OF toy_rand_law] by blast
  then obtain c where c: "c \<in> set cs" by (cases cs) auto
  from generated_code_redeemable [OF toy_rand_law gen _ c, of Debug toy_sha toy_hex id]
  obtain rs' where "use_code Debug toy_sha toy_hex id (map ascii_lower (filter (\<lambda>c. c \<noteq> CHR ''-'') (code c)))
      (from_codes toy_sha toy_hex id cs) = Some (True, rs')" "unat (remaining rs') + 1 = 1" by auto
  moreover have "generate_codes toy_rnd 1 (0, 17) = (Some cs, snd (generate_codes toy_rnd 1 (0, 17)))"
    unfolding gen by simp
  ultimately show ?thesis using c by blast
qed

text \<open>The alphabet has 29 different characters and leaves out the look-alikes that its comment
  names. The example code in the module's documentation contains 1, 0, 5 and L, so no run of the
  generator returns it.\<close>

theorem documented_example_impossible:
  assumes "rand_law r"
  shows "distinct ALPHABET \<and> length ALPHABET = 29 \<and> set ALPHABET \<inter> set ''0O1IL5S'' = {} \<and>
    fst (generate_code r w) \<noteq> Some \<lparr>code = ''A3F7-K9M2-P1X4-Q8R6-B2C5-D7E1-G4H8-J6L0''\<rparr>"
proof -
  obtain gs w' where gen: "generate_code r w = (Some \<lparr>code = join_dash gs\<rparr>, w')"
    "list_all (\<lambda>g. length g = 4 \<and> set g \<subseteq> set ALPHABET) gs"
    using generate_code_format [OF assms] by blast
  have no_one: "CHR ''1'' \<notin> set ALPHABET \<union> {CHR ''-''}" by (simp add: ALPHABET_def)
  have "set (join_dash gs) \<subseteq> set ALPHABET \<union> {CHR ''-''}"
    using set_join_dash [of gs] gen(2) by (fastforce simp: list_all_iff)
  with no_one have "CHR ''1'' \<notin> set (join_dash gs)" by blast
  then have "join_dash gs \<noteq> ''A3F7-K9M2-P1X4-Q8R6-B2C5-D7E1-G4H8-J6L0''" by auto
  with gen(1) show ?thesis by (simp add: ALPHABET_def)
qed

end
