(* ===== verification/Keystore.thy ===== *)
theory Keystore
  imports Crates Instances
begin

text \<open>
  \<open>src/keystore.rs\<close>: key material encrypted under a password with Argon2id and AES-256-GCM.
  A panic (of \<open>Nonce::from_slice\<close>) is \<open>None\<close>. The lemmas show the round trip, that decryption
  never panics, and which inputs it refuses as badly formed before deriving any key.
\<close>

section \<open>Definitions\<close>

definition ARGON2_M_COST :: u32 where "ARGON2_M_COST = 65536"
definition ARGON2_T_COST :: u32 where "ARGON2_T_COST = 3"
definition ARGON2_P_COST :: u32 where "ARGON2_P_COST = 4"
definition SALT_LEN :: nat where "SALT_LEN = 32"
definition NONCE_LEN :: nat where "NONCE_LEN = 12"

datatype keystore_error =
    Kdf string
  | Encrypt string
  | Decrypt
  | InvalidFormat

fun keystore_error_text :: "keystore_error \<Rightarrow> string" where
  "keystore_error_text (Kdf e) = ''key derivation failed: '' @ e"
| "keystore_error_text (Encrypt e) = ''encryption failed: '' @ e"
| "keystore_error_text Decrypt = ''decryption failed (wrong password or corrupted data)''"
| "keystore_error_text InvalidFormat = ''invalid keystore format''"

record encrypted_keystore =
  ks_salt :: string
  ks_nonce :: string
  ks_ciphertext :: string
  ks_key_type :: string
  ks_version :: u32

definition derive_key :: "'p argon2_crate \<Rightarrow> bytes \<Rightarrow> bytes \<Rightarrow> keystore_error + bytes" where
  "derive_key a password salt =
     (case argon2_params a ARGON2_M_COST ARGON2_T_COST ARGON2_P_COST (Some 32) of
        Inl e \<Rightarrow> Inl (Kdf e)
      | Inr params \<Rightarrow>
        (case argon2_hash a params password salt of
           Inl e \<Rightarrow> Inl (Kdf e)
         | Inr fill \<Rightarrow> Inr (map fill [0..<32])))"

definition encrypt ::
  "'p argon2_crate \<Rightarrow> 'c aes_gcm_crate \<Rightarrow> hex_crate \<Rightarrow> 'w rand_crate \<Rightarrow> bytes \<Rightarrow> bytes \<Rightarrow> string \<Rightarrow> 'w \<Rightarrow>
   (keystore_error + encrypted_keystore) option \<times> 'w" where
  "encrypt a g x r key_material password key_type w =
     (case rand_fill r w of (fill_salt, w1) \<Rightarrow>
      case rand_fill r w1 of (fill_nonce, w2) \<Rightarrow>
      let salt = map fill_salt [0..<SALT_LEN];
          nonce_bytes = map fill_nonce [0..<NONCE_LEN]
      in ((case derive_key a password salt of
             Inl e \<Rightarrow> Some (Inl e)
           | Inr derived \<Rightarrow>
             (case aes_new g derived of
                Inl e \<Rightarrow> Some (Inl (Encrypt e))
              | Inr cipher \<Rightarrow> do {
                  n \<leftarrow> aes_nonce g nonce_bytes;
                  (case aes_encrypt g cipher n key_material of
                     Inl e \<Rightarrow> Some (Inl (Encrypt e))
                   | Inr ct \<Rightarrow> Some (Inr \<lparr>ks_salt = hex_encode x salt, ks_nonce = hex_encode x nonce_bytes,
                       ks_ciphertext = hex_encode x ct, ks_key_type = key_type, ks_version = 1\<rparr>))
                })), w2))"

definition decrypt ::
  "'p argon2_crate \<Rightarrow> 'c aes_gcm_crate \<Rightarrow> hex_crate \<Rightarrow> encrypted_keystore \<Rightarrow> bytes \<Rightarrow>
   (keystore_error + bytes) option" where
  "decrypt a g x ks password =
     (if ks_version ks \<noteq> 1 then Some (Inl InvalidFormat)
      else case hex_decode x (ks_salt ks) of
        None \<Rightarrow> Some (Inl InvalidFormat)
      | Some salt \<Rightarrow>
      (case hex_decode x (ks_nonce ks) of
        None \<Rightarrow> Some (Inl InvalidFormat)
      | Some nonce_bytes \<Rightarrow>
      (case hex_decode x (ks_ciphertext ks) of
        None \<Rightarrow> Some (Inl InvalidFormat)
      | Some ct \<Rightarrow>
        if length nonce_bytes \<noteq> NONCE_LEN then Some (Inl InvalidFormat)
        else
          (case derive_key a password salt of
             Inl e \<Rightarrow> Some (Inl e)
           | Inr derived \<Rightarrow>
             (case aes_new g derived of
                Inl e \<Rightarrow> Some (Inl (Encrypt e))
              | Inr cipher \<Rightarrow> do {
                  n \<leftarrow> aes_nonce g nonce_bytes;
                  Some (ok_or Decrypt (aes_decrypt g cipher n ct))
                })))))"

text \<open>A bundle that \<open>decrypt\<close> looks into: the version is known and the three fields decode.\<close>

definition readable :: "hex_crate \<Rightarrow> encrypted_keystore \<Rightarrow> bool" where
  "readable x ks \<longleftrightarrow> ks_version ks = 1 \<and> hex_decode x (ks_salt ks) \<noteq> None \<and>
     hex_decode x (ks_ciphertext ks) \<noteq> None \<and>
     (case hex_decode x (ks_nonce ks) of None \<Rightarrow> False | Some n \<Rightarrow> length n = 12)"

section \<open>Lemmas\<close>

lemmas keystore_sizes = SALT_LEN_def NONCE_LEN_def

lemma length_derive_key: "derive_key a pw salt = Inr k \<Longrightarrow> length k = 32"
  by (auto simp: derive_key_def split: sum.splits)

lemma derive_key_error: "derive_key a pw salt = Inl e \<Longrightarrow> \<exists>t. e = Kdf t"
  by (auto simp: derive_key_def split: sum.splits)

lemma encrypt_stored:
  assumes aes: "aes_gcm_law g" and enc: "encrypt a g x r m pw ty w = (Some (Inr ks), w')"
  obtains salt n k c ct where "ks = \<lparr>ks_salt = hex_encode x salt, ks_nonce = hex_encode x n,
      ks_ciphertext = hex_encode x ct, ks_key_type = ty, ks_version = 1\<rparr>"
    and "length salt = 32" and "length n = 12" and "derive_key a pw salt = Inr k"
    and "aes_new g k = Inr c" and "aes_encrypt g c n m = Inr ct"
  using enc aes_gcm_lawD(2) [OF aes]
  by (auto simp: encrypt_def Let_def keystore_sizes split: prod.splits sum.splits)

lemma decrypt_readable:
  assumes "aes_gcm_law g"
  shows "decrypt a g x ks pw =
    (if \<not> readable x ks then Some (Inl InvalidFormat)
     else case derive_key a pw (the (hex_decode x (ks_salt ks))) of
       Inl e \<Rightarrow> Some (Inl e)
     | Inr k \<Rightarrow> (case aes_new g k of
         Inl e \<Rightarrow> Some (Inl (Encrypt e))
       | Inr c \<Rightarrow> Some (ok_or Decrypt
           (aes_decrypt g c (the (hex_decode x (ks_nonce ks))) (the (hex_decode x (ks_ciphertext ks)))))))"
  using aes_gcm_lawD(2) [OF assms]
  by (auto simp: decrypt_def readable_def keystore_sizes split: option.splits sum.splits)

lemma encrypt_then_decrypt:
  assumes "hex_law x" and "aes_gcm_law g" and "encrypt a g x r key_material pw ty w = (Some (Inr ks), w')"
  shows "decrypt a g x ks pw = Some (Inr key_material) \<and> ks_version ks = 1 \<and> ks_key_type ks = ty \<and>
    (\<exists>salt n. ks_salt ks = hex_encode x salt \<and> length salt = 32 \<and>
      ks_nonce ks = hex_encode x n \<and> length n = 12)"
proof -
  obtain salt n k c ct where ks: "ks = \<lparr>ks_salt = hex_encode x salt, ks_nonce = hex_encode x n,
      ks_ciphertext = hex_encode x ct, ks_key_type = ty, ks_version = 1\<rparr>"
    and len: "length salt = 32" "length n = 12" and k: "derive_key a pw salt = Inr k"
    and c: "aes_new g k = Inr c" "aes_encrypt g c n key_material = Inr ct"
    using encrypt_stored [OF assms(2,3)] by metis
  have "decrypt a g x ks pw = Some (Inr key_material)"
    using aes_gcm_lawD(3) [OF assms(2) len(2) c(2)] assms(1) k c(1) len
    by (simp add: decrypt_readable [OF assms(2)] readable_def ks)
  with ks len show ?thesis by auto
qed

section \<open>Properties\<close>

text \<open>C15. Keystore round trip: whatever \<open>encrypt\<close> stored, \<open>decrypt\<close> with the same password returns
  the key material. The stored bundle has version 1, the caller's key type, and a 32-byte salt and a
  12-byte nonce in hexadecimal.\<close>

theorem keystore_round_trip:
  assumes "hex_law x" and "aes_gcm_law g" and "encrypt a g x r key_material pw ty w = (Some (Inr ks), w')"
  shows "decrypt a g x ks pw = Some (Inr key_material) \<and> ks_version ks = 1 \<and> ks_key_type ks = ty \<and>
    (\<exists>salt n. ks_salt ks = hex_encode x salt \<and> length salt = 32 \<and>
      ks_nonce ks = hex_encode x n \<and> length n = 12)"
  using assms by (rule encrypt_then_decrypt)

theorem keystore_round_trip_witness:
  "decrypt toy_argon toy_aes toy_hex (case fst (encrypt toy_argon toy_aes toy_hex toy_rnd [1, 2, 3] [4, 5] ''dilithium3'' (0, 7)) of
      Some (Inr ks) \<Rightarrow> ks) [4, 5] = Some (Inr [1, 2, 3])"
proof -
  obtain ks where enc: "encrypt toy_argon toy_aes toy_hex toy_rnd [1, 2, 3] [4, 5] ''dilithium3'' (0, 7) = (Some (Inr ks), (0, 9))"
    by (simp add: encrypt_def derive_key_def toy_rnd_def toy_argon_def toy_aes_def keystore_sizes Let_def)
  with keystore_round_trip [OF toy_hex_law toy_aes_gcm_law enc] show ?thesis by simp
qed

text \<open>Decryption never panics: a nonce of the wrong length is refused before \<open>from_slice\<close> would
  panic on it. \<open>InvalidFormat\<close> is answered exactly for an unknown version, a field that is not
  hexadecimal or a nonce that is not 12 bytes, whatever the password; a well-formed bundle fails only
  with a key-derivation error or \<open>Decrypt\<close>.\<close>

theorem decrypt_errors:
  assumes "aes_gcm_law g"
  shows "\<exists>res. decrypt a g x ks pw = Some res \<and> (res = Inl InvalidFormat \<longleftrightarrow> \<not> readable x ks) \<and>
    (\<forall>t. res \<noteq> Inl (Encrypt t))"
proof (cases "derive_key a pw (the (hex_decode x (ks_salt ks)))")
  case (Inl e)
  then show ?thesis by (auto simp: decrypt_readable [OF assms] dest: derive_key_error)
next
  case (Inr k)
  then obtain c where "aes_new g k = Inr c"
    using aes_gcm_lawD(1) [OF assms] length_derive_key by blast
  with Inr show ?thesis by (auto simp: decrypt_readable [OF assms])
qed

end
