(* ===== verification/RateLimit.thy ===== *)
theory RateLimit
  imports PqPrelude
begin

text \<open>
  The fixed-window rate limiter inside \<open>PqAuthServer::check_rate_limit\<close> of \<open>src/server.rs\<close>:
  what one attempt does to the entry \<open>(count, window_start)\<close> of a user. The locale
  \<open>fixed_window\<close> is its contract, from which the number of admitted attempts in any
  interval of one window length is bounded. A panic is \<open>None\<close>.
\<close>

section \<open>Definitions\<close>

type_synonym rate_entry = "u32 \<times> u64"

definition rate_entry_step ::
  "profile \<Rightarrow> u32 \<Rightarrow> u64 \<Rightarrow> rate_entry \<Rightarrow> u64 \<Rightarrow> (bool \<times> rate_entry) option" where
  "rate_entry_step pf max_att window entry now = do {
     age \<leftarrow> checked_sub pf now (snd entry);
     if age > window then Some (True, (1, now))
     else do {
       n \<leftarrow> checked_add pf (fst entry) 1;
       if n > max_att then Some (False, (n, snd entry)) else Some (True, (n, snd entry))
     }
   }"

text \<open>The entry an attempt works on: \<open>entry(..).or_insert((0, now))\<close>.\<close>

definition entry_or_insert :: "rate_entry option \<Rightarrow> u64 \<Rightarrow> rate_entry" where
  "entry_or_insert e now = (case e of None \<Rightarrow> (0, now) | Some x \<Rightarrow> x)"

text \<open>The answers to a sequence of attempts of one user at the given times, up to a panic.\<close>

fun limiter_run :: "profile \<Rightarrow> u32 \<Rightarrow> u64 \<Rightarrow> rate_entry option \<Rightarrow> u64 list \<Rightarrow> bool list" where
  "limiter_run pf m win e [] = []"
| "limiter_run pf m win e (t # ts) =
     (case rate_entry_step pf m win (entry_or_insert e t) t of
        None \<Rightarrow> []
      | Some (b, e') \<Rightarrow> b # limiter_run pf m win (Some e') ts)"

definition admitted :: "bool list \<Rightarrow> nat" where
  "admitted bs = length (filter (\<lambda>b. b) bs)"

section \<open>The contract of a fixed window\<close>

locale fixed_window =
  fixes step :: "rate_entry \<Rightarrow> u64 \<Rightarrow> (bool \<times> rate_entry) option"
    and limit :: u32
    and window :: u64
  assumes same_window: "start \<le> t \<Longrightarrow> unat t \<le> unat start + unat window \<Longrightarrow> unat c + 1 < 2 ^ 32 \<Longrightarrow>
      step (c, start) t = Some (c + 1 \<le> limit, (c + 1, start))"
    and next_window: "start \<le> t \<Longrightarrow> unat start + unat window < unat t \<Longrightarrow>
      step (c, start) t = Some (True, (1, t))"

begin

text \<open>One attempt: it stays in the window and counts, or opens a new one.\<close>

lemma step_cases:
  assumes "start \<le> t" and "unat c + 1 < 2 ^ 32"
  obtains "step (c, start) t = Some (c + 1 \<le> limit, (c + 1, start))" and "unat t \<le> unat start + unat window"
  | "step (c, start) t = Some (True, (1, t))" and "unat start + unat window < unat t"
  using assms same_window next_window by (cases "unat t \<le> unat start + unat window") auto

end

lemma unat32_succ: "unat (c :: u32) + 1 < 2 ^ 32 \<Longrightarrow> unat (c + 1) = unat c + 1"
  by (simp add: unat_word_ariths)

interpretation rl: fixed_window "rate_entry_step pf m win" m win for pf m win
proof (unfold_locales, goal_cases)
  case (1 start t c)
  then have "\<not> win < t - start" by (simp add: word_less_nat_alt unat_sub word_le_nat_alt)
  with 1 show ?case
    by (auto simp: rate_entry_step_def checked_sub_le checked_add_small not_less)
next
  case (2 start t c)
  then have "win < t - start" by (simp add: word_less_nat_alt unat_sub)
  with 2 show ?case by (simp add: rate_entry_step_def checked_sub_le)
qed

section \<open>Bounds\<close>

lemma admitted_Cons [simp]: "admitted [] = 0" "admitted (b # bs) = (if b then 1 else 0) + admitted bs"
  by (simp_all add: admitted_def)

lemma limiter_same_window:
  assumes "list_all (\<lambda>t. start \<le> t \<and> unat t \<le> unat start + unat win) ts"
    and "unat c + length ts < 2 ^ 32"
  shows "admitted (limiter_run pf m win (Some (c, start)) ts) \<le> unat m - unat c"
  using assms
proof (induction ts arbitrary: c)
  case (Cons t ts)
  then have c: "unat (c + 1) = unat c + 1" by (intro unat32_succ) simp
  have "admitted (limiter_run pf m win (Some (c + 1, start)) ts) \<le> unat m - unat (c + 1)"
    using Cons.prems c by (intro Cons.IH) simp_all
  with Cons.prems c show ?case
    by (auto simp: entry_or_insert_def rl.same_window word_le_nat_alt)
qed simp

lemma limiter_two_windows:
  assumes "sorted ts" and "list_all (\<lambda>t. start \<le> t \<and> t0 \<le> t \<and> unat t \<le> unat t0 + unat win) ts"
    and "unat c + length ts < 2 ^ 32" and "1 \<le> m"
  shows "admitted (limiter_run pf m win (Some (c, start)) ts) \<le> (unat m - unat c) + unat m"
  using assms
proof (induction ts arbitrary: c)
  case (Cons t ts)
  have c: "unat (c + 1) = unat c + 1" using Cons.prems(3) by (intro unat32_succ) simp
  have later: "list_all (\<lambda>t'. t \<le> t' \<and> unat t' \<le> unat t + unat win) ts"
    using Cons.prems(1,2) by (auto simp: list_all_iff word_le_nat_alt)
  from Cons.prems(2,3) have "start \<le> t" "unat c + 1 < 2 ^ 32" by simp_all
  then show ?case
  proof (cases rule: rl.step_cases [where pf = pf and m = m and win = win])
    case 1
    moreover have "admitted (limiter_run pf m win (Some (c + 1, start)) ts) \<le> (unat m - unat (c + 1)) + unat m"
      using Cons.prems c by (intro Cons.IH) simp_all
    ultimately show ?thesis
      using c by (auto simp: entry_or_insert_def word_le_nat_alt)
  next
    case 2
    moreover have "admitted (limiter_run pf m win (Some (1, t)) ts) \<le> unat m - unat (1 :: u32)"
      using later Cons.prems(3) by (intro limiter_same_window) simp_all
    ultimately show ?thesis
      using Cons.prems(4) by (simp add: entry_or_insert_def word_le_nat_alt)
  qed
qed simp

lemma limiter_fresh:
  assumes "sorted ts" and "list_all (\<lambda>t. t0 \<le> t \<and> unat t \<le> unat t0 + unat win) ts"
    and "length ts < 2 ^ 32"
  shows "admitted (limiter_run pf m win None ts) \<le> unat m"
proof (cases ts)
  case (Cons t ts')
  have "limiter_run pf m win None ts = limiter_run pf m win (Some (0, t)) ts"
    by (simp add: Cons entry_or_insert_def)
  moreover have "list_all (\<lambda>t'. t \<le> t' \<and> unat t' \<le> unat t + unat win) ts"
    using assms(1,2) by (auto simp: Cons list_all_iff word_le_nat_alt)
  from limiter_same_window [OF this, of 0 pf m] assms(3)
  have "admitted (limiter_run pf m win (Some (0, t)) ts) \<le> unat m" by simp
  ultimately show ?thesis by simp
qed simp

lemma rate_entry_step_backwards:
  assumes "now < start" and "unat start - unat now < 2 ^ 64 - 300"
  shows "rate_entry_step Debug m 300 (c, start) now = None"
    and "rate_entry_step Release m 300 (c, start) now = Some (True, (1, now))"
proof -
  have "unat (now - start) = 2 ^ 64 - (unat start - unat now)"
    using assms(1) unat64_bound [of now] unat64_bound [of start]
    by (simp add: unat_sub_if' word_less_nat_alt)
  then have "(300 :: u64) < now - start" using assms(2) by (simp add: word_less_nat_alt)
  then show "rate_entry_step Release m 300 (c, start) now = Some (True, (1, now))"
    by (simp add: rate_entry_step_def checked_sub_release)
  show "rate_entry_step Debug m 300 (c, start) now = None"
    using checked_sub_debug_None [of now start] assms(1) by (simp add: rate_entry_step_def)
qed

section \<open>Properties\<close>

text \<open>The limit is per fixed window, not per sliding one. A user who makes one attempt at second 0,
  four at second 300 and five at second 301 passes the limiter every time: nine attempts in two seconds
  under a limit of five in 300 seconds.\<close>

theorem burst_across_windows:
  "limiter_run pf 5 300 None [0, 300, 300, 300, 300, 301, 301, 301, 301, 301, 301] =
     [True, True, True, True, True, True, True, True, True, True, False]"
  by (simp add: rate_entry_step_def entry_or_insert_def checked_sub_le checked_add_small)

end
