(* ===== verification/Server.thy ===== *)
theory Server
  imports RateLimit Enrollment Challenge "HOL-Library.Sublist"
begin

text \<open>
  \<open>src/server.rs\<close>: the in-memory authentication server. \<open>server_inner\<close> is \<open>ServerInner\<close>,
  \<open>pq_auth_server\<close> adds the poison flag of the mutex around it: every operation takes the lock,
  and a panic inside an operation poisons it. An operation's body maps the state and the world
  to a result (\<open>None\<close> is a panic; inside, the \<open>Result\<close> of the code), the new state and the new
  world. The clock is read where the code reads it, so two reads in one operation may differ.

  The lemmas describe every operation by the changes it can make, then come the invariant of
  the reachable states, the order that every step climbs (no enrolled record is changed, the
  audit log only grows), and the bounds over sequences of requests.
\<close>

section \<open>Data\<close>

datatype server_error =
    UserNotFound string
  | UserAlreadyEnrolled string
  | NoPendingEnrollment string
  | NoPendingChallenge string
  | EnrollmentFailed enrollment_error
  | ChallengeFailed challenge_error
  | RateLimited

fun server_error_text :: "server_error \<Rightarrow> string" where
  "server_error_text (UserNotFound u) = ''user not found: '' @ u"
| "server_error_text (UserAlreadyEnrolled u) = ''user already enrolled: '' @ u"
| "server_error_text (NoPendingEnrollment u) = ''no pending enrollment for user: '' @ u"
| "server_error_text (NoPendingChallenge u) = ''no pending challenge for user: '' @ u"
| "server_error_text (EnrollmentFailed e) = ''enrollment failed: '' @ enrollment_error_text e"
| "server_error_text (ChallengeFailed e) = ''challenge verification failed: '' @ challenge_error_text e"
| "server_error_text RateLimited = ''rate limited''"

record audit_entry =
  ae_timestamp :: u64
  ae_user_id :: string
  ae_action :: string
  ae_success :: bool
  ae_detail :: "string option"

record server_inner =
  server_id :: string
  users :: "string \<rightharpoonup> enrollment_record"
  pending_enrollments :: "string \<rightharpoonup> server_enrollment"
  pending_challenges :: "string \<rightharpoonup> challenge"
  verifier :: challenge_verifier
  audit_log :: "audit_entry list"
  rate_limits :: "string \<rightharpoonup> rate_entry"
  max_attempts :: u32
  rate_window :: u64

record pq_auth_server =
  inner :: server_inner
  poisoned :: bool

record enroll_begin_response =
  eb_kyber_public_key :: string
  eb_server_id :: string

record enroll_complete_request =
  ecr_user_id :: string
  ecr_ciphertext :: string
  ecr_dilithium_public_key :: string

record enroll_complete_response =
  ecs_success :: bool
  ecs_message :: string

record challenge_issued =
  ci_nonce :: string
  ci_issued_at :: u64

datatype verify_method =
    Totp u32
  | ChallengeMethod string u64 string

record verify_request =
  vr_user_id :: string
  vr_method :: verify_method

record verify_response =
  vs_valid :: bool
  vs_message :: string

section \<open>Bodies of the operations\<close>

type_synonym ('a, 'w) call = "server_inner \<Rightarrow> 'w \<Rightarrow> 'a option \<times> server_inner \<times> 'w"

definition ret :: "'a \<Rightarrow> ('a, 'w) call" where
  "ret x s w = (Some x, s, w)"

text \<open>Sequencing: a panic ends the operation where it happens.\<close>

definition and_then :: "('a, 'w) call \<Rightarrow> ('a \<Rightarrow> ('b, 'w) call) \<Rightarrow> ('b, 'w) call" where
  "and_then m f s w = (case m s w of (None, s', w') \<Rightarrow> (None, s', w') | (Some x, s', w') \<Rightarrow> f x s' w')"

text \<open>The operator \<open>?\<close>: an error ends the operation with that error.\<close>

definition try_then ::
  "(server_error + 'a, 'w) call \<Rightarrow> ('a \<Rightarrow> (server_error + 'b, 'w) call) \<Rightarrow> (server_error + 'b, 'w) call" where
  "try_then m f = and_then m (\<lambda>r. case r of Inl e \<Rightarrow> ret (Inl e) | Inr x \<Rightarrow> f x)"

definition now_unix :: "'w os_clock \<Rightarrow> (u64, 'w) call" where
  "now_unix c s w = (case clock_secs c w of (t, w') \<Rightarrow> (secs_since_epoch t, s, w'))"

definition inner_new :: "string \<Rightarrow> server_inner" where
  "inner_new sid = \<lparr>server_id = sid, users = Map.empty, pending_enrollments = Map.empty,
     pending_challenges = Map.empty, verifier = verifier_new 60, audit_log = [],
     rate_limits = Map.empty, max_attempts = 5, rate_window = 300\<rparr>"

definition server_new :: "string \<Rightarrow> pq_auth_server" where
  "server_new sid = \<lparr>inner = inner_new sid, poisoned = False\<rparr>"

definition audit ::
  "('h, 'w) deps \<Rightarrow> string \<Rightarrow> string \<Rightarrow> bool \<Rightarrow> string option \<Rightarrow> (unit, 'w) call" where
  "audit d user action success detail =
     and_then (now_unix (os d)) (\<lambda>ts s.
       ret () (s\<lparr>audit_log := audit_log s @
         [\<lparr>ae_timestamp = ts, ae_user_id = user, ae_action = action, ae_success = success, ae_detail = detail\<rparr>]\<rparr>))"

definition check_rate_limit :: "('h, 'w) deps \<Rightarrow> string \<Rightarrow> (server_error + unit, 'w) call" where
  "check_rate_limit d user =
     and_then (now_unix (os d)) (\<lambda>now s w.
       let entry = entry_or_insert (rate_limits s user) now;
           s1 = s\<lparr>rate_limits := (rate_limits s)(user \<mapsto> entry)\<rparr>
       in case rate_entry_step (build d) (max_attempts s1) (rate_window s1) entry now of
            None \<Rightarrow> (None, s1, w)
          | Some (admit, entry') \<Rightarrow>
              (Some (if admit then Inr () else Inl RateLimited),
               s1\<lparr>rate_limits := (rate_limits s1)(user \<mapsto> entry')\<rparr>, w))"

definition do_enroll_begin ::
  "('h, 'w) deps \<Rightarrow> string \<Rightarrow> (server_error + enroll_begin_response, 'w) call" where
  "do_enroll_begin d user s w =
     (if contains_key (users s) user then ret (Inl (UserAlreadyEnrolled user)) s w
      else case server_enrollment_new (kyb d) (server_id s) w of (enrollment, w1) \<Rightarrow>
        let ch = enrollment_challenge_of enrollment;
            resp = \<lparr>eb_kyber_public_key = hex_encode (hexc d) (ec_kyber_public ch),
                    eb_server_id = ec_server_id ch\<rparr>;
            s1 = s\<lparr>pending_enrollments := (pending_enrollments s)(user \<mapsto> enrollment)\<rparr>
        in and_then (audit d user ''enroll_begin'' True None) (\<lambda>_. ret (Inr resp)) s1 w1)"

definition completion_of :: "hex_crate \<Rightarrow> enroll_complete_request \<Rightarrow> enrollment_response" where
  "completion_of x req =
     \<lparr>er_ciphertext = unwrap_or_default (hex_decode x (ecr_ciphertext req)),
      er_dilithium_public = unwrap_or_default (hex_decode x (ecr_dilithium_public_key req))\<rparr>"

definition do_enroll_complete ::
  "('h, 'w) deps \<Rightarrow> enroll_complete_request \<Rightarrow> (server_error + enroll_complete_response, 'w) call" where
  "do_enroll_complete d req s w =
     (let user = ecr_user_id req;
          s1 = s\<lparr>pending_enrollments := map_remove (pending_enrollments s) user\<rparr>
      in case pending_enrollments s user of
           None \<Rightarrow> ret (Inl (NoPendingEnrollment user)) s1 w
         | Some enrollment \<Rightarrow>
             let response = completion_of (hexc d) req
             in case complete (sha d) (kyb d) enrollment response of
                  Inl e \<Rightarrow> ret (Inl (EnrollmentFailed e)) s1 w
                | Inr rc \<Rightarrow>
                    let s2 = s1\<lparr>users := (users s1)(user \<mapsto> rc)\<rparr>
                    in and_then (audit d user ''enroll_complete'' True None)
                         (\<lambda>_. ret (Inr \<lparr>ecs_success = True, ecs_message = ''Enrollment successful''\<rparr>)) s2 w)"

definition do_issue_challenge ::
  "('h, 'w) deps \<Rightarrow> string \<Rightarrow> (server_error + challenge_issued, 'w) call" where
  "do_issue_challenge d user s w =
     (if \<not> contains_key (users s) user then ret (Inl (UserNotFound user)) s w
      else try_then (check_rate_limit d user) (\<lambda>_.
        and_then (now_unix (os d)) (\<lambda>ts s1 w1.
          case challenge_new (rnd d) ts w1 of (ch, w2) \<Rightarrow>
            let resp = \<lparr>ci_nonce = hex_encode (hexc d) (nonce ch), ci_issued_at = issued_at ch\<rparr>;
                s2 = s1\<lparr>pending_challenges := (pending_challenges s1)(user \<mapsto> ch)\<rparr>
            in and_then (audit d user ''challenge_issued'' True None) (\<lambda>_. ret (Inr resp)) s2 w2)) s w)"

text \<open>The two arms of \<open>verify\<close>, then the whole.\<close>

definition verify_totp_arm ::
  "('h, 'w) deps \<Rightarrow> string \<Rightarrow> enrollment_record \<Rightarrow> u32 \<Rightarrow> (server_error + verify_response, 'w) call" where
  "verify_totp_arm d user_id user code =
     and_then (now_unix (os d)) (\<lambda>ts s w.
       case PqTotp.verify (build d) (sha d) (rec_totp_seed user) code ts 1 of
         None \<Rightarrow> (None, s, w)
       | Some valid \<Rightarrow>
           and_then (audit d user_id ''verify_totp'' valid None)
             (\<lambda>_. ret (Inr \<lparr>vs_valid = valid,
                vs_message = (if valid then ''TOTP verified'' else ''Invalid TOTP code'')\<rparr>)) s w)"

definition response_of :: "hex_crate \<Rightarrow> string \<Rightarrow> u64 \<Rightarrow> string \<Rightarrow> challenge_response" where
  "response_of x n client_ts sig =
     \<lparr>resp_nonce = (case try_into_array 32 (unwrap_or_default (hex_decode x n)) of
                      Some a \<Rightarrow> a | None \<Rightarrow> replicate 32 0),
      client_timestamp = client_ts,
      signature = unwrap_or_default (hex_decode x sig)\<rparr>"

definition verify_challenge_arm ::
  "('h, 'w) deps \<Rightarrow> string \<Rightarrow> enrollment_record \<Rightarrow> string \<Rightarrow> u64 \<Rightarrow> string \<Rightarrow>
   (server_error + verify_response, 'w) call" where
  "verify_challenge_arm d user_id user n client_ts sig s w =
     (let s1 = s\<lparr>pending_challenges := map_remove (pending_challenges s) user_id\<rparr>
      in case pending_challenges s user_id of
           None \<Rightarrow> ret (Inl (NoPendingChallenge user_id)) s1 w
         | Some ch \<Rightarrow>
             let cr = response_of (hexc d) n client_ts sig in
             and_then (now_unix (os d)) (\<lambda>ts s2 w2.
               case verifier_verify (dil d) (verifier s2) ch cr (rec_dilithium_public user) ts of
                 (result, v) \<Rightarrow>
                   let s3 = s2\<lparr>verifier := v\<rparr>;
                       valid = is_ok result
                   in and_then (audit d user_id ''verify_challenge'' valid
                          (map_option challenge_error_text (err_opt result)))
                        (\<lambda>_. ret (Inr \<lparr>vs_valid = valid,
                           vs_message = (if valid then ''Challenge-response verified''
                                         else ''Challenge verification failed'')\<rparr>)) s3 w2) s1 w)"

definition do_verify ::
  "('h, 'w) deps \<Rightarrow> verify_request \<Rightarrow> (server_error + verify_response, 'w) call" where
  "do_verify d req s w =
     (case users s (vr_user_id req) of
        None \<Rightarrow> ret (Inl (UserNotFound (vr_user_id req))) s w
      | Some user \<Rightarrow>
          try_then (check_rate_limit d (vr_user_id req)) (\<lambda>_.
            case vr_method req of
              Totp code \<Rightarrow> verify_totp_arm d (vr_user_id req) user code
            | ChallengeMethod n client_ts sig \<Rightarrow>
                verify_challenge_arm d (vr_user_id req) user n client_ts sig) s w)"

section \<open>The operations, under the lock\<close>

text \<open>\<open>self.inner.lock().unwrap()\<close> panics on a poisoned mutex; a panic while the lock is held poisons it.\<close>

definition with_lock :: "('a, 'w) call \<Rightarrow> pq_auth_server \<Rightarrow> 'w \<Rightarrow> 'a option \<times> pq_auth_server \<times> 'w" where
  "with_lock m srv w =
     (if poisoned srv then (None, srv, w)
      else case m (inner srv) w of (r, s', w') \<Rightarrow> (r, \<lparr>inner = s', poisoned = (r = None)\<rparr>, w'))"

definition enroll_begin where
  "enroll_begin d user = with_lock (do_enroll_begin d user)"

definition enroll_complete where
  "enroll_complete d req = with_lock (do_enroll_complete d req)"

definition issue_challenge where
  "issue_challenge d user = with_lock (do_issue_challenge d user)"

definition server_verify where
  "server_verify d req = with_lock (do_verify d req)"

definition read_audit_log :: "pq_auth_server \<Rightarrow> 'w \<Rightarrow> audit_entry list option \<times> pq_auth_server \<times> 'w" where
  "read_audit_log = with_lock (\<lambda>s. ret (audit_log s) s)"

definition is_enrolled :: "string \<Rightarrow> pq_auth_server \<Rightarrow> 'w \<Rightarrow> bool option \<times> pq_auth_server \<times> 'w" where
  "is_enrolled user = with_lock (\<lambda>s. ret (contains_key (users s) user) s)"

text \<open>One step of a server: one call, whatever the state of the outside world at that moment.\<close>

inductive server_step :: "('h, 'w) deps \<Rightarrow> pq_auth_server \<Rightarrow> pq_auth_server \<Rightarrow> bool"
  for d :: "('h, 'w) deps" where
  step_enroll_begin: "enroll_begin d user srv w = (r, srv', w') \<Longrightarrow> server_step d srv srv'"
| step_enroll_complete: "enroll_complete d req srv w = (r, srv', w') \<Longrightarrow> server_step d srv srv'"
| step_issue_challenge: "issue_challenge d user srv w = (r, srv', w') \<Longrightarrow> server_step d srv srv'"
| step_verify: "server_verify d vreq srv w = (r, srv', w') \<Longrightarrow> server_step d srv srv'"
| step_audit_log: "read_audit_log srv (w :: 'w) = (r, srv', w') \<Longrightarrow> server_step d srv srv'"
| step_is_enrolled: "is_enrolled user srv (w :: 'w) = (r, srv', w') \<Longrightarrow> server_step d srv srv'"

section \<open>What each operation changes\<close>

named_theorems bodies \<comment> \<open>the bodies of the operations, unfolded\<close>

lemmas [bodies] = ret_def and_then_def try_then_def now_unix_def Let_def

lemma with_lock_cases:
  assumes "with_lock m srv w = (r, srv', w')"
  obtains (locked) "poisoned srv" "r = None" "srv' = srv"
  | (ran) "\<not> poisoned srv" "m (inner srv) w = (r, inner srv', w')" "poisoned srv' \<longleftrightarrow> r = None"
  using assms by (auto simp: with_lock_def split: if_splits prod.splits)

text \<open>Times an operation can read, the first of them, and the two causes of a panic.\<close>

definition clock_shows :: "('h, 'w) deps \<Rightarrow> u64 \<Rightarrow> bool" where
  "clock_shows d t \<longleftrightarrow> (\<exists>w. fst (clock_secs (os d) w) = t) \<and> 0 \<le> sint t"

definition clock_fails :: "('h, 'w) deps \<Rightarrow> bool" where
  "clock_fails d \<longleftrightarrow> (\<exists>w. sint (fst (clock_secs (os d) w)) < 0)"

definition request_time :: "('h, 'w) deps \<Rightarrow> 'w \<Rightarrow> u64" where
  "request_time d w = fst (clock_secs (os d) w)"

definition limiter :: "('h, 'w) deps \<Rightarrow> server_inner \<Rightarrow> string \<Rightarrow> 'w \<Rightarrow> (bool \<times> rate_entry) option" where
  "limiter d s user w = rate_entry_step (build d) (max_attempts s) (rate_window s)
     (entry_or_insert (rate_limits s user) (request_time d w)) (request_time d w)"

abbreviation entry_of :: "u64 \<Rightarrow> string \<Rightarrow> string \<Rightarrow> bool \<Rightarrow> string option \<Rightarrow> audit_entry" where
  "entry_of ts user action ok detail \<equiv> \<lparr>ae_timestamp = ts, ae_user_id = user, ae_action = action,
     ae_success = ok, ae_detail = detail\<rparr>"

lemma now_unix_cases:
  assumes "now_unix (os d) s w = (r, s', w')"
  obtains (panic) "r = None" "s' = s" "clock_fails d"
  | (reads) ts where "r = Some ts" "s' = s" "ts = request_time d w" "clock_shows d ts"
proof -
  obtain t w1 where clk: "clock_secs (os d) w = (t, w1)" by fastforce
  then have "fst (clock_secs (os d) w) = t" by simp
  then have "sint t < 0 \<Longrightarrow> clock_fails d" and "0 \<le> sint t \<Longrightarrow> clock_shows d t"
    unfolding clock_fails_def clock_shows_def by blast+
  with assms clk show thesis
    by (cases "sint t < 0") (auto simp: now_unix_def request_time_def secs_since_epoch_def intro: panic reads)
qed

lemma audit_cases:
  assumes "audit d user action ok detail s w = (r, s', w')"
  obtains (panic) "r = None" "s' = s" "clock_fails d"
  | (logged) ts where "r = Some ()" "clock_shows d ts"
      "s' = s\<lparr>audit_log := audit_log s @ [entry_of ts user action ok detail]\<rparr>"
proof -
  obtain a s1 w1 where a: "now_unix (os d) s w = (a, s1, w1)" by (metis prod_cases3)
  from a show thesis
    by (cases rule: now_unix_cases)
      (use assms a in \<open>auto simp: audit_def and_then_def ret_def intro: panic logged\<close>)
qed

lemma check_rate_limit_cases:
  assumes "check_rate_limit d user s w = (r, s', w')"
  obtains (panic) rl where "r = None" "s' = s\<lparr>rate_limits := rl\<rparr>" "clock_fails d \<or> limiter d s user w = None"
  | (answered) admit e where "r = Some (if admit then Inr () else Inl RateLimited)"
      "limiter d s user w = Some (admit, e)"
      "s' = s\<lparr>rate_limits := (rate_limits s)(user \<mapsto> e)\<rparr>"
proof -
  obtain a s1 w1 where a: "now_unix (os d) s w = (a, s1, w1)" by (metis prod_cases3)
  from a show thesis
  proof (cases rule: now_unix_cases)
    case panic
    with assms a show thesis
      by (intro that(1) [of "rate_limits s"]) (simp_all add: check_rate_limit_def and_then_def)
  next
    case (reads ts)
    show thesis
    proof (cases "limiter d s user w")
      case None
      with assms a reads show thesis
        by (intro that(1) [of "(rate_limits s)(user \<mapsto> entry_or_insert (rate_limits s user) ts)"])
          (auto simp: check_rate_limit_def and_then_def limiter_def Let_def)
    next
      case (Some x)
      with assms a reads show thesis
        by (intro that(2) [of "fst x" "snd x"])
          (auto simp: check_rate_limit_def and_then_def limiter_def Let_def split: prod.splits)
    qed
  qed
qed

lemma enroll_begin_cases:
  assumes "do_enroll_begin d user s w = (r, s', w')"
  obtains (enrolled) "user \<in> dom (users s)" "r = Some (Inl (UserAlreadyEnrolled user))" "s' = s"
  | (panic) se where "clock_fails d" "user \<notin> dom (users s)" "se_server_id se = server_id s"
      "se = fst (server_enrollment_new (kyb d) (server_id s) w)" "r = None"
      "s' = s\<lparr>pending_enrollments := (pending_enrollments s)(user \<mapsto> se)\<rparr>"
  | (begun) se ts where "user \<notin> dom (users s)" "se_server_id se = server_id s"
      "se = fst (server_enrollment_new (kyb d) (server_id s) w)"
      "r = Some (Inr \<lparr>eb_kyber_public_key = hex_encode (hexc d) (se_kyber_public se), eb_server_id = server_id s\<rparr>)"
      "s' = s\<lparr>pending_enrollments := (pending_enrollments s)(user \<mapsto> se), audit_log := audit_log s @
        [entry_of ts user ''enroll_begin'' True None]\<rparr>"
proof (cases "user \<in> dom (users s)")
  case True
  with assms show thesis by (intro enrolled) (auto simp: do_enroll_begin_def bodies)
next
  case False
  obtain se w1 where se: "server_enrollment_new (kyb d) (server_id s) w = (se, w1)" by fastforce
  then have sid: "se_server_id se = server_id s"
    by (auto simp: server_enrollment_new_def split: prod.splits)
  let ?s1 = "s\<lparr>pending_enrollments := (pending_enrollments s)(user \<mapsto> se)\<rparr>"
  obtain a s2 w2 where a: "audit d user ''enroll_begin'' True None ?s1 w1 = (a, s2, w2)"
    by (metis prod_cases3)
  from a show thesis
    by (cases rule: audit_cases)
      (use assms False se sid a in \<open>auto simp: do_enroll_begin_def enrollment_challenge_of_def bodies intro: panic begun\<close>)
qed

lemma enroll_complete_cases:
  assumes "do_enroll_complete d req s w = (r, s', w')"
  obtains (absent) "pending_enrollments s (ecr_user_id req) = None"
      "r = Some (Inl (NoPendingEnrollment (ecr_user_id req)))"
      "s' = s\<lparr>pending_enrollments := map_remove (pending_enrollments s) (ecr_user_id req)\<rparr>"
  | (refused) se e where "pending_enrollments s (ecr_user_id req) = Some se"
      "complete (sha d) (kyb d) se (completion_of (hexc d) req) = Inl e" "r = Some (Inl (EnrollmentFailed e))"
      "s' = s\<lparr>pending_enrollments := map_remove (pending_enrollments s) (ecr_user_id req)\<rparr>"
  | (panic) se rc where "clock_fails d" "pending_enrollments s (ecr_user_id req) = Some se"
      "complete (sha d) (kyb d) se (completion_of (hexc d) req) = Inr rc" "r = None"
      "s' = s\<lparr>pending_enrollments := map_remove (pending_enrollments s) (ecr_user_id req),
              users := (users s)(ecr_user_id req \<mapsto> rc)\<rparr>"
  | (enrolled) se rc ts where "pending_enrollments s (ecr_user_id req) = Some se"
      "complete (sha d) (kyb d) se (completion_of (hexc d) req) = Inr rc" 
      "r = Some (Inr \<lparr>ecs_success = True, ecs_message = ''Enrollment successful''\<rparr>)"
      "s' = s\<lparr>pending_enrollments := map_remove (pending_enrollments s) (ecr_user_id req),
              users := (users s)(ecr_user_id req \<mapsto> rc), audit_log := audit_log s @
        [entry_of ts (ecr_user_id req) ''enroll_complete'' True None]\<rparr>"
proof (cases "pending_enrollments s (ecr_user_id req)")
  case None
  with assms show thesis by (intro absent) (auto simp: do_enroll_complete_def bodies)
next
  case (Some se)
  show thesis
  proof (cases "complete (sha d) (kyb d) se (completion_of (hexc d) req)")
    case (Inl e)
    with assms Some show thesis by (intro refused) (auto simp: do_enroll_complete_def bodies)
  next
    case (Inr rc)
    let ?s2 = "s\<lparr>pending_enrollments := map_remove (pending_enrollments s) (ecr_user_id req),
              users := (users s)(ecr_user_id req \<mapsto> rc)\<rparr>"
    obtain a s3 w3 where a: "audit d (ecr_user_id req) ''enroll_complete'' True None ?s2 w = (a, s3, w3)"
      by (metis prod_cases3)
    from a show thesis
      by (cases rule: audit_cases)
        (use assms Some Inr a in \<open>auto simp: do_enroll_complete_def bodies intro: panic enrolled\<close>)
  qed
qed

lemma issue_challenge_cases:
  assumes "do_issue_challenge d user s w = (r, s', w')"
  obtains (unknown) "user \<notin> dom (users s)" "r = Some (Inl (UserNotFound user))" "s' = s"
  | (panic) rl pc where "user \<in> dom (users s)" "r = None" "clock_fails d \<or> limiter d s user w = None"
      "s' = s\<lparr>rate_limits := rl, pending_challenges := pc\<rparr>"
  | (limited) e where "user \<in> dom (users s)" "limiter d s user w = Some (False, e)"
      "r = Some (Inl RateLimited)" "s' = s\<lparr>rate_limits := (rate_limits s)(user \<mapsto> e)\<rparr>"
  | (issued) e ch ts where "user \<in> dom (users s)" "limiter d s user w = Some (True, e)"
      "clock_shows d (issued_at ch)" "length (nonce ch) = 32"
      "r = Some (Inr \<lparr>ci_nonce = hex_encode (hexc d) (nonce ch), ci_issued_at = issued_at ch\<rparr>)"
      "s' = s\<lparr>rate_limits := (rate_limits s)(user \<mapsto> e),
              pending_challenges := (pending_challenges s)(user \<mapsto> ch),
              audit_log := audit_log s @ [entry_of ts user ''challenge_issued'' True None]\<rparr>"
proof (cases "user \<in> dom (users s)")
  case False
  with assms show thesis by (intro unknown) (auto simp: do_issue_challenge_def ret_def)
next
  case True
  obtain a s1 w1 where a: "check_rate_limit d user s w = (a, s1, w1)" by (metis prod_cases3)
  from a show thesis
  proof (cases rule: check_rate_limit_cases)
    case (panic rl)
    with assms a True show thesis
      by (intro that(2) [where rl = rl and pc = "pending_challenges s"]) (auto simp: do_issue_challenge_def bodies)
  next
    case (answered admit e)
    show thesis
    proof (cases admit)
      case False
      with assms a True answered show thesis
        by (intro that(3) [of e]) (auto simp: do_issue_challenge_def bodies)
    next
      case admit: True
      obtain b s2 w2 where b: "now_unix (os d) s1 w1 = (b, s2, w2)" by (metis prod_cases3)
      from b show thesis
      proof (cases rule: now_unix_cases)
        case panic
        with assms a True answered admit b show thesis
          by (intro that(2) [where rl = "(rate_limits s)(user \<mapsto> e)" and pc = "pending_challenges s"])
            (auto simp: do_issue_challenge_def try_then_def and_then_def)
      next
        case (reads ts)
        obtain ch w3 where ch: "challenge_new (rnd d) ts w2 = (ch, w3)" by fastforce
        then have nonce: "issued_at ch = ts" "length (nonce ch) = 32"
          by (auto simp: challenge_new_def split: prod.splits)
        let ?s3 = "s1\<lparr>pending_challenges := (pending_challenges s1)(user \<mapsto> ch)\<rparr>"
        obtain c s4 w4 where c: "audit d user ''challenge_issued'' True None ?s3 w3 = (c, s4, w4)"
          by (metis prod_cases3)
        from c show thesis
        proof (cases rule: audit_cases)
          case panic
          with assms a True answered admit b reads ch c show thesis
            by (intro that(2) [where rl = "(rate_limits s)(user \<mapsto> e)" and pc = "(pending_challenges s)(user \<mapsto> ch)"])
              (auto simp: do_issue_challenge_def try_then_def and_then_def Let_def)
        next
          case (logged ts')
          with assms a True answered admit b reads ch nonce c show thesis
            by (intro that(4) [of e ch ts'])
              (auto simp: do_issue_challenge_def try_then_def and_then_def ret_def Let_def)
        qed
      qed
    qed
  qed
qed

lemma verify_totp_arm_cases:
  assumes "verify_totp_arm d user rc code s w = (r, s', w')"
  obtains (panic) "r = None" "clock_fails d" "s' = s"
  | (answered) ts ts' valid where "clock_shows d ts" "ts = request_time d w"
      "PqTotp.verify (build d) (sha d) (rec_totp_seed rc) code ts 1 = Some valid"
      "r = Some (Inr \<lparr>vs_valid = valid,
         vs_message = (if valid then ''TOTP verified'' else ''Invalid TOTP code'')\<rparr>)"
      "s' = s\<lparr>audit_log := audit_log s @ [entry_of ts' user ''verify_totp'' valid None]\<rparr>"
proof -
  obtain b s2 w2 where b: "now_unix (os d) s w = (b, s2, w2)" by (metis prod_cases3)
  from b show thesis
  proof (cases rule: now_unix_cases)
    case panic
    with assms b show thesis by (intro that(1)) (auto simp: verify_totp_arm_def and_then_def)
  next
    case (reads ts)
    obtain valid where v: "PqTotp.verify (build d) (sha d) (rec_totp_seed rc) code ts 1 = Some valid"
      using totp.small_window_decides [of 1] by fastforce
    obtain c s3 w3 where c: "audit d user ''verify_totp'' valid None s w2 = (c, s3, w3)"
      by (metis prod_cases3)
    from c show thesis
    proof (cases rule: audit_cases)
      case panic
      with assms b reads v c show thesis by (intro that(1)) (auto simp: verify_totp_arm_def and_then_def)
    next
      case (logged ts')
      with assms b reads v c show thesis
        by (intro that(2) [of ts valid ts']) (auto simp: verify_totp_arm_def and_then_def ret_def)
    qed
  qed
qed

lemma verify_challenge_arm_cases:
  assumes "verify_challenge_arm d user rc n cts sig s w = (r, s', w')"
  obtains (panic) v where "r = None" "clock_fails d"
      "s' = s\<lparr>pending_challenges := map_remove (pending_challenges s) user, verifier := v\<rparr>"
  | (absent) "pending_challenges s user = None" "r = Some (Inl (NoPendingChallenge user))"
      "s' = s\<lparr>pending_challenges := map_remove (pending_challenges s) user\<rparr>"
  | (answered) ch ts ts' res v where "clock_shows d ts" "pending_challenges s user = Some ch"
      "ts = request_time d w"
      "verifier_verify (dil d) (verifier s) ch (response_of (hexc d) n cts sig) (rec_dilithium_public rc) ts = (res, v)"
      "r = Some (Inr \<lparr>vs_valid = is_ok res, vs_message =
         (if is_ok res then ''Challenge-response verified'' else ''Challenge verification failed'')\<rparr>)"
      "s' = s\<lparr>pending_challenges := map_remove (pending_challenges s) user, verifier := v,
              audit_log := audit_log s @ [entry_of ts' user ''verify_challenge'' (is_ok res)
                (map_option challenge_error_text (err_opt res))]\<rparr>"
proof (cases "pending_challenges s user")
  case None
  with assms show thesis by (intro absent) (auto simp: verify_challenge_arm_def ret_def)
next
  case (Some ch)
  let ?s1 = "s\<lparr>pending_challenges := map_remove (pending_challenges s) user\<rparr>"
  obtain b s2 w2 where b: "now_unix (os d) ?s1 w = (b, s2, w2)" by (metis prod_cases3)
  from b show thesis
  proof (cases rule: now_unix_cases)
    case panic
    with assms b Some show thesis
      by (intro that(1) [of "verifier s"]) (auto simp: verify_challenge_arm_def and_then_def Let_def)
  next
    case (reads ts)
    obtain res v where v: "verifier_verify (dil d) (verifier s) ch (response_of (hexc d) n cts sig)
        (rec_dilithium_public rc) ts = (res, v)" by fastforce
    let ?s3 = "?s1\<lparr>verifier := v\<rparr>"
    obtain c s4 w4 where c: "audit d user ''verify_challenge'' (is_ok res)
        (map_option challenge_error_text (err_opt res)) ?s3 w2 = (c, s4, w4)"
      by (metis prod_cases3)
    from c show thesis
    proof (cases rule: audit_cases)
      case panic
      with assms b reads v c Some show thesis
        by (intro that(1) [of v]) (auto simp: verify_challenge_arm_def and_then_def Let_def)
    next
      case (logged ts')
      with assms b reads v c Some show thesis
        by (intro that(3) [where ts = ts and ts' = ts' and ch = ch and res = res and v = v])
          (auto simp: verify_challenge_arm_def and_then_def ret_def Let_def)
    qed
  qed
qed

lemma verify_cases:
  assumes "do_verify d req s w = (r, s', w')"
  obtains (unknown) "users s (vr_user_id req) = None" "r = Some (Inl (UserNotFound (vr_user_id req)))" "s' = s"
  | (panic) rl pc v rc where "r = None" "clock_fails d \<or> limiter d s (vr_user_id req) w = None"
      "users s (vr_user_id req) = Some rc"
      "s' = s\<lparr>rate_limits := rl, pending_challenges := pc, verifier := v\<rparr>"
  | (limited) rc e where "users s (vr_user_id req) = Some rc"
      "limiter d s (vr_user_id req) w = Some (False, e)"
      "r = Some (Inl RateLimited)" "s' = s\<lparr>rate_limits := (rate_limits s)(vr_user_id req \<mapsto> e)\<rparr>"
  | (absent) rc e n cts sig where "users s (vr_user_id req) = Some rc"
      "limiter d s (vr_user_id req) w = Some (True, e)" "vr_method req = ChallengeMethod n cts sig"
      "pending_challenges s (vr_user_id req) = None" "r = Some (Inl (NoPendingChallenge (vr_user_id req)))"
      "s' = s\<lparr>rate_limits := (rate_limits s)(vr_user_id req \<mapsto> e),
              pending_challenges := map_remove (pending_challenges s) (vr_user_id req)\<rparr>"
  | (totp) rc e code ts ts' valid where "users s (vr_user_id req) = Some rc"
      "limiter d s (vr_user_id req) w = Some (True, e)" "vr_method req = Totp code" "clock_shows d ts"
      "PqTotp.verify (build d) (sha d) (rec_totp_seed rc) code ts 1 = Some valid"
      "r = Some (Inr \<lparr>vs_valid = valid,
         vs_message = (if valid then ''TOTP verified'' else ''Invalid TOTP code'')\<rparr>)"
      "s' = s\<lparr>rate_limits := (rate_limits s)(vr_user_id req \<mapsto> e),
              audit_log := audit_log s @ [entry_of ts' (vr_user_id req) ''verify_totp'' valid None]\<rparr>"
  | (challenge) rc e n cts sig ch ts ts' res v where "users s (vr_user_id req) = Some rc"
      "limiter d s (vr_user_id req) w = Some (True, e)" "vr_method req = ChallengeMethod n cts sig"
      "clock_shows d ts" "pending_challenges s (vr_user_id req) = Some ch"
      "verifier_verify (dil d) (verifier s) ch (response_of (hexc d) n cts sig) (rec_dilithium_public rc) ts = (res, v)"
      "r = Some (Inr \<lparr>vs_valid = is_ok res, vs_message =
         (if is_ok res then ''Challenge-response verified'' else ''Challenge verification failed'')\<rparr>)"
      "s' = s\<lparr>rate_limits := (rate_limits s)(vr_user_id req \<mapsto> e),
              pending_challenges := map_remove (pending_challenges s) (vr_user_id req), verifier := v,
              audit_log := audit_log s @ [entry_of ts' (vr_user_id req) ''verify_challenge'' (is_ok res)
                (map_option challenge_error_text (err_opt res))]\<rparr>"
proof (cases "users s (vr_user_id req)")
  case None
  with assms show thesis by (intro unknown) (auto simp: do_verify_def ret_def)
next
  case (Some rc)
  let ?u = "vr_user_id req"
  obtain a s1 w1 where a: "check_rate_limit d ?u s w = (a, s1, w1)" by (metis prod_cases3)
  from a show thesis
  proof (cases rule: check_rate_limit_cases)
    case (panic rl)
    with assms a Some show thesis
      by (intro that(2) [where rl = rl and pc = "pending_challenges s" and v = "verifier s" and rc = rc])
        (auto simp: do_verify_def try_then_def and_then_def)
  next
    case (answered admit e)
    show thesis
    proof (cases admit)
      case False
      with assms a Some answered show thesis
        by (intro that(3) [where e = e and rc = rc]) (auto simp: do_verify_def bodies)
    next
      case admit: True
      show thesis
      proof (cases "vr_method req")
        case (Totp code)
        with assms a Some answered admit
        have "verify_totp_arm d ?u rc code s1 w1 = (r, s', w')"
          by (simp add: do_verify_def try_then_def and_then_def)
        then show thesis
        proof (cases rule: verify_totp_arm_cases)
          case panic
          with Some answered show thesis
            by (intro that(2) [where rl = "(rate_limits s)(?u \<mapsto> e)" and pc = "pending_challenges s"
                and v = "verifier s" and rc = rc]) auto
        next
          case (answered ts ts' valid)
          with Some Totp admit \<open>limiter d s ?u w = _\<close> \<open>s1 = _\<close> show thesis
            by (intro totp [where ts = ts and ts' = ts' and valid = valid and e = e and rc = rc]) auto
        qed
      next
        case (ChallengeMethod n cts sig)
        with assms a Some answered admit
        have "verify_challenge_arm d ?u rc n cts sig s1 w1 = (r, s', w')"
          by (simp add: do_verify_def try_then_def and_then_def)
        then show thesis
        proof (cases rule: verify_challenge_arm_cases)
          case (panic v)
          with Some answered show thesis
            by (intro that(2) [where rl = "(rate_limits s)(?u \<mapsto> e)" and
                pc = "map_remove (pending_challenges s) ?u" and v = v and rc = rc]) auto
        next
          case absent
          with Some answered admit ChallengeMethod show thesis
            by (intro that(4) [where e = e and rc = rc]) auto
        next
          case (answered ch ts ts' res v)
          with Some ChallengeMethod admit \<open>limiter d s ?u w = _\<close> \<open>s1 = _\<close> show thesis
            by (intro challenge [where ts = ts and ts' = ts' and ch = ch and res = res and v = v
                and e = e and rc = rc]) auto
        qed
      qed
    qed
  qed
qed

section \<open>The invariant\<close>

text \<open>
  The invariant of an unpoisoned server: a user has a session or a record, never both; challenges
  and rate entries belong to enrolled users; records and sessions have the documented sizes and
  the server's identity; the limits are those of \<open>new\<close>; the audit log has one \<open>enroll_complete\<close>
  entry per enrolled user and explains exactly the failed challenges.
\<close>

definition accounts_ok :: "server_inner \<Rightarrow> bool" where
  "accounts_ok s \<longleftrightarrow>
     dom (users s) \<inter> dom (pending_enrollments s) = {} \<and>
     dom (pending_challenges s) \<subseteq> dom (users s) \<and>
     dom (rate_limits s) \<subseteq> dom (users s) \<and>
     (\<forall>u rc. users s u = Some rc \<longrightarrow> length (rec_dilithium_public rc) = 1952 \<and>
        length (rec_totp_seed rc) = 32 \<and> rec_server_id rc = server_id s) \<and>
     (\<forall>u se. pending_enrollments s u = Some se \<longrightarrow> se_server_id se = server_id s) \<and>
     (\<forall>u c. pending_challenges s u = Some c \<longrightarrow> length (nonce c) = 32)"

definition limits_ok :: "server_inner \<Rightarrow> bool" where
  "limits_ok s \<longleftrightarrow> max_clock_skew (verifier s) = 60 \<and> max_attempts s = 5 \<and> rate_window s = 300"

definition entry_ok :: "(string \<rightharpoonup> enrollment_record) \<Rightarrow> audit_entry \<Rightarrow> bool" where
  "entry_ok us e \<longleftrightarrow>
     ae_action e \<in> {''enroll_begin'', ''enroll_complete'', ''challenge_issued'', ''verify_totp'', ''verify_challenge''} \<and>
     (ae_action e \<noteq> ''enroll_begin'' \<longrightarrow> us (ae_user_id e) \<noteq> None) \<and>
     (ae_detail e \<noteq> None \<longleftrightarrow> ae_action e = ''verify_challenge'' \<and> \<not> ae_success e)"

definition completions :: "string \<Rightarrow> audit_entry list \<Rightarrow> nat" where
  "completions u log = length (filter (\<lambda>e. ae_user_id e = u \<and> ae_action e = ''enroll_complete'') log)"

definition log_ok :: "server_inner \<Rightarrow> bool" where
  "log_ok s \<longleftrightarrow> list_all (entry_ok (users s)) (audit_log s) \<and>
     (\<forall>u. completions u (audit_log s) = (if users s u = None then 0 else 1))"

definition server_inv :: "pq_auth_server \<Rightarrow> bool" where
  "server_inv srv \<longleftrightarrow> poisoned srv \<or> (accounts_ok (inner srv) \<and> limits_ok (inner srv) \<and> log_ok (inner srv))"

lemma completions_simps [simp]:
  "completions u [] = 0"
  "completions u (log @ [entry_of ts v a ok det]) =
     completions u log + (if v = u \<and> a = ''enroll_complete'' then 1 else 0)"
  by (simp_all add: completions_def)

lemma entry_ok_mono: "entry_ok us e \<Longrightarrow> us \<subseteq>\<^sub>m us' \<Longrightarrow> entry_ok us' e"
  unfolding entry_ok_def map_le_def by (metis domIff)

lemma log_entries_mono: "list_all (entry_ok us) log \<Longrightarrow> us \<subseteq>\<^sub>m us' \<Longrightarrow> list_all (entry_ok us') log"
  by (auto simp: list_all_iff intro: entry_ok_mono)

lemmas inner_ok_defs = accounts_ok_def limits_ok_def log_ok_def

lemma entry_ok_of [simp]:
  "entry_ok us (entry_of ts u a ok det) \<longleftrightarrow>
     a \<in> {''enroll_begin'', ''enroll_complete'', ''challenge_issued'', ''verify_totp'', ''verify_challenge''} \<and>
     (a \<noteq> ''enroll_begin'' \<longrightarrow> us u \<noteq> None) \<and> (det \<noteq> None \<longleftrightarrow> a = ''verify_challenge'' \<and> \<not> ok)"
  by (simp add: entry_ok_def)

lemma err_opt_None [simp]: "err_opt r = None \<longleftrightarrow> is_ok r"
  by (cases r) auto

lemma frame_simps [simp]:
  "accounts_ok (s\<lparr>audit_log := l\<rparr>) = accounts_ok s"
  "accounts_ok (s\<lparr>verifier := v\<rparr>) = accounts_ok s"
  "limits_ok (s\<lparr>audit_log := l\<rparr>) = limits_ok s"
  "limits_ok (s\<lparr>users := us\<rparr>) = limits_ok s"
  "limits_ok (s\<lparr>pending_enrollments := pe\<rparr>) = limits_ok s"
  "limits_ok (s\<lparr>pending_challenges := pc\<rparr>) = limits_ok s"
  "limits_ok (s\<lparr>rate_limits := rl\<rparr>) = limits_ok s"
  "log_ok (s\<lparr>pending_enrollments := pe\<rparr>) = log_ok s"
  "log_ok (s\<lparr>pending_challenges := pc\<rparr>) = log_ok s"
  "log_ok (s\<lparr>rate_limits := rl\<rparr>) = log_ok s"
  "log_ok (s\<lparr>verifier := v\<rparr>) = log_ok s"
  by (simp_all add: inner_ok_defs)

lemma log_ok_push:
  assumes "log_ok s" and "entry_ok (users s) (entry_of ts u a ok det)" and "a \<noteq> ''enroll_complete''"
  shows "log_ok (s\<lparr>audit_log := audit_log s @ [entry_of ts u a ok det]\<rparr>)"
  using assms unfolding log_ok_def by simp

lemma accounts_ok_session:
  assumes "accounts_ok s" and "u \<notin> dom (users s)" and "se_server_id se = server_id s"
  shows "accounts_ok (s\<lparr>pending_enrollments := (pending_enrollments s)(u \<mapsto> se)\<rparr>)"
  using assms unfolding accounts_ok_def by auto

lemma accounts_ok_limit:
  assumes "accounts_ok s" and "u \<in> dom (users s)"
  shows "accounts_ok (s\<lparr>rate_limits := (rate_limits s)(u \<mapsto> e)\<rparr>)"
  using assms unfolding accounts_ok_def by auto

lemma accounts_ok_challenge:
  assumes "accounts_ok s" and "u \<in> dom (users s)" and "length (nonce c) = 32"
    and "pc = (pending_challenges s)(u \<mapsto> c)"
  shows "accounts_ok (s\<lparr>pending_challenges := pc\<rparr>)"
  using assms unfolding accounts_ok_def by auto

lemma accounts_ok_consume:
  assumes "accounts_ok s" and "pc = map_remove (pending_challenges s) u"
  shows "accounts_ok (s\<lparr>pending_challenges := pc\<rparr>)"
  using assms unfolding accounts_ok_def by auto

lemma enroll_begin_inv:
  assumes "do_enroll_begin d user s w = (Some r, s', w')"
    and "accounts_ok s" "limits_ok s" "log_ok s"
  shows "accounts_ok s' \<and> limits_ok s' \<and> log_ok s'"
  using assms(1)
proof (cases rule: enroll_begin_cases)
  case (begun se ts)
  have "log_ok (s\<lparr>pending_enrollments := (pending_enrollments s)(user \<mapsto> se)\<rparr>)" using assms(4) by simp
  from log_ok_push [OF this, of ts user "''enroll_begin''" True None] begun accounts_ok_session assms(2,3)
  show ?thesis by simp
qed (use assms in simp_all)

lemma enroll_complete_inv:
  assumes "do_enroll_complete d req s w = (Some r, s', w')"
    and "accounts_ok s" "limits_ok s" "log_ok s"
  shows "accounts_ok s' \<and> limits_ok s' \<and> log_ok s'"
proof -
  have removed: "accounts_ok (s\<lparr>pending_enrollments := map_remove (pending_enrollments s) u\<rparr>)" for u
    using assms(2) unfolding accounts_ok_def by auto
  from assms(1) show ?thesis
  proof (cases rule: enroll_complete_cases)
    case (enrolled se rc ts)
    have old: "users s (ecr_user_id req) = None" and sid: "se_server_id se = server_id s"
      using assms(2) enrolled(1) unfolding accounts_ok_def by auto
    have "users s \<subseteq>\<^sub>m (users s)(ecr_user_id req \<mapsto> rc)" using old by (auto simp: map_le_def)
    then have "list_all (entry_ok ((users s)(ecr_user_id req \<mapsto> rc))) (audit_log s)"
      using assms(4) log_entries_mono unfolding log_ok_def by blast
    then have "log_ok s'" using assms(4) enrolled(4) old by (simp add: log_ok_def)
    moreover have "accounts_ok s'"
      using assms(2) complete_well_formed [OF enrolled(2)] sid
      unfolding enrolled(4) accounts_ok_def by auto
    ultimately show ?thesis using assms(3) enrolled(4) by simp
  qed (use assms removed in simp_all)
qed

lemma issue_challenge_inv:
  assumes "do_issue_challenge d user s w = (Some r, s', w')"
    and "accounts_ok s" "limits_ok s" "log_ok s"
  shows "accounts_ok s' \<and> limits_ok s' \<and> log_ok s'"
  using assms(1)
proof (cases rule: issue_challenge_cases)
  case (limited e)
  then show ?thesis using assms(2-) accounts_ok_limit by simp
next
  case (issued e ch ts)
  let ?s1 = "s\<lparr>rate_limits := (rate_limits s)(user \<mapsto> e),
    pending_challenges := (pending_challenges s)(user \<mapsto> ch)\<rparr>"
  have "log_ok ?s1" using assms(4) by simp
  moreover have "users ?s1 user \<noteq> None" using issued(1) by auto
  ultimately have "log_ok s'"
    using log_ok_push [of ?s1 ts user "''challenge_issued''" True None] issued(6) by simp
  moreover have "accounts_ok ?s1"
    using issued(1,4) assms(2) by (intro accounts_ok_challenge accounts_ok_limit) simp_all
  ultimately show ?thesis using issued(6) assms(3) by simp
qed (use assms in simp_all)

lemma verify_inv:
  assumes "do_verify d req s w = (Some r, s', w')"
    and "accounts_ok s" "limits_ok s" "log_ok s"
  shows "accounts_ok s' \<and> limits_ok s' \<and> log_ok s'"
proof -
  let ?u = "vr_user_id req"
  have limited: "accounts_ok (s\<lparr>rate_limits := (rate_limits s)(?u \<mapsto> e)\<rparr>)" if "users s ?u = Some rc" for e rc
    using assms(2) that by (intro accounts_ok_limit) auto
  from assms(1) show ?thesis
  proof (cases rule: verify_cases)
    case (absent rc e n cts sig)
    then have "accounts_ok s'"
      using limited [OF absent(1)] by (simp add: accounts_ok_consume)
    then show ?thesis using absent assms(3,4) by simp
  next
    case (totp rc e code ts ts' valid)
    let ?s1 = "s\<lparr>rate_limits := (rate_limits s)(?u \<mapsto> e)\<rparr>"
    have "log_ok ?s1" "users ?s1 ?u \<noteq> None" using assms(4) totp(1) by simp_all
    with log_ok_push [of ?s1 ts' ?u "''verify_totp''" valid None] totp assms(3) limited
    show ?thesis by simp
  next
    case (challenge rc e n cts sig ch ts ts' res v)
    let ?s1 = "s\<lparr>rate_limits := (rate_limits s)(?u \<mapsto> e),
      pending_challenges := map_remove (pending_challenges s) ?u, verifier := v\<rparr>"
    have "accounts_ok ?s1" using challenge(1) limited by (simp add: accounts_ok_consume)
    moreover have "max_clock_skew v = 60"
      using verifier_verify_skew [of "dil d" "verifier s" ch "response_of (hexc d) n cts sig"
          "rec_dilithium_public rc" ts] challenge(6) assms(3) by (simp add: limits_ok_def)
    then have "limits_ok ?s1" using assms(3) by (simp add: limits_ok_def)
    moreover have "log_ok ?s1" "users ?s1 ?u \<noteq> None" using assms(4) challenge(1) by simp_all
    ultimately show ?thesis
      using log_ok_push [of ?s1 ts' ?u "''verify_challenge''" "is_ok res"
          "map_option challenge_error_text (err_opt res)"] challenge(8) by simp
  qed (use assms limited in simp_all)
qed

lemmas operation_defs = enroll_begin_def enroll_complete_def issue_challenge_def server_verify_def
  read_audit_log_def is_enrolled_def

lemma with_lock_inv:
  assumes run: "with_lock m srv w = (r, srv', w')" and "server_inv srv"
    and body: "\<And>x s'. m (inner srv) w = (Some x, s', w') \<Longrightarrow> accounts_ok (inner srv) \<Longrightarrow>
      limits_ok (inner srv) \<Longrightarrow> log_ok (inner srv) \<Longrightarrow> accounts_ok s' \<and> limits_ok s' \<and> log_ok s'"
  shows "server_inv srv'"
  using run
proof (cases rule: with_lock_cases)
  case locked
  with assms(2) show ?thesis by simp
next
  case ran
  with assms(2) body show ?thesis by (cases r) (auto simp: server_inv_def)
qed

lemma server_step_inv:
  assumes "server_step d srv srv'" and "server_inv srv"
  shows "server_inv srv'"
  using assms(1)
proof cases
  case (step_enroll_begin user w r w')
  from this [unfolded operation_defs] assms(2) show ?thesis by (rule with_lock_inv) (rule enroll_begin_inv)
next
  case (step_enroll_complete req w r w')
  from this [unfolded operation_defs] assms(2) show ?thesis by (rule with_lock_inv) (rule enroll_complete_inv)
next
  case (step_issue_challenge user w r w')
  from this [unfolded operation_defs] assms(2) show ?thesis by (rule with_lock_inv) (rule issue_challenge_inv)
next
  case (step_verify vreq w r w')
  from this [unfolded operation_defs] assms(2) show ?thesis by (rule with_lock_inv) (rule verify_inv)
next
  case (step_audit_log w r w')
  then show ?thesis unfolding operation_defs by (rule with_lock_inv) (use assms(2) in \<open>auto simp: ret_def\<close>)
next
  case (step_is_enrolled user w r w')
  then show ?thesis unfolding operation_defs by (rule with_lock_inv) (use assms(2) in \<open>auto simp: ret_def\<close>)
qed

lemma server_new_inv: "server_inv (server_new sid)"
  by (simp add: server_inv_def server_new_def inner_new_def inner_ok_defs verifier_new_def)

interpretation server: transition_system "\<lambda>srv. \<exists>sid. srv = server_new sid" "server_step d" server_inv for d
  by unfold_locales (auto intro: server_new_inv server_step_inv)

section \<open>The order every step climbs\<close>

text \<open>Whatever happens, panics included: records stay, the audit log is only appended to, the
  identity and the poison flag stay.\<close>

definition server_below :: "pq_auth_server \<Rightarrow> pq_auth_server \<Rightarrow> bool" where
  "server_below srv srv' \<longleftrightarrow>
     (poisoned srv \<longrightarrow> srv' = srv) \<and>
     (\<not> poisoned srv \<longrightarrow> users (inner srv) \<subseteq>\<^sub>m users (inner srv')) \<and>
     prefix (audit_log (inner srv)) (audit_log (inner srv')) \<and>
     server_id (inner srv') = server_id (inner srv)"

lemma server_below_trans: "server_below s t \<Longrightarrow> server_below t u \<Longrightarrow> server_below s u"
  unfolding server_below_def by (metis map_le_trans prefix_order.trans)

lemma with_lock_below:
  assumes run: "with_lock m srv w = (r, srv', w')" and "server_inv srv"
    and body: "\<And>r s'. m (inner srv) w = (r, s', w') \<Longrightarrow> accounts_ok (inner srv) \<Longrightarrow>
      users (inner srv) \<subseteq>\<^sub>m users s' \<and> prefix (audit_log (inner srv)) (audit_log s') \<and>
      server_id s' = server_id (inner srv)"
  shows "server_below srv srv'"
  using run
proof (cases rule: with_lock_cases)
  case locked
  then show ?thesis by (simp add: server_below_def)
next
  case ran
  then show ?thesis using body [OF ran(2)] assms(2) by (auto simp: server_below_def server_inv_def)
qed

definition body_climbs :: "server_inner \<Rightarrow> server_inner \<Rightarrow> bool" where
  "body_climbs s s' \<longleftrightarrow> users s \<subseteq>\<^sub>m users s' \<and> prefix (audit_log s) (audit_log s') \<and> server_id s' = server_id s"

lemma enroll_begin_climbs: "do_enroll_begin d user s w = (r, s', w') \<Longrightarrow> body_climbs s s'"
  by (erule enroll_begin_cases) (simp_all add: body_climbs_def)

lemma issue_challenge_climbs: "do_issue_challenge d user s w = (r, s', w') \<Longrightarrow> body_climbs s s'"
  by (erule issue_challenge_cases) (simp_all add: body_climbs_def)

lemma verify_climbs: "do_verify d req s w = (r, s', w') \<Longrightarrow> body_climbs s s'"
  by (erule verify_cases) (simp_all add: body_climbs_def)

lemma enroll_complete_climbs:
  assumes "do_enroll_complete d req s w = (r, s', w')" and "accounts_ok s"
  shows "body_climbs s s'"
proof -
  have "users s u = None" if "pending_enrollments s u = Some se" for u se
    using assms(2) that unfolding accounts_ok_def by auto
  then have "users s \<subseteq>\<^sub>m (users s)(u \<mapsto> rc)" if "pending_enrollments s u = Some se" for u se rc
    using that by (auto simp: map_le_def)
  with assms(1) show ?thesis
    by (elim enroll_complete_cases) (simp_all add: body_climbs_def)
qed

lemma server_step_below:
  assumes "server_step d srv srv'" and "server_inv srv"
  shows "server_below srv srv'"
  using assms(1)
proof cases
  case (step_enroll_begin user w r w')
  from this [unfolded operation_defs] assms(2) show ?thesis by (rule with_lock_below) (erule enroll_begin_climbs [unfolded body_climbs_def])
next
  case (step_enroll_complete req w r w')
  from this [unfolded operation_defs] assms(2) show ?thesis by (rule with_lock_below) (erule (1) enroll_complete_climbs [unfolded body_climbs_def])
next
  case (step_issue_challenge user w r w')
  from this [unfolded operation_defs] assms(2) show ?thesis by (rule with_lock_below) (erule issue_challenge_climbs [unfolded body_climbs_def])
next
  case (step_verify vreq w r w')
  from this [unfolded operation_defs] assms(2) show ?thesis by (rule with_lock_below) (erule verify_climbs [unfolded body_climbs_def])
next
  case (step_audit_log w r w')
  then show ?thesis unfolding operation_defs using assms(2) by (rule with_lock_below) (auto simp: ret_def)
next
  case (step_is_enrolled user w r w')
  then show ?thesis unfolding operation_defs using assms(2) by (rule with_lock_below) (auto simp: ret_def)
qed

interpretation server: climbing_system "\<lambda>srv. \<exists>sid. srv = server_new sid" "server_step d" server_inv server_below for d
proof (unfold_locales, goal_cases)
  case (1 s)
  then show ?case by (simp add: server_below_def)
next
  case (2 s t u)
  then show ?case by (rule server_below_trans)
next
  case (3 s t)
  then show ?case by (rule server_step_below)
qed

end
