(* ===== verification/Json.thy ===== *)
theory Json
  imports PqPrelude "HOL-Library.Multiset" "HOL-Library.Char_ord" "HOL-Library.List_Lexorder"
begin

text \<open>
  JSON values, the readers and writers of the standard types, and what the derives of \<open>serde\<close> make of a
  struct. A writer gives the value that \<open>serde_json\<close> prints; a reader accepts what the derived
  \<open>Deserialize\<close> accepts, with \<open>None\<close> for an error. Printing and parsing text is left to the crate.
\<close>

named_theorems json_simps \<comment> \<open>reading what was written\<close>

section \<open>Values\<close>

text \<open>\<open>JNum\<close> is a number without sign, fraction and exponent, \<open>JOther\<close> any other number, by its text.\<close>

datatype json =
    JNull
  | JBool bool
  | JNum nat
  | JOther string
  | JStr string
  | JArr "json list"
  | JObj "(string \<times> json) list"

text \<open>\<open>serde_json::to_value\<close>: the objects of a \<open>Value\<close> are \<open>BTreeMap\<close>s, sorted by their keys.\<close>

primrec to_value :: "json \<Rightarrow> json" where
  "to_value JNull = JNull"
| "to_value (JBool b) = JBool b"
| "to_value (JNum n) = JNum n"
| "to_value (JOther t) = JOther t"
| "to_value (JStr s) = JStr s"
| "to_value (JArr xs) = JArr (map to_value xs)"
| "to_value (JObj fs) = JObj (sort_key fst (map (map_prod id to_value) fs))"

text \<open>The values that the writers produce: every number is one of 64 bits.\<close>

fun plain :: "json \<Rightarrow> bool" where
  "plain (JNum n) = (n < 2 ^ 64)"
| "plain (JOther t) = False"
| "plain (JArr xs) = list_all plain xs"
| "plain (JObj fs) = list_all (\<lambda>f. plain (snd f)) fs"
| "plain _ = True"

text \<open>
  \<open>serde_json\<close>: printing a value and parsing a text, whose type is left open. Printing a plain value
  succeeds, and parsing the text returns the value.
\<close>

record 'j json_crate =
  to_json :: "json \<Rightarrow> string + 'j"
  from_json :: "'j \<Rightarrow> string + json"

definition json_law :: "'j json_crate \<Rightarrow> bool" where
  "json_law j \<longleftrightarrow> (\<forall>v. plain v \<longrightarrow> (\<exists>t. to_json j v = Inr t \<and> from_json j t = Inr v))"

text \<open>\<open>serde_json::from_str\<close> for a type with the given reader.\<close>

definition from_str :: "'j json_crate \<Rightarrow> (json \<Rightarrow> 'a option) \<Rightarrow> 'j \<Rightarrow> 'a option" where
  "from_str j read t = (case from_json j t of Inl e \<Rightarrow> None | Inr v \<Rightarrow> read v)"

text \<open>A value survives \<open>to_value\<close>, and printing and parsing.\<close>

definition round_trips :: "'j json_crate \<Rightarrow> ('a \<Rightarrow> json) \<Rightarrow> (json \<Rightarrow> 'a option) \<Rightarrow> 'a \<Rightarrow> bool" where
  "round_trips j enc dec x \<longleftrightarrow> dec (to_value (enc x)) = Some x \<and>
     (case to_json j (enc x) of Inl e \<Rightarrow> False | Inr t \<Rightarrow> from_str j dec t = Some x)"

section \<open>Standard types\<close>

fun read_bool :: "json \<Rightarrow> bool option" where
  "read_bool (JBool b) = Some b"
| "read_bool _ = None"

fun read_string :: "json \<Rightarrow> string option" where
  "read_string (JStr s) = Some s"
| "read_string _ = None"

text \<open>\<open>u8\<close>, \<open>u32\<close>, \<open>u64\<close>: out of range is an error.\<close>

definition write_uint :: "'a::len word \<Rightarrow> json" where
  "write_uint x = JNum (unat x)"

fun read_uint :: "json \<Rightarrow> 'a::len word option" where
  "read_uint (JNum n) = (if n < 2 ^ LENGTH('a) then Some (word_of_nat n) else None)"
| "read_uint _ = None"

text \<open>\<open>Vec<T>\<close>\<close>

definition write_vec :: "('a \<Rightarrow> json) \<Rightarrow> 'a list \<Rightarrow> json" where
  "write_vec f xs = JArr (map f xs)"

fun read_vec :: "(json \<Rightarrow> 'a option) \<Rightarrow> json \<Rightarrow> 'a list option" where
  "read_vec f (JArr xs) = those (map f xs)"
| "read_vec f _ = None"

text \<open>\<open>Vec<u8>\<close> and \<open>[u8; N]\<close> are arrays of numbers; the second has exactly \<open>N\<close> of them.\<close>

definition write_bytes :: "bytes \<Rightarrow> json" where
  "write_bytes = write_vec write_uint"

definition read_bytes :: "json \<Rightarrow> bytes option" where
  "read_bytes = read_vec read_uint"

definition read_array :: "nat \<Rightarrow> json \<Rightarrow> bytes option" where
  "read_array n j = Option.bind (read_bytes j) (try_into_array n)"

text \<open>\<open>Option<T>\<close>\<close>

fun write_option :: "('a \<Rightarrow> json) \<Rightarrow> 'a option \<Rightarrow> json" where
  "write_option f None = JNull"
| "write_option f (Some x) = f x"

definition read_option :: "(json \<Rightarrow> 'a option) \<Rightarrow> json \<Rightarrow> 'a option option" where
  "read_option f j = (if j = JNull then Some None else map_option Some (f j))"

section \<open>Structs\<close>

text \<open>
  The fields of a struct. From an object: unknown keys are ignored, a key of the struct that occurs twice
  is an error. From an array: one element per field, in the order of the declaration.
\<close>

definition object_fields :: "string list \<Rightarrow> json \<Rightarrow> (string \<rightharpoonup> json) option" where
  "object_fields names j =
     (case j of
        JObj fs \<Rightarrow>
          (let known = filter (\<lambda>f. fst f \<in> set names) fs
           in if distinct (map fst known) then Some (map_of known) else None)
      | _ \<Rightarrow> None)"

definition struct_fields :: "string list \<Rightarrow> json \<Rightarrow> (string \<rightharpoonup> json) option" where
  "struct_fields names j =
     (case j of
        JArr xs \<Rightarrow> if length xs = length names then Some (map_of (zip names xs)) else None
      | _ \<Rightarrow> object_fields names j)"

text \<open>A missing field is an error, except for one of an \<open>Option\<close> type.\<close>

definition field :: "(string \<rightharpoonup> json) \<Rightarrow> string \<Rightarrow> (json \<Rightarrow> 'a option) \<Rightarrow> 'a option" where
  "field m name read = Option.bind (m name) read"

definition option_field :: "(string \<rightharpoonup> json) \<Rightarrow> string \<Rightarrow> (json \<Rightarrow> 'a option) \<Rightarrow> 'a option option" where
  "option_field m name read = (case m name of None \<Rightarrow> Some None | Some j \<Rightarrow> read_option read j)"

section \<open>The contract of a writer and its reader\<close>

text \<open>
  Whatever valid value is written is read back, written values can be printed, and a reader does not
  depend on the order of keys.
\<close>

locale codec =
  fixes enc :: "'a \<Rightarrow> json" and dec :: "json \<Rightarrow> 'a option" and valid :: "'a \<Rightarrow> bool"
  assumes reads: "valid x \<Longrightarrow> dec (enc x) = Some x"
    and writes_plain: "plain (enc x)"
    and order_free: "dec (to_value j) = dec j"
begin

lemma write_inj: "valid x \<Longrightarrow> valid y \<Longrightarrow> enc x = enc y \<Longrightarrow> x = y"
  using reads by (metis option.inject)

lemma reads_value: "valid x \<Longrightarrow> dec (to_value (enc x)) = Some x"
  by (simp add: order_free reads)

lemma reads_vec: "list_all valid xs \<Longrightarrow> read_vec dec (write_vec enc xs) = Some xs"
  by (induction xs) (simp_all add: write_vec_def reads)

lemma vec_plain: "plain (write_vec enc xs)"
  by (simp add: write_vec_def list_all_iff writes_plain)

lemma vec_order_free: "read_vec dec (to_value j) = read_vec dec j"
  by (cases j) (simp_all add: comp_def order_free)

lemma option_order_free: "read_option dec (to_value j) = read_option dec j"
  by (cases j) (simp_all add: read_option_def order_free [of "JObj _", simplified] order_free [of "JArr _", simplified])

lemma reads_printed:
  assumes "json_law j" and "valid x"
  obtains t where "to_json j (enc x) = Inr t" and "from_str j dec t = Some x"
  using assms writes_plain [of x] reads [of x] unfolding json_law_def from_str_def by fastforce

lemma round_trip: "json_law j \<Longrightarrow> valid x \<Longrightarrow> round_trips j enc dec x"
  unfolding round_trips_def using reads_value by (elim reads_printed [of j x]) simp_all

end

lemma write_uint_plain:
  assumes "LENGTH('a::len) \<le> 64"
  shows "plain (write_uint (x :: 'a word))"
proof -
  have "unat x < 2 ^ LENGTH('a)" by (rule unsigned_less)
  also have "\<dots> \<le> 2 ^ 64" using assms by (intro power_increasing) simp_all
  finally show ?thesis by (simp add: write_uint_def)
qed

lemma read_write_uint [json_simps, simp]: "read_uint (write_uint x) = Some x"
  by (simp add: write_uint_def)

lemma read_uint_value [simp]: "read_uint (to_value j) = read_uint j"
  by (cases j) simp_all

interpretation u8: codec "write_uint :: byte \<Rightarrow> json" read_uint "\<lambda>_. True"
  by unfold_locales (simp_all add: write_uint_plain)

interpretation u32: codec "write_uint :: u32 \<Rightarrow> json" read_uint "\<lambda>_. True"
  by unfold_locales (simp_all add: write_uint_plain)

interpretation u64: codec "write_uint :: u64 \<Rightarrow> json" read_uint "\<lambda>_. True"
  by unfold_locales (simp_all add: write_uint_plain)

interpretation string: codec JStr read_string "\<lambda>_. True"
proof unfold_locales
  show "read_string (to_value j) = read_string j" for j by (cases j) simp_all
qed simp_all

interpretation bool: codec JBool read_bool "\<lambda>_. True"
proof unfold_locales
  show "read_bool (to_value j) = read_bool j" for j by (cases j) simp_all
qed simp_all

interpretation bytes: codec write_bytes read_bytes "\<lambda>_. True"
  by unfold_locales (simp_all add: write_bytes_def read_bytes_def u8.reads_vec u8.vec_plain u8.vec_order_free list_all_iff)

lemmas [json_simps, simp] = bytes.reads string.reads bool.reads
lemmas [simp] = bytes.order_free string.order_free bool.order_free string.option_order_free
lemmas written_plain = u8.writes_plain u32.writes_plain u64.writes_plain bytes.writes_plain

lemma read_array_write [json_simps, simp]:
  "read_array n (write_bytes bs) = (if length bs = n then Some bs else None)"
  by (simp add: read_array_def try_into_array_def)

lemma read_array_value [simp]: "read_array n (to_value j) = read_array n j"
  by (simp add: read_array_def)

lemma read_option_simps [json_simps, simp]:
  "read_option read_string (write_option JStr x) = Some x"
  by (cases x) (simp_all add: read_option_def)

subsection \<open>Structs that are read back\<close>

lemma object_fields_written:
  "distinct (map fst fs) \<Longrightarrow> set (map fst fs) \<subseteq> set names \<Longrightarrow> object_fields names (JObj fs) = Some (map_of fs)"
  by (subgoal_tac "filter (\<lambda>f. fst f \<in> set names) fs = fs") (auto simp: object_fields_def filter_id_conv)

lemma struct_fields_written [json_simps]:
  "distinct (map fst fs) \<Longrightarrow> set (map fst fs) \<subseteq> set names \<Longrightarrow> struct_fields names (JObj fs) = Some (map_of fs)"
  by (simp add: struct_fields_def object_fields_written)

lemma map_of_sorted:
  assumes "distinct (map fst fs)"
  shows "map_of (sort_key fst fs) = map_of fs"
proof -
  have "mset (map fst (sort_key fst fs)) = mset (map fst fs)" by simp
  then have "distinct (map fst (sort_key fst fs))" using assms by (metis mset_eq_imp_distinct_iff)
  then show ?thesis using assms by (subst map_of_inject_set) simp_all
qed

lemma object_fields_value:
  "object_fields names (to_value j) = map_option (\<lambda>m k. map_option to_value (m k)) (object_fields names j)"
proof (cases j)
  case (JObj fs)
  let ?known = "filter (\<lambda>f. fst f \<in> set names) fs"
  have known: "filter (\<lambda>f. fst f \<in> set names) (sort_key fst (map (map_prod id to_value) fs)) =
      sort_key fst (map (map_prod id to_value) ?known)"
    by (simp add: filter_sort filter_map comp_def)
  have keys: "map fst (map (map_prod id to_value) ?known) = map fst ?known" by simp
  have dist: "distinct (map fst (sort_key fst (map (map_prod id to_value) ?known))) \<longleftrightarrow> distinct (map fst ?known)"
    by (rule mset_eq_imp_distinct_iff) (simp only: mset_map mset_sort keys [symmetric])
  show ?thesis
  proof (cases "distinct (map fst ?known)")
    case True
    then have "map_of (sort_key fst (map (map_prod id to_value) ?known)) = map_of (map (map_prod id to_value) ?known)"
      using keys by (metis map_of_sorted)
    also have "\<dots> = map_option to_value \<circ> map_of ?known" by (simp add: map_prod_def map_of_map)
    finally show ?thesis using True dist by (simp add: JObj object_fields_def known Let_def comp_def)
  qed (simp add: JObj object_fields_def known Let_def dist)
qed (simp_all add: object_fields_def)

lemma map_of_zip_map: "map_of (zip names (map f xs)) = map_option f \<circ> map_of (zip names xs)"
  by (induction names xs rule: list_induct2') (auto simp: fun_eq_iff)

lemma struct_fields_value [simp]:
  "struct_fields names (to_value j) = map_option (\<lambda>m k. map_option to_value (m k)) (struct_fields names j)"
proof (cases j)
  case (JArr xs)
  then show ?thesis by (simp add: struct_fields_def map_of_zip_map comp_def)
next
  case (JObj fs)
  then show ?thesis using object_fields_value [of names "JObj fs"] by (simp add: struct_fields_def)
qed (simp_all add: struct_fields_def object_fields_def)

lemma field_value [simp]:
  "(\<And>j. read (to_value j) = read j) \<Longrightarrow> field (\<lambda>k. map_option to_value (m k)) name read = field m name read"
  by (cases "m name") (simp_all add: field_def)

lemma option_field_value [simp]:
  "(\<And>j. read_option read (to_value j) = read_option read j) \<Longrightarrow>
     option_field (\<lambda>k. map_option to_value (m k)) name read = option_field m name read"
  by (cases "m name") (simp_all add: option_field_def)

lemma field_upd [json_simps]:
  "field (m(k \<mapsto> v)) name read = (if name = k then read v else field m name read)"
  "option_field (m(k \<mapsto> v)) name read = (if name = k then read_option read v else option_field m name read)"
  by (simp_all add: field_def option_field_def)

lemma field_empty [json_simps]: "field Map.empty name read = None" "option_field Map.empty name read = Some None"
  by (simp_all add: field_def option_field_def)

lemma map_option_bind [simp]: "Option.bind (map_option f x) g = Option.bind x (\<lambda>y. g (f y))"
  by (cases x) simp_all

end
