(* ===== verification/Serde.thy ===== *)
theory Serde
  imports Json Hybrid Kyber Challenge Enrollment Recovery Keystore Server
begin

text \<open>
  What the structs of \<open>src/\<close> are as JSON: for each type that derives \<open>Serialize\<close> and \<open>Deserialize\<close> its
  writer and its reader, with the attributes that the source puts on the fields (\<open>skip_serializing\<close>,
  \<open>flatten\<close>, \<open>untagged\<close>). Each writer and reader of a type without skipped fields fulfils the contract
  \<open>codec\<close> of theory Json; a type with a skipped field cannot read what it writes.
\<close>

section \<open>Keys: \<open>skip_serializing\<close>\<close>

definition keypair_json :: "keypair \<Rightarrow> json" where
  "keypair_json kp = JObj [(''public_key'', write_bytes (public_key kp))]"

definition keypair_of_json :: "json \<Rightarrow> keypair option" where
  "keypair_of_json j = do {
     m \<leftarrow> struct_fields [''public_key'', ''secret_key''] j;
     pk \<leftarrow> field m ''public_key'' read_bytes;
     sk \<leftarrow> field m ''secret_key'' read_bytes;
     Some \<lparr>public_key = pk, secret_key = sk\<rparr> }"

definition kyber_keypair_json :: "kyber_keypair \<Rightarrow> json" where
  "kyber_keypair_json kp = JObj [(''public_key'', write_bytes (kyber_public kp))]"

definition kyber_keypair_of_json :: "json \<Rightarrow> kyber_keypair option" where
  "kyber_keypair_of_json j = do {
     m \<leftarrow> struct_fields [''public_key'', ''secret_key''] j;
     pk \<leftarrow> field m ''public_key'' read_bytes;
     sk \<leftarrow> field m ''secret_key'' read_bytes;
     Some \<lparr>kyber_public = pk, kyber_secret = sk\<rparr> }"

definition hybrid_keypair_json :: "hybrid_keypair \<Rightarrow> json" where
  "hybrid_keypair_json kp = JObj
     [(''ed25519_public'', write_bytes (ed25519_public kp)), (''dilithium_public'', write_bytes (dilithium_public kp))]"

definition hybrid_keypair_of_json :: "json \<Rightarrow> hybrid_keypair option" where
  "hybrid_keypair_of_json j = do {
     m \<leftarrow> struct_fields [''ed25519_public'', ''ed25519_secret'', ''dilithium_public'', ''dilithium_secret''] j;
     ep \<leftarrow> field m ''ed25519_public'' read_bytes;
     es \<leftarrow> field m ''ed25519_secret'' read_bytes;
     dp \<leftarrow> field m ''dilithium_public'' read_bytes;
     ds \<leftarrow> field m ''dilithium_secret'' read_bytes;
     Some \<lparr>ed25519_public = ep, ed25519_secret = es, dilithium_public = dp, dilithium_secret = ds\<rparr> }"

definition server_enrollment_json :: "server_enrollment \<Rightarrow> json" where
  "server_enrollment_json se = JObj
     [(''kyber_public_key'', write_bytes (se_kyber_public se)), (''server_id'', JStr (se_server_id se))]"

definition server_enrollment_of_json :: "json \<Rightarrow> server_enrollment option" where
  "server_enrollment_of_json j = do {
     m \<leftarrow> struct_fields [''kyber_public_key'', ''kyber_secret_key'', ''server_id''] j;
     pk \<leftarrow> field m ''kyber_public_key'' read_bytes;
     sk \<leftarrow> field m ''kyber_secret_key'' read_bytes;
     sid \<leftarrow> field m ''server_id'' read_string;
     Some \<lparr>se_kyber_public = pk, se_kyber_secret = sk, se_server_id = sid\<rparr> }"

section \<open>Messages and records of the library\<close>

definition hybrid_public_key_json :: "hybrid_public_key \<Rightarrow> json" where
  "hybrid_public_key_json pk = JObj
     [(''ed25519'', write_bytes (hpk_ed25519 pk)), (''dilithium'', write_bytes (hpk_dilithium pk))]"

definition hybrid_public_key_of_json :: "json \<Rightarrow> hybrid_public_key option" where
  "hybrid_public_key_of_json j = do {
     m \<leftarrow> struct_fields [''ed25519'', ''dilithium''] j;
     e \<leftarrow> field m ''ed25519'' read_bytes;
     d \<leftarrow> field m ''dilithium'' read_bytes;
     Some \<lparr>hpk_ed25519 = e, hpk_dilithium = d\<rparr> }"

definition challenge_json :: "challenge \<Rightarrow> json" where
  "challenge_json c = JObj [(''nonce'', write_bytes (nonce c)), (''issued_at'', write_uint (issued_at c))]"

definition challenge_of_json :: "json \<Rightarrow> challenge option" where
  "challenge_of_json j = do {
     m \<leftarrow> struct_fields [''nonce'', ''issued_at''] j;
     n \<leftarrow> field m ''nonce'' (read_array 32);
     t \<leftarrow> field m ''issued_at'' read_uint;
     Some \<lparr>nonce = n, issued_at = t\<rparr> }"

definition challenge_response_json :: "challenge_response \<Rightarrow> json" where
  "challenge_response_json r = JObj
     [(''nonce'', write_bytes (resp_nonce r)), (''client_timestamp'', write_uint (client_timestamp r)),
      (''signature'', write_bytes (signature r))]"

definition challenge_response_of_json :: "json \<Rightarrow> challenge_response option" where
  "challenge_response_of_json j = do {
     m \<leftarrow> struct_fields [''nonce'', ''client_timestamp'', ''signature''] j;
     n \<leftarrow> field m ''nonce'' (read_array 32);
     t \<leftarrow> field m ''client_timestamp'' read_uint;
     sg \<leftarrow> field m ''signature'' read_bytes;
     Some \<lparr>resp_nonce = n, client_timestamp = t, signature = sg\<rparr> }"

definition enrollment_challenge_json :: "enrollment_challenge \<Rightarrow> json" where
  "enrollment_challenge_json c = JObj
     [(''kyber_public_key'', write_bytes (ec_kyber_public c)), (''server_id'', JStr (ec_server_id c))]"

definition enrollment_challenge_of_json :: "json \<Rightarrow> enrollment_challenge option" where
  "enrollment_challenge_of_json j = do {
     m \<leftarrow> struct_fields [''kyber_public_key'', ''server_id''] j;
     pk \<leftarrow> field m ''kyber_public_key'' read_bytes;
     sid \<leftarrow> field m ''server_id'' read_string;
     Some \<lparr>ec_kyber_public = pk, ec_server_id = sid\<rparr> }"

definition enrollment_response_json :: "enrollment_response \<Rightarrow> json" where
  "enrollment_response_json r = JObj
     [(''ciphertext'', write_bytes (er_ciphertext r)),
      (''dilithium_public_key'', write_bytes (er_dilithium_public r))]"

definition enrollment_response_of_json :: "json \<Rightarrow> enrollment_response option" where
  "enrollment_response_of_json j = do {
     m \<leftarrow> struct_fields [''ciphertext'', ''dilithium_public_key''] j;
     ct \<leftarrow> field m ''ciphertext'' read_bytes;
     pk \<leftarrow> field m ''dilithium_public_key'' read_bytes;
     Some \<lparr>er_ciphertext = ct, er_dilithium_public = pk\<rparr> }"

definition enrollment_record_json :: "enrollment_record \<Rightarrow> json" where
  "enrollment_record_json r = JObj
     [(''dilithium_public_key'', write_bytes (rec_dilithium_public r)),
      (''totp_seed'', write_bytes (rec_totp_seed r)), (''server_id'', JStr (rec_server_id r))]"

definition enrollment_record_of_json :: "json \<Rightarrow> enrollment_record option" where
  "enrollment_record_of_json j = do {
     m \<leftarrow> struct_fields [''dilithium_public_key'', ''totp_seed'', ''server_id''] j;
     pk \<leftarrow> field m ''dilithium_public_key'' read_bytes;
     seed \<leftarrow> field m ''totp_seed'' read_bytes;
     sid \<leftarrow> field m ''server_id'' read_string;
     Some \<lparr>rec_dilithium_public = pk, rec_totp_seed = seed, rec_server_id = sid\<rparr> }"

section \<open>Stored files\<close>

definition hashed_code_json :: "hashed_recovery_code \<Rightarrow> json" where
  "hashed_code_json h = JObj [(''hash'', JStr (hash h)), (''used'', JBool (used h))]"

definition hashed_code_of_json :: "json \<Rightarrow> hashed_recovery_code option" where
  "hashed_code_of_json j = do {
     m \<leftarrow> struct_fields [''hash'', ''used''] j;
     h \<leftarrow> field m ''hash'' read_string;
     u \<leftarrow> field m ''used'' read_bool;
     Some \<lparr>hash = h, used = u\<rparr> }"

definition code_set_json :: "recovery_code_set \<Rightarrow> json" where
  "code_set_json s = JObj
     [(''codes'', write_vec hashed_code_json (codes s)), (''remaining'', write_uint (remaining s))]"

definition code_set_of_json :: "json \<Rightarrow> recovery_code_set option" where
  "code_set_of_json j = do {
     m \<leftarrow> struct_fields [''codes'', ''remaining''] j;
     cs \<leftarrow> field m ''codes'' (read_vec hashed_code_of_json);
     n \<leftarrow> field m ''remaining'' read_uint;
     Some \<lparr>codes = cs, remaining = n\<rparr> }"

definition keystore_json :: "encrypted_keystore \<Rightarrow> json" where
  "keystore_json k = JObj
     [(''salt'', JStr (ks_salt k)), (''nonce'', JStr (ks_nonce k)), (''ciphertext'', JStr (ks_ciphertext k)),
      (''key_type'', JStr (ks_key_type k)), (''version'', write_uint (ks_version k))]"

definition keystore_of_json :: "json \<Rightarrow> encrypted_keystore option" where
  "keystore_of_json j = do {
     m \<leftarrow> struct_fields [''salt'', ''nonce'', ''ciphertext'', ''key_type'', ''version''] j;
     salt \<leftarrow> field m ''salt'' read_string;
     n \<leftarrow> field m ''nonce'' read_string;
     ct \<leftarrow> field m ''ciphertext'' read_string;
     kt \<leftarrow> field m ''key_type'' read_string;
     v \<leftarrow> field m ''version'' read_uint;
     Some \<lparr>ks_salt = salt, ks_nonce = n, ks_ciphertext = ct, ks_key_type = kt, ks_version = v\<rparr> }"

definition audit_entry_json :: "audit_entry \<Rightarrow> json" where
  "audit_entry_json a = JObj
     [(''timestamp'', write_uint (ae_timestamp a)), (''user_id'', JStr (ae_user_id a)),
      (''action'', JStr (ae_action a)), (''success'', JBool (ae_success a)),
      (''detail'', write_option JStr (ae_detail a))]"

definition audit_entry_of_json :: "json \<Rightarrow> audit_entry option" where
  "audit_entry_of_json j = do {
     m \<leftarrow> struct_fields [''timestamp'', ''user_id'', ''action'', ''success'', ''detail''] j;
     t \<leftarrow> field m ''timestamp'' read_uint;
     u \<leftarrow> field m ''user_id'' read_string;
     a \<leftarrow> field m ''action'' read_string;
     ok \<leftarrow> field m ''success'' read_bool;
     de \<leftarrow> option_field m ''detail'' read_string;
     Some \<lparr>ae_timestamp = t, ae_user_id = u, ae_action = a, ae_success = ok, ae_detail = de\<rparr> }"

section \<open>The API\<close>

record enroll_begin_request =
  ebr_user_id :: string

record challenge_request =
  cr_user_id :: string

definition begin_request_json :: "enroll_begin_request \<Rightarrow> json" where
  "begin_request_json r = JObj [(''user_id'', JStr (ebr_user_id r))]"

definition begin_request_of_json :: "json \<Rightarrow> enroll_begin_request option" where
  "begin_request_of_json j = do {
     m \<leftarrow> struct_fields [''user_id''] j;
     u \<leftarrow> field m ''user_id'' read_string;
     Some \<lparr>ebr_user_id = u\<rparr> }"

definition begin_response_json :: "enroll_begin_response \<Rightarrow> json" where
  "begin_response_json r = JObj
     [(''kyber_public_key'', JStr (eb_kyber_public_key r)), (''server_id'', JStr (eb_server_id r))]"

definition begin_response_of_json :: "json \<Rightarrow> enroll_begin_response option" where
  "begin_response_of_json j = do {
     m \<leftarrow> struct_fields [''kyber_public_key'', ''server_id''] j;
     k \<leftarrow> field m ''kyber_public_key'' read_string;
     sid \<leftarrow> field m ''server_id'' read_string;
     Some \<lparr>eb_kyber_public_key = k, eb_server_id = sid\<rparr> }"

definition complete_request_json :: "enroll_complete_request \<Rightarrow> json" where
  "complete_request_json r = JObj
     [(''user_id'', JStr (ecr_user_id r)), (''ciphertext'', JStr (ecr_ciphertext r)),
      (''dilithium_public_key'', JStr (ecr_dilithium_public_key r))]"

definition complete_request_of_json :: "json \<Rightarrow> enroll_complete_request option" where
  "complete_request_of_json j = do {
     m \<leftarrow> struct_fields [''user_id'', ''ciphertext'', ''dilithium_public_key''] j;
     u \<leftarrow> field m ''user_id'' read_string;
     ct \<leftarrow> field m ''ciphertext'' read_string;
     pk \<leftarrow> field m ''dilithium_public_key'' read_string;
     Some \<lparr>ecr_user_id = u, ecr_ciphertext = ct, ecr_dilithium_public_key = pk\<rparr> }"

definition complete_response_json :: "enroll_complete_response \<Rightarrow> json" where
  "complete_response_json r = JObj [(''success'', JBool (ecs_success r)), (''message'', JStr (ecs_message r))]"

definition complete_response_of_json :: "json \<Rightarrow> enroll_complete_response option" where
  "complete_response_of_json j = do {
     m \<leftarrow> struct_fields [''success'', ''message''] j;
     ok \<leftarrow> field m ''success'' read_bool;
     t \<leftarrow> field m ''message'' read_string;
     Some \<lparr>ecs_success = ok, ecs_message = t\<rparr> }"

definition challenge_request_json :: "challenge_request \<Rightarrow> json" where
  "challenge_request_json r = JObj [(''user_id'', JStr (cr_user_id r))]"

definition challenge_request_of_json :: "json \<Rightarrow> challenge_request option" where
  "challenge_request_of_json j = do {
     m \<leftarrow> struct_fields [''user_id''] j;
     u \<leftarrow> field m ''user_id'' read_string;
     Some \<lparr>cr_user_id = u\<rparr> }"

definition challenge_issued_json :: "challenge_issued \<Rightarrow> json" where
  "challenge_issued_json r = JObj [(''nonce'', JStr (ci_nonce r)), (''issued_at'', write_uint (ci_issued_at r))]"

definition challenge_issued_of_json :: "json \<Rightarrow> challenge_issued option" where
  "challenge_issued_of_json j = do {
     m \<leftarrow> struct_fields [''nonce'', ''issued_at''] j;
     n \<leftarrow> field m ''nonce'' read_string;
     t \<leftarrow> field m ''issued_at'' read_uint;
     Some \<lparr>ci_nonce = n, ci_issued_at = t\<rparr> }"

definition verify_response_json :: "verify_response \<Rightarrow> json" where
  "verify_response_json r = JObj [(''valid'', JBool (vs_valid r)), (''message'', JStr (vs_message r))]"

definition verify_response_of_json :: "json \<Rightarrow> verify_response option" where
  "verify_response_of_json j = do {
     m \<leftarrow> struct_fields [''valid'', ''message''] j;
     ok \<leftarrow> field m ''valid'' read_bool;
     t \<leftarrow> field m ''message'' read_string;
     Some \<lparr>vs_valid = ok, vs_message = t\<rparr> }"

text \<open>
  \<open>VerifyMethod\<close> is \<open>untagged\<close>: the variants are tried in the order of their declaration, on objects
  only, and the first that reads is taken.
\<close>

fun verify_method_fields :: "verify_method \<Rightarrow> (string \<times> json) list" where
  "verify_method_fields (Totp c) = [(''totp_code'', write_uint c)]"
| "verify_method_fields (ChallengeMethod n t sg) =
     [(''nonce'', JStr n), (''client_timestamp'', write_uint t), (''signature'', JStr sg)]"

definition verify_method_of_json :: "json \<Rightarrow> verify_method option" where
  "verify_method_of_json j =
     (case do {
        m \<leftarrow> object_fields [''totp_code''] j;
        c \<leftarrow> field m ''totp_code'' read_uint;
        Some (Totp c) } of
        Some v \<Rightarrow> Some v
      | None \<Rightarrow> do {
          m \<leftarrow> object_fields [''nonce'', ''client_timestamp'', ''signature''] j;
          n \<leftarrow> field m ''nonce'' read_string;
          t \<leftarrow> field m ''client_timestamp'' read_uint;
          sg \<leftarrow> field m ''signature'' read_string;
          Some (ChallengeMethod n t sg) })"

text \<open>
  \<open>method\<close> of \<open>VerifyRequest\<close> is flattened: its fields stand beside \<open>user_id\<close>, and it is read from all the
  other keys of the object. A struct with a flattened field is not read from an array.
\<close>

definition verify_request_json :: "verify_request \<Rightarrow> json" where
  "verify_request_json r = JObj ((''user_id'', JStr (vr_user_id r)) # verify_method_fields (vr_method r))"

definition verify_request_of_json :: "json \<Rightarrow> verify_request option" where
  "verify_request_of_json j = do {
     m \<leftarrow> object_fields [''user_id''] j;
     u \<leftarrow> field m ''user_id'' read_string;
     v \<leftarrow> (case j of JObj fs \<Rightarrow> verify_method_of_json (JObj (filter (\<lambda>f. fst f \<noteq> ''user_id'') fs)) | _ \<Rightarrow> None);
     Some \<lparr>vr_user_id = u, vr_method = v\<rparr> }"

section \<open>Proofs\<close>

lemmas serde_defs =
  keypair_json_def keypair_of_json_def kyber_keypair_json_def kyber_keypair_of_json_def
  hybrid_keypair_json_def hybrid_keypair_of_json_def server_enrollment_json_def server_enrollment_of_json_def
  hybrid_public_key_json_def hybrid_public_key_of_json_def challenge_json_def challenge_of_json_def
  challenge_response_json_def challenge_response_of_json_def enrollment_challenge_json_def
  enrollment_challenge_of_json_def enrollment_response_json_def enrollment_response_of_json_def
  enrollment_record_json_def enrollment_record_of_json_def hashed_code_json_def hashed_code_of_json_def
  keystore_json_def keystore_of_json_def audit_entry_json_def audit_entry_of_json_def
  begin_request_json_def begin_request_of_json_def begin_response_json_def begin_response_of_json_def
  complete_request_json_def complete_request_of_json_def complete_response_json_def
  complete_response_of_json_def challenge_request_json_def challenge_request_of_json_def
  challenge_issued_json_def challenge_issued_of_json_def verify_response_json_def verify_response_of_json_def

interpretation hpk: codec hybrid_public_key_json hybrid_public_key_of_json "\<lambda>_. True"
  by unfold_locales (simp_all add: serde_defs json_simps written_plain)

interpretation chl: codec challenge_json challenge_of_json "\<lambda>c. length (nonce c) = 32"
  by unfold_locales (simp_all add: serde_defs json_simps written_plain)

interpretation rsp: codec challenge_response_json challenge_response_of_json "\<lambda>r. length (resp_nonce r) = 32"
  by unfold_locales (simp_all add: serde_defs json_simps written_plain)

interpretation ech: codec enrollment_challenge_json enrollment_challenge_of_json "\<lambda>_. True"
  by unfold_locales (simp_all add: serde_defs json_simps written_plain)

interpretation ersp: codec enrollment_response_json enrollment_response_of_json "\<lambda>_. True"
  by unfold_locales (simp_all add: serde_defs json_simps written_plain)

interpretation erec: codec enrollment_record_json enrollment_record_of_json "\<lambda>_. True"
  by unfold_locales (simp_all add: serde_defs json_simps written_plain)

interpretation hcode: codec hashed_code_json hashed_code_of_json "\<lambda>_. True"
  by unfold_locales (simp_all add: serde_defs json_simps written_plain)

interpretation cset: codec code_set_json code_set_of_json "\<lambda>_. True"
  by unfold_locales (simp_all add: code_set_json_def code_set_of_json_def json_simps written_plain
      hcode.reads_vec hcode.vec_plain hcode.vec_order_free list_all_iff)

interpretation kst: codec keystore_json keystore_of_json "\<lambda>_. True"
  by unfold_locales (simp_all add: serde_defs json_simps written_plain)

lemma plain_option [simp]: "plain (write_option JStr x)"
  by (cases x) simp_all

interpretation aud: codec audit_entry_json audit_entry_of_json "\<lambda>_. True"
  by unfold_locales (simp_all add: serde_defs json_simps written_plain)

interpretation ebrq: codec begin_request_json begin_request_of_json "\<lambda>_. True"
  by unfold_locales (simp_all add: serde_defs json_simps written_plain)

interpretation ebrs: codec begin_response_json begin_response_of_json "\<lambda>_. True"
  by unfold_locales (simp_all add: serde_defs json_simps written_plain)

interpretation ecrq: codec complete_request_json complete_request_of_json "\<lambda>_. True"
  by unfold_locales (simp_all add: serde_defs json_simps written_plain)

interpretation ecrs: codec complete_response_json complete_response_of_json "\<lambda>_. True"
  by unfold_locales (simp_all add: serde_defs json_simps written_plain)

interpretation chrq: codec challenge_request_json challenge_request_of_json "\<lambda>_. True"
  by unfold_locales (simp_all add: serde_defs json_simps written_plain)

interpretation chis: codec challenge_issued_json challenge_issued_of_json "\<lambda>_. True"
  by unfold_locales (simp_all add: serde_defs json_simps written_plain)

interpretation vrs: codec verify_response_json verify_response_of_json "\<lambda>_. True"
  by unfold_locales (simp_all add: serde_defs json_simps written_plain)

interpretation vmt: codec "\<lambda>v. JObj (verify_method_fields v)" verify_method_of_json "\<lambda>_. True"
proof unfold_locales
  show "verify_method_of_json (JObj (verify_method_fields v)) = Some v" for v
    by (cases v) (simp_all add: verify_method_of_json_def object_fields_def json_simps)
  show "plain (JObj (verify_method_fields v))" for v
    by (cases v) (simp_all add: written_plain)
  show "verify_method_of_json (to_value j) = verify_method_of_json j" for j
    by (simp add: verify_method_of_json_def object_fields_value cong: option.case_cong)
qed

lemma verify_request_object:
  "verify_request_of_json (JObj fs) = do {
     m \<leftarrow> object_fields [''user_id''] (JObj fs);
     u \<leftarrow> field m ''user_id'' read_string;
     v \<leftarrow> verify_method_of_json (JObj (filter (\<lambda>f. fst f \<noteq> ''user_id'') fs));
     Some \<lparr>vr_user_id = u, vr_method = v\<rparr> }"
  by (simp add: verify_request_of_json_def)

interpretation vrq: codec verify_request_json verify_request_of_json "\<lambda>_. True"
proof unfold_locales
  have others: "filter (\<lambda>f. fst f \<noteq> ''user_id'') (verify_method_fields v) = verify_method_fields v"
    "filter (\<lambda>f. fst f = ''user_id'') (verify_method_fields v) = []" for v
    by (cases v; simp)+
  show "verify_request_of_json (verify_request_json r) = Some r" for r
    by (simp add: verify_request_json_def verify_request_object object_fields_def others vmt.reads json_simps)
  show "plain (verify_request_json r)" for r
    using vmt.writes_plain [of "vr_method r"] by (simp add: verify_request_json_def)
  show "verify_request_of_json (to_value j) = verify_request_of_json j" for j
  proof (cases j)
    case (JObj fs)
    have rest: "JObj (filter (\<lambda>f. fst f \<noteq> ''user_id'') (sort_key fst (map (map_prod id to_value) fs))) =
        to_value (JObj (filter (\<lambda>f. fst f \<noteq> ''user_id'') fs))"
      by (simp add: filter_sort filter_map comp_def)
    have "verify_request_of_json (to_value j) = do {
       m \<leftarrow> object_fields [''user_id''] (to_value j);
       u \<leftarrow> field m ''user_id'' read_string;
       v \<leftarrow> verify_method_of_json (to_value (JObj (filter (\<lambda>f. fst f \<noteq> ''user_id'') fs)));
       Some \<lparr>vr_user_id = u, vr_method = v\<rparr> }"
      unfolding JObj to_value.simps(7) verify_request_object rest ..
    then show ?thesis unfolding object_fields_value vmt.order_free JObj verify_request_object by simp
  qed (simp_all add: verify_request_of_json_def object_fields_def)
qed

section \<open>Properties\<close>

text \<open>C22. Serialization round trips. \<open>serde_json::from_str\<close> reads every value back from the text that
  \<open>serde_json::to_string\<close> makes of it, and likewise from the \<open>Value\<close> with sorted keys that the HTTP handlers
  make: the messages of the challenge and enrollment protocols, the stored records, recovery codes
  and keystores, the audit entries, and the bodies of the API. In particular a \<open>VerifyRequest\<close>, whose
  method has no tag and is flattened into the request, is read back with the same method.\<close>

theorem serialization_round_trips:
  assumes "json_law j" and "length (nonce ch) = 32" and "length (resp_nonce resp) = 32"
  shows "round_trips j challenge_json challenge_of_json ch
    \<and> round_trips j challenge_response_json challenge_response_of_json resp
    \<and> round_trips j enrollment_challenge_json enrollment_challenge_of_json ec
    \<and> round_trips j enrollment_response_json enrollment_response_of_json er
    \<and> round_trips j enrollment_record_json enrollment_record_of_json rc
    \<and> round_trips j hybrid_public_key_json hybrid_public_key_of_json hpk
    \<and> round_trips j code_set_json code_set_of_json cs
    \<and> round_trips j keystore_json keystore_of_json ks
    \<and> round_trips j audit_entry_json audit_entry_of_json ae
    \<and> round_trips j begin_request_json begin_request_of_json eb
    \<and> round_trips j begin_response_json begin_response_of_json ebr
    \<and> round_trips j complete_request_json complete_request_of_json ecr
    \<and> round_trips j complete_response_json complete_response_of_json ecs
    \<and> round_trips j challenge_request_json challenge_request_of_json cr
    \<and> round_trips j challenge_issued_json challenge_issued_of_json ci
    \<and> round_trips j verify_request_json verify_request_of_json vr
    \<and> round_trips j verify_response_json verify_response_of_json vs"
  using assms by (intro conjI chl.round_trip rsp.round_trip ech.round_trip ersp.round_trip erec.round_trip
      hpk.round_trip cset.round_trip kst.round_trip aud.round_trip ebrq.round_trip ebrs.round_trip
      ecrq.round_trip ecrs.round_trip chrq.round_trip chis.round_trip vrq.round_trip vrs.round_trip) simp_all

definition toy_json :: "json json_crate" where
  "toy_json = \<lparr>to_json = Inr, from_json = Inr\<rparr>"

lemma toy_json_law: "json_law toy_json"
  by (simp add: json_law_def toy_json_def)

theorem serialization_round_trips_witness:
  "round_trips toy_json verify_request_json verify_request_of_json \<lparr>vr_user_id = ''bob'', vr_method = Totp 5\<rparr>"
proof -
  have "length (nonce \<lparr>nonce = replicate 32 0, issued_at = 0\<rparr>) = 32"
    "length (resp_nonce \<lparr>resp_nonce = replicate 32 0, client_timestamp = 0, signature = []\<rparr>) = 32" by simp_all
  from serialization_round_trips [OF toy_json_law this] show ?thesis by blast
qed

text \<open>C23. Secret keys are not serialized. What is written of a key pair, a hybrid key pair or a pending
  enrollment is the same for every secret; therefore it is read back as an error, although the same
  types are also given a \<open>Deserialize\<close>: the reader needs the skipped fields. It reads a value that has
  them, so the error is due to the skipping alone.\<close>

theorem secrets_not_serialized:
  "keypair_json (kp\<lparr>secret_key := sk\<rparr>) = keypair_json kp \<and> keypair_of_json (keypair_json kp) = None
    \<and> kyber_keypair_json (kkp\<lparr>kyber_secret := sk\<rparr>) = kyber_keypair_json kkp
    \<and> kyber_keypair_of_json (kyber_keypair_json kkp) = None
    \<and> hybrid_keypair_json (hkp\<lparr>ed25519_secret := sk, dilithium_secret := sk'\<rparr>) = hybrid_keypair_json hkp
    \<and> hybrid_keypair_of_json (hybrid_keypair_json hkp) = None
    \<and> server_enrollment_json (se\<lparr>se_kyber_secret := sk\<rparr>) = server_enrollment_json se
    \<and> server_enrollment_of_json (server_enrollment_json se) = None
    \<and> keypair_of_json (JObj [(''public_key'', write_bytes (public_key kp)),
         (''secret_key'', write_bytes (secret_key kp))]) = Some kp"
  by (simp add: serde_defs json_simps)

end
