(* ===== verification/ServerRuns.thy ===== *)
theory ServerRuns
  imports Server Instances
begin

text \<open>
  Sequences of requests to the server of \<open>src/server.rs\<close>, as the routes of \<open>run_server\<close> in
  \<open>src/main.rs\<close> make them, each in its own state of the outside world. The account machine is
  the abstract specification of what a request does to a user, which the operations refine.
  Then come the bounds over runs: admitted attempts per window, answers per issued challenge;
  and when an operation panics.
\<close>

section \<open>Requests\<close>

datatype request =
    EnrollBegin string
  | EnrollComplete enroll_complete_request
  | IssueChallenge string
  | Verify verify_request

datatype reply =
    Begun "server_error + enroll_begin_response"
  | Completed "server_error + enroll_complete_response"
  | Issued "server_error + challenge_issued"
  | Verified "server_error + verify_response"

definition answer :: "('a \<Rightarrow> reply) \<Rightarrow> 'a option \<times> pq_auth_server \<times> 'w \<Rightarrow> reply option \<times> pq_auth_server \<times> 'w" where
  "answer f x = (case x of (r, srv', w') \<Rightarrow> (map_option f r, srv', w'))"

fun serve :: "('h, 'w) deps \<Rightarrow> request \<Rightarrow> pq_auth_server \<Rightarrow> 'w \<Rightarrow> reply option \<times> pq_auth_server \<times> 'w" where
  "serve d (EnrollBegin user) srv w = answer Begun (enroll_begin d user srv w)"
| "serve d (EnrollComplete req) srv w = answer Completed (enroll_complete d req srv w)"
| "serve d (IssueChallenge user) srv w = answer Issued (issue_challenge d user srv w)"
| "serve d (Verify req) srv w = answer Verified (server_verify d req srv w)"

definition after :: "('h, 'w) deps \<Rightarrow> request \<Rightarrow> pq_auth_server \<Rightarrow> 'w \<Rightarrow> pq_auth_server" where
  "after d req srv w = fst (snd (serve d req srv w))"

text \<open>A run: requests with the state of the world in which each is served.\<close>

fun serve_all :: "('h, 'w) deps \<Rightarrow> (request \<times> 'w) list \<Rightarrow> pq_auth_server \<Rightarrow> pq_auth_server" where
  "serve_all d [] srv = srv"
| "serve_all d ((req, w) # rest) srv = serve_all d rest (after d req srv w)"

text \<open>Counting the replies of a run to requests of interest.\<close>

fun count_replies ::
  "(request \<Rightarrow> reply option \<Rightarrow> bool) \<Rightarrow> ('h, 'w) deps \<Rightarrow> (request \<times> 'w) list \<Rightarrow> pq_auth_server \<Rightarrow> nat" where
  "count_replies P d [] srv = 0"
| "count_replies P d ((req, w) # rest) srv =
     (if P req (fst (serve d req srv w)) then 1 else 0) + count_replies P d rest (after d req srv w)"

text \<open>The requests the rate limiter counts for a user, and the replies given behind it.\<close>

fun attempt_of :: "string \<Rightarrow> request \<Rightarrow> bool" where
  "attempt_of u (IssueChallenge v) = (v = u)"
| "attempt_of u (Verify req) = (vr_user_id req = u)"
| "attempt_of u _ = False"

fun past_limiter :: "reply option \<Rightarrow> bool" where
  "past_limiter (Some (Issued (Inr _))) = True"
| "past_limiter (Some (Verified (Inr _))) = True"
| "past_limiter (Some (Verified (Inl (NoPendingChallenge _)))) = True"
| "past_limiter _ = False"

text \<open>A challenge issued to a user; an answer of the user to a challenge that was judged.\<close>

fun issues :: "string \<Rightarrow> request \<Rightarrow> reply option \<Rightarrow> bool" where
  "issues u (IssueChallenge v) (Some (Issued (Inr _))) = (v = u)"
| "issues u _ _ = False"

fun judges :: "string \<Rightarrow> request \<Rightarrow> reply option \<Rightarrow> bool" where
  "judges u (Verify req) (Some (Verified (Inr _))) =
     (vr_user_id req = u \<and> (case vr_method req of Totp _ \<Rightarrow> False | ChallengeMethod _ _ _ \<Rightarrow> True))"
| "judges u _ _ = False"

lemma answer_eq: "answer f x = (r, srv', w') \<longleftrightarrow> (\<exists>r0. x = (r0, srv', w') \<and> r = map_option f r0)"
  by (auto simp: answer_def split: prod.splits)

lemma serve_is_step: "server_step d srv (after d req srv w)"
  by (cases req) (auto simp: after_def answer_def split: prod.splits intro: server_step.intros)

lemma serve_all_steps: "(server_step d)\<^sup>*\<^sup>* srv (serve_all d rqs srv)"
  by (induction d rqs srv rule: serve_all.induct)
    (auto intro: converse_rtranclp_into_rtranclp serve_is_step)

lemma after_inv: "server_inv srv \<Longrightarrow> server_inv (after d req srv w)"
  by (rule server_step_inv [OF serve_is_step])

lemma serve_poisoned: "poisoned srv \<Longrightarrow> serve d req srv w = (None, srv, w)"
  by (cases req) (simp_all add: answer_def operation_defs with_lock_def)

lemma after_poisoned [simp]: "poisoned srv \<Longrightarrow> after d req srv w = srv"
  by (simp add: after_def serve_poisoned)

lemma count_replies_poisoned:
  "poisoned srv \<Longrightarrow> (\<And>req. \<not> P req None) \<Longrightarrow> count_replies P d rqs srv = 0"
  by (induction rqs arbitrary: srv) (auto simp: serve_poisoned)

section \<open>The account machine\<close>

datatype account =
    Unknown
  | Pending server_enrollment
  | Enrolled enrollment_record

definition account_of :: "server_inner \<Rightarrow> string \<Rightarrow> account" where
  "account_of s u =
     (case users s u of
        Some rc \<Rightarrow> Enrolled rc
      | None \<Rightarrow> (case pending_enrollments s u of Some se \<Rightarrow> Pending se | None \<Rightarrow> Unknown))"

lemma account_of_frames [simp]:
  "account_of (s\<lparr>rate_limits := rl\<rparr>) = account_of s"
  "account_of (s\<lparr>pending_challenges := pc\<rparr>) = account_of s"
  "account_of (s\<lparr>verifier := v\<rparr>) = account_of s"
  "account_of (s\<lparr>audit_log := l\<rparr>) = account_of s"
  by (simp_all add: account_of_def fun_eq_iff split: option.splits)

text \<open>A request's effect on the accounts, given the session it would start.\<close>

fun account_step :: "('h, 'w) deps \<Rightarrow> request \<Rightarrow> server_enrollment \<Rightarrow> (string \<Rightarrow> account) \<Rightarrow> (string \<Rightarrow> account)" where
  "account_step d (EnrollBegin u) se acc =
     (case acc u of Enrolled _ \<Rightarrow> acc | _ \<Rightarrow> acc(u := Pending se))"
| "account_step d (EnrollComplete req) se acc =
     (case acc (ecr_user_id req) of
        Pending session \<Rightarrow>
          acc(ecr_user_id req :=
            (case complete (sha d) (kyb d) session (completion_of (hexc d) req) of
               Inr rc \<Rightarrow> Enrolled rc | Inl _ \<Rightarrow> Unknown))
      | _ \<Rightarrow> acc)"
| "account_step d (IssueChallenge u) se acc = acc"
| "account_step d (Verify req) se acc = acc"

lemma account_step_refined:
  assumes "server_inv srv" and "\<not> poisoned srv"
  shows "account_of (inner (after d req srv w)) =
    account_step d req (fst (server_enrollment_new (kyb d) (server_id (inner srv)) w)) (account_of (inner srv))"
proof -
  obtain r srv' w' where s: "serve d req srv w = (r, srv', w')" by (metis prod_cases3)
  have ok: "accounts_ok (inner srv)" using assms by (simp add: server_inv_def)
  have disj: "users (inner srv) u = None" if "pending_enrollments (inner srv) u = Some se" for u se
    using ok that unfolding accounts_ok_def by auto
  have "account_of (inner srv') =
    account_step d req (fst (server_enrollment_new (kyb d) (server_id (inner srv)) w)) (account_of (inner srv))"
  proof (cases req)
    case (EnrollBegin u)
    with s assms(2) obtain r0 where "do_enroll_begin d u (inner srv) w = (r0, inner srv', w')"
      by (auto simp: answer_eq operation_defs elim: with_lock_cases)
    then show ?thesis unfolding EnrollBegin
      by (cases rule: enroll_begin_cases) (auto simp: account_of_def fun_eq_iff split: option.splits)
  next
    case (EnrollComplete rq)
    with s assms(2) obtain r0 where "do_enroll_complete d rq (inner srv) w = (r0, inner srv', w')"
      by (auto simp: answer_eq operation_defs elim: with_lock_cases)
    then show ?thesis unfolding EnrollComplete
      by (cases rule: enroll_complete_cases) (auto simp: account_of_def fun_eq_iff disj split: option.splits)
  next
    case (IssueChallenge u)
    with s assms(2) obtain r0 where "do_issue_challenge d u (inner srv) w = (r0, inner srv', w')"
      by (auto simp: answer_eq operation_defs elim: with_lock_cases)
    then show ?thesis unfolding IssueChallenge
      by (cases rule: issue_challenge_cases) simp_all
  next
    case (Verify rq)
    with s assms(2) obtain r0 where "do_verify d rq (inner srv) w = (r0, inner srv', w')"
      by (auto simp: answer_eq operation_defs elim: with_lock_cases)
    then show ?thesis unfolding Verify
      by (cases rule: verify_cases) simp_all
  qed
  then show ?thesis by (simp add: after_def s)
qed

section \<open>The limiter in a run\<close>

lemma issue_runs:
  "serve d (IssueChallenge u) srv w = (r, srv', w') \<Longrightarrow> \<not> poisoned srv \<Longrightarrow>
     \<exists>r0. r = map_option Issued r0 \<and> do_issue_challenge d u (inner srv) w = (r0, inner srv', w') \<and>
       (poisoned srv' \<longleftrightarrow> r0 = None)"
  by (auto simp: answer_eq operation_defs elim: with_lock_cases)

lemma verify_runs:
  "serve d (Verify req) srv w = (r, srv', w') \<Longrightarrow> \<not> poisoned srv \<Longrightarrow>
     \<exists>r0. r = map_option Verified r0 \<and> do_verify d req (inner srv) w = (r0, inner srv', w') \<and>
       (poisoned srv' \<longleftrightarrow> r0 = None)"
  by (auto simp: answer_eq operation_defs elim: with_lock_cases)

lemma begin_runs:
  "serve d (EnrollBegin u) srv w = (r, srv', w') \<Longrightarrow> \<not> poisoned srv \<Longrightarrow>
     \<exists>r0. r = map_option Begun r0 \<and> do_enroll_begin d u (inner srv) w = (r0, inner srv', w') \<and>
       (poisoned srv' \<longleftrightarrow> r0 = None)"
  by (auto simp: answer_eq operation_defs elim: with_lock_cases)

lemma complete_runs:
  "serve d (EnrollComplete req) srv w = (r, srv', w') \<Longrightarrow> \<not> poisoned srv \<Longrightarrow>
     \<exists>r0. r = map_option Completed r0 \<and> do_enroll_complete d req (inner srv) w = (r0, inner srv', w') \<and>
       (poisoned srv' \<longleftrightarrow> r0 = None)"
  by (auto simp: answer_eq operation_defs elim: with_lock_cases)

lemma serve_poison_iff:
  assumes "serve d req srv w = (r, srv', w')" and "\<not> poisoned srv"
  shows "poisoned srv' \<longleftrightarrow> r = None"
proof (cases req)
  case (EnrollBegin u)
  from begin_runs [OF assms(1) [unfolded EnrollBegin] assms(2)] show ?thesis by auto
next
  case (EnrollComplete rq)
  from complete_runs [OF assms(1) [unfolded EnrollComplete] assms(2)] show ?thesis by auto
next
  case (IssueChallenge u)
  from issue_runs [OF assms(1) [unfolded IssueChallenge] assms(2)] show ?thesis by auto
next
  case (Verify rq)
  from verify_runs [OF assms(1) [unfolded Verify] assms(2)] show ?thesis by auto
qed

text \<open>One request, seen from the entry of user \<open>u\<close>: it passes the limiter, is refused by it, panics,
  or does not reach it.\<close>

lemma serve_limiter:
  assumes "serve d req srv w = (r, srv', w')" and "\<not> poisoned srv"
  shows "r = None \<or>
    (\<exists>e. limiter d (inner srv) u w = Some (past_limiter r, e) \<and> rate_limits (inner srv') u = Some e \<and>
       attempt_of u req) \<or>
    rate_limits (inner srv') u = rate_limits (inner srv) u \<and> \<not> (attempt_of u req \<and> past_limiter r)"
proof (cases req)
  case (EnrollBegin v)
  from begin_runs [OF assms(1) [unfolded EnrollBegin] assms(2)] obtain r0 where r: "r = map_option Begun r0"
    and "do_enroll_begin d v (inner srv) w = (r0, inner srv', w')" by blast
  from this(2) show ?thesis
    by (cases rule: enroll_begin_cases) (simp_all add: EnrollBegin r)
next
  case (EnrollComplete rq)
  from complete_runs [OF assms(1) [unfolded EnrollComplete] assms(2)] obtain r0 where r: "r = map_option Completed r0"
    and "do_enroll_complete d rq (inner srv) w = (r0, inner srv', w')" by blast
  from this(2) show ?thesis
    by (cases rule: enroll_complete_cases) (simp_all add: EnrollComplete r)
next
  case (IssueChallenge v)
  from issue_runs [OF assms(1) [unfolded IssueChallenge] assms(2)] obtain r0 where r: "r = map_option Issued r0"
    and "do_issue_challenge d v (inner srv) w = (r0, inner srv', w')" by blast
  from this(2) show ?thesis
    by (cases rule: issue_challenge_cases; cases "v = u") (auto simp: IssueChallenge r)
next
  case (Verify rq)
  from verify_runs [OF assms(1) [unfolded Verify] assms(2)] obtain r0 where r: "r = map_option Verified r0"
    and "do_verify d rq (inner srv) w = (r0, inner srv', w')" by blast
  from this(2) show ?thesis
    by (cases rule: verify_cases; cases "vr_user_id rq = u") (auto simp: Verify r)
qed

lemma attempts_follow_limiter:
  assumes "server_inv srv" and "sorted (map (\<lambda>rq. request_time d (snd rq)) rqs)"
  shows "\<exists>ts. sorted ts \<and> set ts \<subseteq> set (map (\<lambda>rq. request_time d (snd rq)) rqs) \<and> length ts \<le> length rqs \<and>
    count_replies (\<lambda>req r. attempt_of u req \<and> past_limiter r) d rqs srv
      \<le> admitted (limiter_run (build d) 5 300 (rate_limits (inner srv) u) ts)"
  using assms
proof (induction rqs arbitrary: srv)
  case Nil
  then show ?case by (intro exI [of _ "[]"]) simp
next
  case (Cons rq rqs)
  obtain req w where rq: "rq = (req, w)" by (cases rq)
  obtain r srv' w' where s: "serve d req srv w = (r, srv', w')" by (metis prod_cases3)
  then have after: "after d req srv w = srv'" by (simp add: after_def)
  let ?P = "\<lambda>req r. attempt_of u req \<and> past_limiter r"
  have stuck: "\<exists>ts. sorted ts \<and> set ts \<subseteq> set (map (\<lambda>rq. request_time d (snd rq)) (rq # rqs)) \<and>
      length ts \<le> length (rq # rqs) \<and>
      count_replies ?P d (rq # rqs) srv \<le> admitted (limiter_run (build d) 5 300 (rate_limits (inner srv) u) ts)"
    if "poisoned srv'" "r = None"
    by (rule exI [of _ "[]"]) (use that in \<open>simp add: rq s after count_replies_poisoned\<close>)
  show ?case
  proof (cases "poisoned srv")
    case True
    then show ?thesis using stuck s by (simp add: serve_poisoned)
  next
    case False
    have lim: "max_attempts (inner srv) = 5" "rate_window (inner srv) = 300"
      using Cons.prems(1) False by (simp_all add: server_inv_def limits_ok_def)
    have "server_inv srv'" using after_inv [OF Cons.prems(1), of d req w] after by simp
    moreover have "sorted (map (\<lambda>rq. request_time d (snd rq)) rqs)" using Cons.prems(2) by simp
    ultimately obtain ts where ts: "sorted ts" "set ts \<subseteq> set (map (\<lambda>rq. request_time d (snd rq)) rqs)"
      "length ts \<le> length rqs" "count_replies ?P d rqs srv' \<le>
         admitted (limiter_run (build d) 5 300 (rate_limits (inner srv') u) ts)"
      using Cons.IH by blast
    from serve_limiter [OF s False, of u] show ?thesis
    proof (elim disjE exE conjE)
      assume "r = None"
      then show ?thesis using stuck serve_poison_iff [OF s False] by blast
    next
      fix e
      assume through: "limiter d (inner srv) u w = Some (past_limiter r, e)"
        "rate_limits (inner srv') u = Some e" "attempt_of u req"
      let ?t = "request_time d w"
      have "sorted (?t # ts)" using Cons.prems(2) ts(1,2) by (auto simp: rq)
      moreover have "limiter_run (build d) 5 300 (rate_limits (inner srv) u) (?t # ts) =
          past_limiter r # limiter_run (build d) 5 300 (rate_limits (inner srv') u) ts"
        using through(1,2) by (simp add: limiter_def lim)
      ultimately show ?thesis
        using ts through(3) by (intro exI [of _ "?t # ts"]) (auto simp: rq s after)
    next
      assume "rate_limits (inner srv') u = rate_limits (inner srv) u" "\<not> (attempt_of u req \<and> past_limiter r)"
      then show ?thesis using ts by (intro exI [of _ ts]) (auto simp: rq s after)
    qed
  qed
qed

text \<open>A refused attempt does not move the start of the window: after any run inside the window the
  entry has the same start, and its count grew by at most one per request.\<close>

lemma serve_all_poisoned: "poisoned srv \<Longrightarrow> serve_all d rqs srv = srv"
  by (induction rqs) auto

lemma window_start_stays:
  assumes "rate_limits (inner srv) u = Some (c, start)" and "server_inv srv"
    and "\<not> poisoned (serve_all d rqs srv)" and "unat c + length rqs < 2 ^ 32"
    and "list_all (\<lambda>rq. start \<le> request_time d (snd rq) \<and>
      unat (request_time d (snd rq)) \<le> unat start + 300) rqs"
  shows "\<exists>c'. rate_limits (inner (serve_all d rqs srv)) u = Some (c', start) \<and>
    unat c \<le> unat c' \<and> unat c' \<le> unat c + length rqs"
  using assms
proof (induction rqs arbitrary: srv c)
  case (Cons rq rqs)
  obtain req w where rq: "rq = (req, w)" by (cases rq)
  obtain r srv' w' where s: "serve d req srv w = (r, srv', w')" by (metis prod_cases3)
  then have after: "after d req srv w = srv'" by (simp add: after_def)
  have run: "\<not> poisoned (serve_all d rqs srv')" using Cons.prems(3) by (simp add: rq after)
  then have live': "\<not> poisoned srv'" using serve_all_poisoned [of srv' d rqs] by auto
  have live: "\<not> poisoned srv" using live' s serve_poisoned [of srv d req w] by auto
  have inv': "server_inv srv'" using after_inv [OF Cons.prems(2), of d req w] after by simp
  have lim: "max_attempts (inner srv) = 5" "rate_window (inner srv) = 300"
    using Cons.prems(2) live by (simp_all add: server_inv_def limits_ok_def)
  have step: "limiter d (inner srv) u w = Some (c + 1 \<le> 5, (c + 1, start))"
    using Cons.prems(1,4,5) lim by (simp add: rq limiter_def entry_or_insert_def rl.same_window)
  have c1: "unat (c + 1) = unat c + 1" using Cons.prems(4) by (intro unat32_succ) simp
  have rest: "list_all (\<lambda>rq. start \<le> request_time d (snd rq) \<and>
      unat (request_time d (snd rq)) \<le> unat start + 300) rqs" using Cons.prems(5) by simp
  from serve_limiter [OF s live, of u] show ?case
  proof (elim disjE exE conjE)
    assume "r = None"
    then show ?thesis using serve_poison_iff [OF s live] live' by simp
  next
    fix e assume "limiter d (inner srv) u w = Some (past_limiter r, e)" "rate_limits (inner srv') u = Some e"
    then have "rate_limits (inner srv') u = Some (c + 1, start)" using step by simp
    from Cons.IH [OF this inv' run _ rest] Cons.prems(4) c1 show ?thesis by (auto simp: rq after)
  next
    assume "rate_limits (inner srv') u = rate_limits (inner srv) u"
    with Cons.prems(1) have "rate_limits (inner srv') u = Some (c, start)" by simp
    from Cons.IH [OF this inv' run _ rest] Cons.prems(4) show ?thesis by (fastforce simp: rq after)
  qed
qed simp

section \<open>Answers per challenge\<close>

definition waiting :: "string \<Rightarrow> pq_auth_server \<Rightarrow> nat" where
  "waiting u srv = (if pending_challenges (inner srv) u = None then 0 else 1)"

lemma serve_challenges:
  assumes "serve d req srv w = (r, srv', w')" and "\<not> poisoned srv" and "\<not> poisoned srv'"
  shows "(if judges u req r then 1 else 0) + waiting u srv' \<le> waiting u srv + (if issues u req r then 1 else 0)"
proof (cases req)
  case (EnrollBegin v)
  from begin_runs [OF assms(1) [unfolded EnrollBegin] assms(2)] assms(3) obtain r0 where r: "r = map_option Begun r0" "poisoned srv' \<longleftrightarrow> r0 = None"
    and "do_enroll_begin d v (inner srv) w = (r0, inner srv', w')" by blast
  from this(3) show ?thesis
    by (cases rule: enroll_begin_cases) (simp_all add: EnrollBegin waiting_def)
next
  case (EnrollComplete rq)
  from complete_runs [OF assms(1) [unfolded EnrollComplete] assms(2)] assms(3) obtain r0 where r: "r = map_option Completed r0" "poisoned srv' \<longleftrightarrow> r0 = None"
    and "do_enroll_complete d rq (inner srv) w = (r0, inner srv', w')" by blast
  from this(3) show ?thesis
    by (cases rule: enroll_complete_cases) (simp_all add: EnrollComplete waiting_def)
next
  case (IssueChallenge v)
  from issue_runs [OF assms(1) [unfolded IssueChallenge] assms(2)] assms(3) obtain r0 where r: "r = map_option Issued r0" "r0 \<noteq> None"
    and "do_issue_challenge d v (inner srv) w = (r0, inner srv', w')" by blast
  from this(3) show ?thesis
    by (cases rule: issue_challenge_cases) (use \<open>r0 \<noteq> None\<close> in \<open>simp_all add: IssueChallenge r waiting_def\<close>)
next
  case (Verify rq)
  from verify_runs [OF assms(1) [unfolded Verify] assms(2)] assms(3) obtain r0 where r: "r = map_option Verified r0" "r0 \<noteq> None"
    and "do_verify d rq (inner srv) w = (r0, inner srv', w')" by blast
  from this(3) show ?thesis
    by (cases rule: verify_cases) (use \<open>r0 \<noteq> None\<close> in \<open>simp_all add: Verify r waiting_def\<close>)
qed

lemma judged_at_most_issued:
  "count_replies (judges u) d rqs srv \<le> waiting u srv + count_replies (issues u) d rqs srv"
proof (induction rqs arbitrary: srv)
  case (Cons rq rqs)
  obtain req w where rq: "rq = (req, w)" by (cases rq)
  obtain r srv' w' where s: "serve d req srv w = (r, srv', w')" by (metis prod_cases3)
  then have after: "after d req srv w = srv'" by (simp add: after_def)
  have none: "\<not> judges u q None" for q by (cases q) simp_all
  show ?case
  proof (cases "poisoned srv \<or> poisoned srv'")
    case True
    then have "r = None" "poisoned srv'"
      using s serve_poisoned [of srv d req w] serve_poison_iff [OF s] by (cases "poisoned srv"; auto)+
    then show ?thesis using none by (simp add: rq s after count_replies_poisoned)
  next
    case False
    with serve_challenges [OF s, of u] Cons.IH [of srv'] show ?thesis
      by (auto simp: rq s after split: if_splits)
  qed
qed simp

section \<open>Panics\<close>

lemma limiter_total_release: "build d = Release \<Longrightarrow> limiter d s u w \<noteq> None"
  by (auto simp: limiter_def rate_entry_step_def checked_sub_def checked_add_def)

lemma limiter_None:
  assumes "limiter d s u w = None"
  obtains c start where "build d = Debug" "rate_limits s u = Some (c, start)"
    "request_time d w < start \<or> unat c + 1 = 2 ^ 32"
proof (cases "rate_limits s u")
  case None
  with assms show thesis
    by (simp add: limiter_def entry_or_insert_def rate_entry_step_def checked_sub_le checked_add_small split: if_splits)
next
  case (Some e)
  obtain c start where e: "e = (c, start)" by (cases e)
  have "build d = Debug" using assms limiter_total_release by (metis profile.exhaust)
  moreover have "request_time d w < start \<or> unat c + 1 = 2 ^ 32"
    using assms Some e unat_bound [of c]
    by (auto simp: limiter_def entry_or_insert_def rate_entry_step_def checked_sub_def checked_add_def
        split: if_splits)
  ultimately show thesis using that Some e by blast
qed

lemma serve_panic:
  assumes "serve d req srv w = (None, srv', w')" and "\<not> poisoned srv"
  shows "clock_fails d \<or> (\<exists>u. attempt_of u req \<and> limiter d (inner srv) u w = None)"
proof (cases req)
  case (EnrollBegin v)
  from begin_runs [OF assms(1) [unfolded EnrollBegin] assms(2)] have "do_enroll_begin d v (inner srv) w = (None, inner srv', w')" by auto
  then show ?thesis by (cases rule: enroll_begin_cases) simp_all
next
  case (EnrollComplete rq)
  from complete_runs [OF assms(1) [unfolded EnrollComplete] assms(2)] have "do_enroll_complete d rq (inner srv) w = (None, inner srv', w')" by auto
  then show ?thesis by (cases rule: enroll_complete_cases) simp_all
next
  case (IssueChallenge v)
  from issue_runs [OF assms(1) [unfolded IssueChallenge] assms(2)] have "do_issue_challenge d v (inner srv) w = (None, inner srv', w')" by auto
  then show ?thesis by (cases rule: issue_challenge_cases) (simp_all add: IssueChallenge)
next
  case (Verify rq)
  from verify_runs [OF assms(1) [unfolded Verify] assms(2)] have "do_verify d rq (inner srv) w = (None, inner srv', w')" by auto
  then show ?thesis by (cases rule: verify_cases) (simp_all add: Verify)
qed

end
