(* ===== verification/ServerProperties.thy ===== *)
theory ServerProperties
  imports ServerRuns
begin

text \<open>
  The properties of the server of \<open>src/server.rs\<close>, over single requests, over runs of requests
  and over all reachable states. The witnesses run the operations on the stand-ins of
  \<open>Instances\<close>; the server of most of them has one enrolled user.
\<close>

section \<open>A server for the witnesses\<close>

definition demo_record :: enrollment_record where
  "demo_record = \<lparr>rec_dilithium_public = replicate 1952 5, rec_totp_seed = replicate 32 7,
     rec_server_id = ''s''\<rparr>"

definition demo_log :: "audit_entry list" where
  "demo_log = [entry_of 900 ''alice'' ''enroll_complete'' True None]"

definition demo :: pq_auth_server where
  "demo = \<lparr>inner = (inner_new ''s'')\<lparr>users := [''alice'' \<mapsto> demo_record], audit_log := demo_log\<rparr>,
     poisoned = False\<rparr>"

lemma demo_sel [simp]:
  "\<not> poisoned demo" "users (inner demo) = [''alice'' \<mapsto> demo_record]"
  "pending_enrollments (inner demo) = Map.empty" "pending_challenges (inner demo) = Map.empty"
  "rate_limits (inner demo) = Map.empty" "max_attempts (inner demo) = 5" "rate_window (inner demo) = 300"
  "verifier (inner demo) = verifier_new 60" "server_id (inner demo) = ''s''" "audit_log (inner demo) = demo_log"
  by (simp_all add: demo_def inner_new_def)

lemma demo_inv: "server_inv demo"
proof -
  have "accounts_ok (inner demo)" unfolding accounts_ok_def by (auto simp: demo_record_def split: if_splits)
  moreover have "limits_ok (inner demo)" by (simp add: limits_ok_def)
  moreover have "log_ok (inner demo)"
    by (auto simp: log_ok_def demo_log_def completions_def)
  ultimately show ?thesis by (simp add: server_inv_def)
qed

text \<open>A parameter record whose clock stands still.\<close>

definition still :: "profile \<Rightarrow> u64 \<Rightarrow> (bytes, toy_world) deps" where
  "still pf t = (toy_deps pf)\<lparr>os := \<lparr>clock_secs = (\<lambda>w. (t, w))\<rparr>\<rparr>"

lemma still_sel [simp]:
  "build (still pf t) = pf" "sha (still pf t) = toy_sha" "hexc (still pf t) = toy_hex"
  "clock_secs (os (still pf t)) w = (t, w)" "rnd (still pf t) = toy_rnd" "dil (still pf t) = toy_dil"
  "kyb (still pf t) = toy_kyb"
  by (simp_all add: still_def)

lemma still_clock [simp]:
  "clock_shows (still pf t) x \<longleftrightarrow> x = t \<and> 0 \<le> sint t" "clock_fails (still pf t) \<longleftrightarrow> sint t < 0"
  "request_time (still pf t) w = t"
  by (auto simp: clock_shows_def clock_fails_def request_time_def)

section \<open>Single operations\<close>

lemma server_verify_runs:
  "server_verify d req srv w = (r, srv', w') \<Longrightarrow> \<not> poisoned srv \<Longrightarrow>
     do_verify d req (inner srv) w = (r, inner srv', w') \<and> (poisoned srv' \<longleftrightarrow> r = None)"
  by (auto simp: operation_defs elim: with_lock_cases)

lemma answered_unpoisoned: "server_verify d req srv w = (Some r, srv', w') \<Longrightarrow> \<not> poisoned srv"
  by (auto simp: operation_defs with_lock_def)

lemma totp_window_one:
  "PqTotp.verify pf s seed code ts 1 = Some valid \<longleftrightarrow>
     valid = (\<exists>x. abs_diff x (current_step ts) \<le> 1 \<and> generate_at_step s seed x = Some code)"
  using verify_eq [OF small_window_fits [of 1 ts], of pf s seed code]
  by (auto simp: generate_at_step_total current_step_def)

lemma admitted_verify_cases:
  assumes "\<not> poisoned srv" and "\<not> clock_fails d" and "users (inner srv) (vr_user_id req) = Some rc"
    and "limiter d (inner srv) (vr_user_id req) w = Some (True, e)"
  obtains (totp) code ts valid srv' w' where "vr_method req = Totp code" "clock_shows d ts"
      "PqTotp.verify (build d) (sha d) (rec_totp_seed rc) code ts 1 = Some valid"
      "server_verify d req srv w = (Some (Inr \<lparr>vs_valid = valid,
         vs_message = (if valid then ''TOTP verified'' else ''Invalid TOTP code'')\<rparr>), srv', w')"
  | (challenge) n cts sig ch ts res v srv' w' where "vr_method req = ChallengeMethod n cts sig"
      "clock_shows d ts" "pending_challenges (inner srv) (vr_user_id req) = Some ch"
      "verifier_verify (dil d) (verifier (inner srv)) ch (response_of (hexc d) n cts sig)
         (rec_dilithium_public rc) ts = (res, v)"
      "server_verify d req srv w = (Some (Inr \<lparr>vs_valid = is_ok res, vs_message =
         (if is_ok res then ''Challenge-response verified'' else ''Challenge verification failed'')\<rparr>), srv', w')"
  | (absent) n cts sig srv' w' where "vr_method req = ChallengeMethod n cts sig"
      "pending_challenges (inner srv) (vr_user_id req) = None"
      "server_verify d req srv w = (Some (Inl (NoPendingChallenge (vr_user_id req))), srv', w')"
proof -
  obtain r srv' w' where v: "server_verify d req srv w = (r, srv', w')" by (metis prod_cases3)
  from server_verify_runs [OF this assms(1)]
  have "do_verify d req (inner srv) w = (r, inner srv', w')" by simp
  then show thesis
  proof (cases rule: verify_cases)
    case (totp rc' e' code ts ts' valid)
    with assms(3) v show thesis by (intro that(1) [of code ts valid srv' w']) simp_all
  next
    case (challenge rc' e' n cts sig ch ts ts' res v')
    with assms(3) v show thesis by (intro that(2) [of n cts sig ts ch res v' srv' w']) simp_all
  next
    case (absent rc' e' n cts sig)
    with v show thesis by (intro that(3) [of n cts sig srv' w']) simp_all
  qed (use assms in simp_all)
qed

lemma valid_login:
  assumes "server_verify d req srv w = (Some (Inr resp), srv', w')" and "vs_valid resp"
  shows "\<exists>rc ts. users (inner srv) (vr_user_id req) = Some rc \<and> clock_shows d ts \<and>
    (case vr_method req of
       Totp code \<Rightarrow>
         (\<exists>x. abs_diff x (current_step ts) \<le> 1 \<and> generate_at_step (sha d) (rec_totp_seed rc) x = Some code)
     | ChallengeMethod n cts sig \<Rightarrow>
         (\<exists>ch. pending_challenges (inner srv) (vr_user_id req) = Some ch \<and>
            unat ts - unat (issued_at ch) \<le> 300 \<and>
            abs_diff cts ts \<le> max_clock_skew (verifier (inner srv)) \<and>
            verify_detached (dil d) (rec_dilithium_public rc) (nonce ch @ u64_to_be cts)
              (unwrap_or_default (hex_decode (hexc d) sig)) = Inr () \<and>
            pending_challenges (inner srv') (vr_user_id req) = None))"
proof -
  have "do_verify d req (inner srv) w = (Some (Inr resp), inner srv', w')"
    using server_verify_runs [OF assms(1)] answered_unpoisoned [OF assms(1)] by simp
  then show ?thesis
  proof (cases rule: verify_cases)
    case (totp rc e code ts ts' valid)
    then have "\<exists>x. abs_diff x (current_step ts) \<le> 1 \<and> generate_at_step (sha d) (rec_totp_seed rc) x = Some code"
      using totp_window_one [THEN iffD1, OF totp(5)] totp(6) assms(2) by simp
    with totp show ?thesis by auto
  next
    case (challenge rc e n cts sig ch ts ts' res v)
    then obtain u where "res = Inr u" using assms(2) by (cases res) simp_all
    with challenge(6) have "\<not> is_expired ch ts \<and> abs_diff cts ts \<le> max_clock_skew (verifier (inner srv)) \<and>
        verify_detached (dil d) (rec_dilithium_public rc) (nonce ch @ u64_to_be cts)
          (unwrap_or_default (hex_decode (hexc d) sig)) = Inr ()"
      by (simp add: verifier_verify_accepts response_of_def signing_payload_def)
    with challenge show ?thesis
      by (intro exI [of _ rc] exI [of _ ts]) (simp add: is_expired_iff)
  qed simp_all
qed

section \<open>Properties\<close>

text \<open>C1. Authentication is sound. When the server reports a valid login, the user is enrolled and,
  for the time the server's clock showed: a TOTP code is the code of a step at most one away from the
  current one under the enrolled seed; a challenge response answers the challenge the server itself
  issued to that user and still held, at most 300 seconds old, with a client time within the clock
  skew and a signature by the enrolled key over that challenge's nonce and the client time; and the
  challenge is gone afterwards.\<close>

theorem login_is_sound:
  assumes "server_verify d req srv w = (Some (Inr resp), srv', w')" and "vs_valid resp"
  shows "\<exists>rc ts. users (inner srv) (vr_user_id req) = Some rc \<and> clock_shows d ts \<and>
    (case vr_method req of
       Totp code \<Rightarrow>
         (\<exists>x. abs_diff x (current_step ts) \<le> 1 \<and> generate_at_step (sha d) (rec_totp_seed rc) x = Some code)
     | ChallengeMethod n cts sig \<Rightarrow>
         (\<exists>ch. pending_challenges (inner srv) (vr_user_id req) = Some ch \<and>
            unat ts - unat (issued_at ch) \<le> 300 \<and>
            abs_diff cts ts \<le> max_clock_skew (verifier (inner srv)) \<and>
            verify_detached (dil d) (rec_dilithium_public rc) (nonce ch @ u64_to_be cts)
              (unwrap_or_default (hex_decode (hexc d) sig)) = Inr () \<and>
            pending_challenges (inner srv') (vr_user_id req) = None))"
  using assms by (rule valid_login)

text \<open>A pending challenge and its answer, for the witnesses.\<close>

definition demo_challenge :: challenge where
  "demo_challenge = \<lparr>nonce = replicate 32 1, issued_at = 1000\<rparr>"

definition demo_waiting :: pq_auth_server where
  "demo_waiting = demo\<lparr>inner := (inner demo)\<lparr>pending_challenges := [''alice'' \<mapsto> demo_challenge]\<rparr>\<rparr>"

definition demo_login :: verify_request where
  "demo_login = \<lparr>vr_user_id = ''alice'', vr_method =
     ChallengeMethod (hex_text (replicate 32 1)) 1003 (hex_text (toy_sig 5 (signing_payload demo_challenge 1003)))\<rparr>"

lemma demo_waiting_sel [simp]:
  "\<not> poisoned demo_waiting" "users (inner demo_waiting) = [''alice'' \<mapsto> demo_record]"
  "pending_challenges (inner demo_waiting) = [''alice'' \<mapsto> demo_challenge]"
  "rate_limits (inner demo_waiting) = Map.empty" "max_attempts (inner demo_waiting) = 5"
  "rate_window (inner demo_waiting) = 300" "verifier (inner demo_waiting) = verifier_new 60"
  by (simp_all add: demo_waiting_def)

lemma limiter_first:
  "rate_limits s u = None \<Longrightarrow> max_attempts s = 5 \<Longrightarrow> rate_window s = 300 \<Longrightarrow>
     limiter d s u w = Some (True, (1, request_time d w))"
  by (simp add: limiter_def entry_or_insert_def rate_entry_step_def checked_sub_le checked_add_small)

lemma demo_login_accepted:
  "\<exists>srv' w'. server_verify (still Debug 1005) demo_login demo_waiting (0, 0) =
     (Some (Inr \<lparr>vs_valid = True, vs_message = ''Challenge-response verified''\<rparr>), srv', w')"
proof -
  have lim: "limiter (still Debug 1005) (inner demo_waiting) (vr_user_id demo_login) (0, 0) = Some (True, (1, 1005))"
    by (simp add: limiter_first)
  have resp: "response_of toy_hex (hex_text (replicate 32 1)) 1003 (hex_text sg) =
      \<lparr>resp_nonce = replicate 32 1, client_timestamp = 1003, signature = sg\<rparr>" for sg
    by (simp add: response_of_def toy_hex_def hex_parse_text try_into_array_def)
  have accepted: "verifier_verify toy_dil (verifier_new 60) demo_challenge
      \<lparr>resp_nonce = replicate 32 1, client_timestamp = 1003, signature = toy_sig 5 (signing_payload demo_challenge 1003)\<rparr>
      (replicate 1952 5) 1005 = (Inr (), mark_used (verifier_new 60) (replicate 32 1) 1000)"
    unfolding verifier_verify_accepts by (simp add: demo_challenge_def is_expired_iff abs_diff_def)
  have user: "users (inner demo_waiting) (vr_user_id demo_login) = Some demo_record"
    and clock: "\<not> clock_fails (still Debug 1005)" by (simp_all add: demo_login_def)
  show ?thesis
    by (rule admitted_verify_cases [OF demo_waiting_sel(1) clock user lim])
      (use resp accepted in \<open>auto simp: demo_login_def demo_record_def\<close>)
qed

theorem login_is_sound_witness:
  "\<exists>rc ts ch. users (inner demo_waiting) ''alice'' = Some rc \<and> clock_shows (still Debug 1005) ts \<and>
     pending_challenges (inner demo_waiting) ''alice'' = Some ch \<and> unat ts - unat (issued_at ch) \<le> 300"
proof -
  obtain srv' w' where "server_verify (still Debug 1005) demo_login demo_waiting (0, 0) =
     (Some (Inr \<lparr>vs_valid = True, vs_message = ''Challenge-response verified''\<rparr>), srv', w')"
    using demo_login_accepted by blast
  from login_is_sound [OF this] show ?thesis by (simp add: demo_login_def)
qed

text \<open>C6. The reachable states are well-formed. Unless a panic poisoned the server: no user has both a
  session and a record, challenges and rate entries belong to enrolled users, every record holds a
  1952-byte key, a 32-byte seed and the server's identity, the limits are the configured ones, and the
  audit log has exactly one \<open>enroll_complete\<close> entry for each enrolled user, no entry on behalf of a
  user not enrolled (sessions apart), and a detail exactly on the failed challenge answers, so
  never on a TOTP entry.\<close>

theorem reachable_well_formed:
  assumes "(server_step d)\<^sup>*\<^sup>* (server_new sid) srv" and "\<not> poisoned srv"
  shows "accounts_ok (inner srv) \<and> limits_ok (inner srv) \<and> log_ok (inner srv)"
proof -
  have "server_inv srv" by (rule server.reachable_inv [OF _ assms(1)]) blast
  with assms(2) show ?thesis by (simp add: server_inv_def)
qed

lemma begin_answered:
  assumes "\<not> clock_fails d" and "\<not> poisoned srv"
  shows "\<not> poisoned (after d (EnrollBegin u) srv w)"
proof -
  obtain r srv' w' where s: "serve d (EnrollBegin u) srv w = (r, srv', w')" by (metis prod_cases3)
  then have "r \<noteq> None" using serve_panic [of d "EnrollBegin u" srv w srv' w'] assms by auto
  then show ?thesis using serve_poison_iff [OF s assms(2)] by (simp add: after_def s del: serve.simps)
qed

theorem reachable_well_formed_witness:
  defines "srv \<equiv> after (still Debug 1000) (EnrollBegin ''alice'') (server_new ''s'') (0, 5)"
  shows "accounts_ok (inner srv) \<and> limits_ok (inner srv) \<and> log_ok (inner srv)"
proof (rule reachable_well_formed)
  show "(server_step (still Debug 1000))\<^sup>*\<^sup>* (server_new ''s'') srv"
    unfolding srv_def by (rule r_into_rtranclp) (rule serve_is_step)
  show "\<not> poisoned srv" unfolding srv_def by (rule begin_answered) (simp_all add: server_new_def)
qed

text \<open>C7. Refinement to the account machine. On an unpoisoned well-formed server every request changes
  the accounts (unknown, pending with a session, enrolled with a record) exactly as the abstract
  machine: \<open>enroll_begin\<close> starts or replaces a session of a user who is not enrolled, a completion turns
  the session into the record it computes or, when it is refused, discards the session; nothing else
  changes an account, and no account of another user moves.\<close>

theorem requests_refine_accounts:
  assumes "server_inv srv" and "\<not> poisoned srv"
  shows "account_of (inner (after d req srv w)) =
    account_step d req (fst (server_enrollment_new (kyb d) (server_id (inner srv)) w)) (account_of (inner srv))"
  using assms by (rule account_step_refined)

theorem requests_refine_accounts_witness:
  "account_of (inner (after (still Debug 1000) (EnrollBegin ''bob'') demo (0, 5))) ''bob'' =
     Pending (fst (server_enrollment_new toy_kyb ''s'' (0, 5)))"
  by (subst requests_refine_accounts [OF demo_inv]) (simp_all add: account_of_def)

text \<open>A challenge is answered at most once. In every run of requests from a new server, and for
  every user, the number of challenge answers the server judged, valid or not, is at most the number of
  challenges it issued to that user.\<close>

theorem challenges_single_use:
  "count_replies (judges u) d rqs (server_new sid) \<le> count_replies (issues u) d rqs (server_new sid)"
  using judged_at_most_issued [of u d rqs "server_new sid"]
  by (simp add: waiting_def server_new_def inner_new_def)

text \<open>C4. Rate limiting. Take any run of requests whose times do not decrease and lie within one window of
  300 seconds. A user with no entry in the limiter gets at most 5 attempts past it (challenges issued or
  credentials checked); a user whose open window has already counted \<open>c\<close> attempts gets at most what is
  left of it plus one full window.\<close>

theorem attempts_bounded:
  assumes "server_inv srv" and "sorted (map (\<lambda>rq. request_time d (snd rq)) rqs)"
    and "list_all (\<lambda>rq. t0 \<le> request_time d (snd rq) \<and> unat (request_time d (snd rq)) \<le> unat t0 + 300) rqs"
    and "case rate_limits (inner srv) u of None \<Rightarrow> length rqs < 2 ^ 32
         | Some (c, start) \<Rightarrow> start \<le> t0 \<and> unat c + length rqs < 2 ^ 32"
  shows "count_replies (\<lambda>req r. attempt_of u req \<and> past_limiter r) d rqs srv \<le>
    (case rate_limits (inner srv) u of None \<Rightarrow> 5 | Some (c, start) \<Rightarrow> (5 - unat c) + 5)"
proof -
  obtain ts where ts: "sorted ts" "set ts \<subseteq> set (map (\<lambda>rq. request_time d (snd rq)) rqs)"
    "length ts \<le> length rqs" and le: "count_replies (\<lambda>req r. attempt_of u req \<and> past_limiter r) d rqs srv
      \<le> admitted (limiter_run (build d) 5 300 (rate_limits (inner srv) u) ts)"
    using attempts_follow_limiter [OF assms(1,2)] by metis
  have within: "list_all (\<lambda>t. t0 \<le> t \<and> unat t \<le> unat t0 + unat (300 :: u64)) ts"
    using ts(2) assms(3) by (fastforce simp: list_all_iff)
  show ?thesis
  proof (cases "rate_limits (inner srv) u")
    case None
    with limiter_fresh [OF ts(1) within, of "build d" 5] ts(3) le assms(4) show ?thesis by simp
  next
    case (Some e)
    obtain c start where e: "e = (c, start)" by (cases e)
    have "list_all (\<lambda>t. start \<le> t \<and> t0 \<le> t \<and> unat t \<le> unat t0 + unat (300 :: u64)) ts"
      using within assms(4) Some e by (auto simp: list_all_iff)
    from limiter_two_windows [OF ts(1) this, of c 5 "build d"] ts(3) le assms(4) Some e show ?thesis by simp
  qed
qed

theorem attempts_bounded_witness:
  "count_replies (\<lambda>req r. attempt_of ''alice'' req \<and> past_limiter r) (still Debug 1000)
     (replicate 9 (IssueChallenge ''alice'', (0, 5))) demo \<le> 5"
  using attempts_bounded [OF demo_inv, of "still Debug 1000" "replicate 9 (IssueChallenge ''alice'', (0, 5))" 1000 "''alice''"]
  by (simp add: list_all_iff)

text \<open>C18. When a request panics. An unpoisoned server panics on a request only if the system clock can
  show a time before 1970, or in a debug build when the rate limiter's arithmetic overflows for the
  user of the request: the clock is behind the start of the user's window, or the window counted
  2 ^ 32 - 1 attempts. So a release build with a sane clock answers every request.\<close>

theorem panics_only_if:
  assumes "serve d req srv w = (None, srv', w')" and "\<not> poisoned srv"
  shows "clock_fails d \<or> build d = Debug \<and>
    (\<exists>u c start. attempt_of u req \<and> rate_limits (inner srv) u = Some (c, start) \<and>
       (request_time d w < start \<or> unat c + 1 = 2 ^ 32))"
  using serve_panic [OF assms] by (metis limiter_None)

text \<open>A user whose window started at 1000.\<close>

definition demo_window :: "u32 \<Rightarrow> pq_auth_server" where
  "demo_window c = demo\<lparr>inner := (inner demo)\<lparr>rate_limits := [''alice'' \<mapsto> (c, 1000)]\<rparr>\<rparr>"

lemma demo_window_sel [simp]:
  "\<not> poisoned (demo_window c)" "users (inner (demo_window c)) = [''alice'' \<mapsto> demo_record]"
  "pending_challenges (inner (demo_window c)) = Map.empty"
  "rate_limits (inner (demo_window c)) = [''alice'' \<mapsto> (c, 1000)]" "max_attempts (inner (demo_window c)) = 5"
  "rate_window (inner (demo_window c)) = 300"
  by (simp_all add: demo_window_def)

text \<open>C19. A clock that steps back. When the system clock is set behind the start of the user's window
  (by less than 2 ^ 64 - 300 seconds), the unchecked subtraction \<open>now - entry.1\<close> underflows: a debug
  build panics in the user's next attempt and the poisoned mutex makes every later request of every
  user panic; a release build takes the wrapped age for an old window and starts a fresh one, so the
  user's count is forgotten.\<close>

lemma limiter_backwards:
  assumes "rate_limits s u = Some (c, start)" and "request_time d w < start"
    and "unat start - unat (request_time d w) < 2 ^ 64 - 300" and "rate_window s = 300"
  shows "limiter d s u w = (if build d = Debug then None else Some (True, (1, request_time d w)))"
  using rate_entry_step_backwards [OF assms(2,3), of "max_attempts s" c] assms(1,4)
  by (cases "build d") (simp_all add: limiter_def entry_or_insert_def)

theorem clock_steps_back:
  assumes "\<not> poisoned srv" and "u \<in> dom (users (inner srv))"
    and "rate_limits (inner srv) u = Some (c, start)" and "rate_window (inner srv) = 300"
    and "request_time d w < start" and "unat start - unat (request_time d w) < 2 ^ 64 - 300"
  shows "(build d = Debug \<longrightarrow>
      fst (serve d (IssueChallenge u) srv w) = None \<and>
      (\<forall>req w'. fst (serve d req (after d (IssueChallenge u) srv w) w') = None)) \<and>
    (build d = Release \<longrightarrow> \<not> clock_fails d \<longrightarrow>
      rate_limits (inner (after d (IssueChallenge u) srv w)) u = Some (1, request_time d w) \<and>
      past_limiter (fst (serve d (IssueChallenge u) srv w)))"
proof -
  obtain r srv' w' where s: "serve d (IssueChallenge u) srv w = (r, srv', w')" by (metis prod_cases3)
  from issue_runs [OF s assms(1)] obtain r0 where r0: "r = map_option Issued r0" "poisoned srv' \<longleftrightarrow> r0 = None"
    and body: "do_issue_challenge d u (inner srv) w = (r0, inner srv', w')" by blast
  have lim: "limiter d (inner srv) u w = (if build d = Debug then None else Some (True, (1, request_time d w)))"
    using assms(3,5,6,4) by (rule limiter_backwards)
  show ?thesis
  proof (cases "build d")
    case Debug
    from body have "r0 = None"
      by (cases rule: issue_challenge_cases) (use lim Debug assms(2) in simp_all)
    with r0 Debug show ?thesis by (simp add: after_def s serve_poisoned del: serve.simps)
  next
    case Release
    from body have "clock_fails d \<or> (rate_limits (inner srv') u = Some (1, request_time d w) \<and> past_limiter r)"
      by (cases rule: issue_challenge_cases) (use lim Release assms(2) r0(1) in auto)
    with Release show ?thesis by (auto simp: after_def s simp del: serve.simps)
  qed
qed

theorem clock_steps_back_witness:
  "fst (serve (still Debug 900) (IssueChallenge ''alice'') (demo_window 3) (0, 0)) = None \<and>
   past_limiter (fst (serve (still Release 900) (IssueChallenge ''alice'') (demo_window 5) (0, 0)))"
  using clock_steps_back [of "demo_window 3" "''alice''" 3 1000 "still Debug 900" "(0, 0)"]
    clock_steps_back [of "demo_window 5" "''alice''" 5 1000 "still Release 900" "(0, 0)"]
  by (simp del: serve.simps)

theorem panics_only_if_witness:
  "\<exists>c start. rate_limits (inner (demo_window 3)) ''alice'' = Some (c, start) \<and>
     (request_time (still Debug 900) (0, 0) < start \<or> unat c + 1 = 2 ^ 32)"
proof -
  obtain r srv' w' where s: "serve (still Debug 900) (IssueChallenge ''alice'') (demo_window 3) (0, 0) = (r, srv', w')"
    by (metis prod_cases3)
  from issue_runs [OF s] obtain r0 where r: "r = map_option Issued r0" "poisoned srv' \<longleftrightarrow> r0 = None"
    and body: "do_issue_challenge (still Debug 900) ''alice'' (inner (demo_window 3)) (0, 0) = (r0, inner srv', w')"
    by auto
  have "limiter (still Debug 900) (inner (demo_window 3)) ''alice'' (0, 0) = None"
    by (subst limiter_backwards [of _ _ 3 1000]) simp_all
  with body have "r0 = None" by (cases rule: issue_challenge_cases) simp_all
  with s r have "serve (still Debug 900) (IssueChallenge ''alice'') (demo_window 3) (0, 0) = (None, srv', w')" by simp
  from panics_only_if [OF this] show ?thesis by simp
qed

text \<open>A TOTP request, in both directions.\<close>

lemma totp_answer:
  assumes "server_verify d \<lparr>vr_user_id = u, vr_method = Totp code\<rparr> srv w = (Some (Inr r), srv', w')"
  shows "\<exists>rc ts. users (inner srv) u = Some rc \<and> clock_shows d ts \<and> users (inner srv') = users (inner srv) \<and>
    vs_valid r = (\<exists>x. abs_diff x (current_step ts) \<le> 1 \<and> generate_at_step (sha d) (rec_totp_seed rc) x = Some code)"
proof -
  let ?req = "\<lparr>vr_user_id = u, vr_method = Totp code\<rparr>"
  have "do_verify d ?req (inner srv) w = (Some (Inr r), inner srv', w')"
    using server_verify_runs [OF assms] answered_unpoisoned [OF assms] by simp
  then show ?thesis
  proof (cases rule: verify_cases)
    case (totp rc e code' ts ts' valid)
    with totp_window_one [THEN iffD1, OF totp(5)] show ?thesis
      by (intro exI [of _ rc] exI [of _ ts]) simp
  qed simp_all
qed

definition usual :: "pq_auth_server \<Rightarrow> string \<Rightarrow> rate_entry \<Rightarrow> pq_auth_server \<Rightarrow> bool" where
  "usual srv u e srv' \<longleftrightarrow> \<not> poisoned srv' \<and> users (inner srv') = users (inner srv) \<and>
     rate_limits (inner srv') = (rate_limits (inner srv))(u \<mapsto> e) \<and>
     max_attempts (inner srv') = max_attempts (inner srv) \<and> rate_window (inner srv') = rate_window (inner srv)"

lemma totp_login:
  assumes "\<not> poisoned srv" and "\<not> clock_fails d" and "users (inner srv) u = Some rc"
    and "limiter d (inner srv) u w = Some (True, e)"
    and "\<And>t. clock_shows d t \<Longrightarrow>
      \<exists>x. abs_diff x (current_step t) \<le> 1 \<and> generate_at_step (sha d) (rec_totp_seed rc) x = Some code"
  obtains srv' w' where "server_verify d \<lparr>vr_user_id = u, vr_method = Totp code\<rparr> srv w =
      (Some (Inr \<lparr>vs_valid = True, vs_message = ''TOTP verified''\<rparr>), srv', w')"
    and "usual srv u e srv'" and "verifier (inner srv') = verifier (inner srv)"
proof -
  let ?req = "\<lparr>vr_user_id = u, vr_method = Totp code\<rparr>"
  obtain r srv' w' where v: "server_verify d ?req srv w = (r, srv', w')" by (metis prod_cases3)
  from server_verify_runs [OF this assms(1)]
  have body: "do_verify d ?req (inner srv) w = (r, inner srv', w')" and "poisoned srv' \<longleftrightarrow> r = None" by simp_all
  from body show thesis
  proof (cases rule: verify_cases)
    case (totp rc' e' code' ts ts' valid)
    with assms(3) have "valid"
      using totp_window_one [THEN iffD1, OF totp(5)] assms(5) [OF totp(4)] by simp
    with totp assms(4) v \<open>poisoned srv' \<longleftrightarrow> r = None\<close> show thesis
      by (intro that [of srv' w']) (simp_all add: usual_def)
  qed (use assms in simp_all)
qed

lemma same_step_code:
  "generate s seed t = Some code \<Longrightarrow> abs_diff (current_step t) (current_step t') \<le> 1 \<Longrightarrow>
     \<exists>x. abs_diff x (current_step t') \<le> 1 \<and> generate_at_step s seed x = Some code"
  by (auto simp: generate_def current_step_def)

text \<open>C28. TOTP codes are not one-time. A code the server accepted is accepted again in a later request as
  long as the clock stays within the same 30-second step and the limiter lets the request through;
  nothing records that the code was used.\<close>

theorem totp_code_reusable:
  assumes "server_verify d \<lparr>vr_user_id = u, vr_method = Totp code\<rparr> srv w = (Some (Inr r1), srv1, w1)"
    and "vs_valid r1"
    and "server_verify d \<lparr>vr_user_id = u, vr_method = Totp code\<rparr> srv1 w2 = (Some (Inr r2), srv2, w3)"
    and "\<And>t t'. clock_shows d t \<Longrightarrow> clock_shows d t' \<Longrightarrow> current_step t = current_step t'"
  shows "vs_valid r2"
proof -
  obtain rc ts where one: "users (inner srv) u = Some rc" "clock_shows d ts"
    "users (inner srv1) = users (inner srv)"
    "\<exists>x. abs_diff x (current_step ts) \<le> 1 \<and> generate_at_step (sha d) (rec_totp_seed rc) x = Some code"
    using totp_answer [OF assms(1)] assms(2) by metis
  obtain rc' ts' where two: "users (inner srv1) u = Some rc'" "clock_shows d ts'"
    "vs_valid r2 = (\<exists>x. abs_diff x (current_step ts') \<le> 1 \<and> generate_at_step (sha d) (rec_totp_seed rc') x = Some code)"
    using totp_answer [OF assms(3)] by metis
  have "rc' = rc" using one two by simp
  with assms(4) [OF two(2) one(2)] one(4) two(3) show ?thesis by simp
qed

theorem totp_code_reusable_witness:
  "\<exists>code srv1 w1 r2 srv2 w3.
     server_verify (still Debug 1000) \<lparr>vr_user_id = ''alice'', vr_method = Totp code\<rparr> demo (0, 0) =
       (Some (Inr \<lparr>vs_valid = True, vs_message = ''TOTP verified''\<rparr>), srv1, w1) \<and>
     server_verify (still Debug 1000) \<lparr>vr_user_id = ''alice'', vr_method = Totp code\<rparr> srv1 (0, 0) =
       (Some (Inr r2), srv2, w3) \<and> vs_valid r2"
proof -
  let ?d = "still Debug 1000"
  obtain code where "generate toy_sha (rec_totp_seed demo_record) 1000 = Some code" by (simp add: totp.gen_eq)
  then have good: "\<exists>x. abs_diff x (current_step t) \<le> 1 \<and>
      generate_at_step (sha ?d) (rec_totp_seed demo_record) x = Some code" if "clock_shows ?d t" for t
    using that same_step_code [of toy_sha _ 1000 code t] by simp
  have clock: "\<not> clock_fails ?d" and alice: "users (inner demo) ''alice'' = Some demo_record" by simp_all
  have "limiter ?d (inner demo) ''alice'' (0, 0) = Some (True, (1, 1000))" by (simp add: limiter_first)
  from totp_login [OF demo_sel(1) clock alice this good] obtain srv1 w1 where
    one: "server_verify ?d \<lparr>vr_user_id = ''alice'', vr_method = Totp code\<rparr> demo (0, 0) =
       (Some (Inr \<lparr>vs_valid = True, vs_message = ''TOTP verified''\<rparr>), srv1, w1)"
    and usual: "usual demo ''alice'' (1, 1000) srv1" by metis
  have "limiter ?d (inner srv1) ''alice'' (0, 0) = Some (True, (2, 1000))"
    using usual by (simp add: usual_def limiter_def entry_or_insert_def rate_entry_step_def checked_sub_le checked_add_small)
  moreover have "\<not> poisoned srv1" "users (inner srv1) ''alice'' = Some demo_record"
    using usual by (simp_all add: usual_def)
  ultimately obtain srv2 w3 where
    two: "server_verify ?d \<lparr>vr_user_id = ''alice'', vr_method = Totp code\<rparr> srv1 (0, 0) =
       (Some (Inr \<lparr>vs_valid = True, vs_message = ''TOTP verified''\<rparr>), srv2, w3)"
    using totp_login [OF _ clock _ _ good] by metis
  from totp_code_reusable [OF one _ two] one two show ?thesis by fastforce
qed

text \<open>What the audit log should say of a request and its reply.\<close>

fun subject :: "request \<Rightarrow> string" where
  "subject (EnrollBegin u) = u"
| "subject (EnrollComplete req) = ecr_user_id req"
| "subject (IssueChallenge u) = u"
| "subject (Verify req) = vr_user_id req"

fun action_name :: "request \<Rightarrow> string" where
  "action_name (EnrollBegin u) = ''enroll_begin''"
| "action_name (EnrollComplete req) = ''enroll_complete''"
| "action_name (IssueChallenge u) = ''challenge_issued''"
| "action_name (Verify req) =
     (case vr_method req of Totp _ \<Rightarrow> ''verify_totp'' | ChallengeMethod _ _ _ \<Rightarrow> ''verify_challenge'')"

fun verdict :: "reply \<Rightarrow> bool option" where
  "verdict (Begun (Inr _)) = Some True"
| "verdict (Completed (Inr _)) = Some True"
| "verdict (Issued (Inr _)) = Some True"
| "verdict (Verified (Inr r)) = Some (vs_valid r)"
| "verdict _ = None"

definition logs_reply :: "request \<Rightarrow> reply \<Rightarrow> server_inner \<Rightarrow> server_inner \<Rightarrow> bool" where
  "logs_reply req r s s' \<longleftrightarrow>
     (case verdict r of
        None \<Rightarrow> audit_log s' = audit_log s
      | Some ok \<Rightarrow> \<exists>ts det. audit_log s' = audit_log s @ [entry_of ts (subject req) (action_name req) ok det])"

lemma audit_of_reply:
  assumes "serve d req srv w = (Some r, srv', w')"
  shows "logs_reply req r (inner srv) (inner srv')"
proof -
  have live: "\<not> poisoned srv" using assms serve_poisoned [of srv d req w] by auto
  show ?thesis
  proof (cases req)
    case (EnrollBegin u)
    from begin_runs [OF assms [unfolded EnrollBegin] live] obtain r0 where r: "Some r = map_option Begun r0"
      and "do_enroll_begin d u (inner srv) w = (r0, inner srv', w')" by blast
    from this(2) show ?thesis
      by (cases rule: enroll_begin_cases) (use r in \<open>auto simp: EnrollBegin logs_reply_def\<close>)
  next
    case (EnrollComplete rq)
    from complete_runs [OF assms [unfolded EnrollComplete] live] obtain r0 where r: "Some r = map_option Completed r0"
      and "do_enroll_complete d rq (inner srv) w = (r0, inner srv', w')" by blast
    from this(2) show ?thesis
      by (cases rule: enroll_complete_cases) (use r in \<open>auto simp: EnrollComplete logs_reply_def\<close>)
  next
    case (IssueChallenge u)
    from issue_runs [OF assms [unfolded IssueChallenge] live] obtain r0 where r: "Some r = map_option Issued r0"
      and "do_issue_challenge d u (inner srv) w = (r0, inner srv', w')" by blast
    from this(2) show ?thesis
      by (cases rule: issue_challenge_cases) (use r in \<open>auto simp: IssueChallenge logs_reply_def\<close>)
  next
    case (Verify rq)
    from verify_runs [OF assms [unfolded Verify] live] obtain r0 where r: "Some r = map_option Verified r0"
      and "do_verify d rq (inner srv) w = (r0, inner srv', w')" by blast
    from this(2) show ?thesis
      by (cases rule: verify_cases) (use r in \<open>auto simp: Verify logs_reply_def\<close>)
  qed
qed

text \<open>C16. The audit log follows the replies. A request answered with an error leaves the log as it is; a
  request answered with a result appends exactly one entry, with the user and the action of the request
  and, for a login, the verdict sent to the client.\<close>

theorem audit_follows_replies:
  assumes "serve d req srv w = (Some r, srv', w')"
  shows "logs_reply req r (inner srv) (inner srv')"
  using assms by (rule audit_of_reply)

theorem audit_follows_replies_witness:
  "\<exists>r srv' w'. serve (still Debug 1005) (Verify demo_login) demo_waiting (0, 0) = (Some r, srv', w') \<and>
     verdict r = Some True \<and> logs_reply (Verify demo_login) r (inner demo_waiting) (inner srv')"
proof -
  obtain srv' w' where v: "server_verify (still Debug 1005) demo_login demo_waiting (0, 0) =
     (Some (Inr \<lparr>vs_valid = True, vs_message = ''Challenge-response verified''\<rparr>), srv', w')"
    using demo_login_accepted by blast
  then have "serve (still Debug 1005) (Verify demo_login) demo_waiting (0, 0) =
     (Some (Verified (Inr \<lparr>vs_valid = True, vs_message = ''Challenge-response verified''\<rparr>)), srv', w')"
    by (simp add: answer_def)
  from this audit_follows_replies [OF this] show ?thesis by (intro exI conjI) simp_all
qed

section \<open>Whole exchanges\<close>

lemma enroll_begin_works:
  assumes "\<not> poisoned srv" and "\<not> clock_fails d" and "u \<notin> dom (users (inner srv))"
  obtains se srv1 w1 where "se = fst (server_enrollment_new (kyb d) (server_id (inner srv)) w)"
    and "enroll_begin d u srv w = (Some (Inr \<lparr>eb_kyber_public_key = hex_encode (hexc d) (se_kyber_public se),
      eb_server_id = server_id (inner srv)\<rparr>), srv1, w1)"
    and "\<not> poisoned srv1" and "users (inner srv1) = users (inner srv)"
    and "pending_enrollments (inner srv1) u = Some se" and "rate_limits (inner srv1) = rate_limits (inner srv)"
    and "verifier (inner srv1) = verifier (inner srv)"
proof -
  obtain r srv1 w1 where b: "enroll_begin d u srv w = (r, srv1, w1)" by (metis prod_cases3)
  then have body: "do_enroll_begin d u (inner srv) w = (r, inner srv1, w1)" "poisoned srv1 \<longleftrightarrow> r = None"
    using assms(1) by (auto simp: operation_defs elim: with_lock_cases)
  from body(1) show thesis
  proof (cases rule: enroll_begin_cases)
    case (begun se ts)
    with b body(2) show thesis by (intro that [of se srv1 w1]) simp_all
  qed (use assms in simp_all)
qed

lemma enroll_complete_works:
  assumes "\<not> poisoned srv" and "\<not> clock_fails d" and "hex_law (hexc d)"
    and "pending_enrollments (inner srv) u = Some se" and "complete (sha d) (kyb d) se resp = Inr rc"
  obtains srv' w' where "enroll_complete d \<lparr>ecr_user_id = u, ecr_ciphertext = hex_encode (hexc d) (er_ciphertext resp),
      ecr_dilithium_public_key = hex_encode (hexc d) (er_dilithium_public resp)\<rparr> srv w =
      (Some (Inr \<lparr>ecs_success = True, ecs_message = ''Enrollment successful''\<rparr>), srv', w')"
    and "\<not> poisoned srv'" and "users (inner srv') = (users (inner srv))(u \<mapsto> rc)"
    and "rate_limits (inner srv') = rate_limits (inner srv)" and "verifier (inner srv') = verifier (inner srv)"
proof -
  let ?req = "\<lparr>ecr_user_id = u, ecr_ciphertext = hex_encode (hexc d) (er_ciphertext resp),
      ecr_dilithium_public_key = hex_encode (hexc d) (er_dilithium_public resp)\<rparr>"
  obtain r srv' w' where b: "enroll_complete d ?req srv w = (r, srv', w')" by (metis prod_cases3)
  then have body: "do_enroll_complete d ?req (inner srv) w = (r, inner srv', w')" "poisoned srv' \<longleftrightarrow> r = None"
    using assms(1) by (auto simp: operation_defs elim: with_lock_cases)
  have same: "completion_of (hexc d) ?req = resp" using assms(3) by (simp add: completion_of_def)
  from body(1) show thesis
  proof (cases rule: enroll_complete_cases)
    case (enrolled se' rc' ts)
    then have "rc' = rc" using assms(4,5) same by simp
    with enrolled b body(2) show thesis by (intro that [of srv' w']) simp_all
  qed (use assms(2,4,5) same in simp_all)
qed

lemma enrollment_flow:
  assumes laws: "hex_law (hexc d)" "kyber768_law (kyb d)" and ok: "\<not> clock_fails d" "\<not> poisoned srv"
    and new: "u \<notin> dom (users (inner srv))" "server_id (inner srv) \<noteq> []" "length pk = 1952"
  obtains b srv1 w1 kpub where "enroll_begin d u srv w = (Some (Inr b), srv1, w1)"
    and "hex_decode (hexc d) (eb_kyber_public_key b) = Some kpub"
    and "\<forall>v v'. \<exists>resp cd v1 srv2 v2 rc.
      client_enroll (sha d) (kyb d) \<lparr>ec_kyber_public = kpub, ec_server_id = eb_server_id b\<rparr> pk v = (Inr (resp, cd), v1) \<and>
      enroll_complete d \<lparr>ecr_user_id = u, ecr_ciphertext = hex_encode (hexc d) (er_ciphertext resp),
        ecr_dilithium_public_key = hex_encode (hexc d) (er_dilithium_public resp)\<rparr> srv1 v' =
        (Some (Inr \<lparr>ecs_success = True, ecs_message = ''Enrollment successful''\<rparr>), srv2, v2) \<and>
      \<not> poisoned srv2 \<and> users (inner srv2) = (users (inner srv))(u \<mapsto> rc) \<and>
      rec_totp_seed rc = ce_totp_seed cd \<and> rec_dilithium_public rc = pk \<and>
      rate_limits (inner srv2) = rate_limits (inner srv) \<and> verifier (inner srv2) = verifier (inner srv)"
proof -
  obtain se srv1 w1 where b: "se = fst (server_enrollment_new (kyb d) (server_id (inner srv)) w)"
    "enroll_begin d u srv w = (Some (Inr \<lparr>eb_kyber_public_key = hex_encode (hexc d) (se_kyber_public se),
      eb_server_id = server_id (inner srv)\<rparr>), srv1, w1)"
    "\<not> poisoned srv1" "users (inner srv1) = users (inner srv)"
    "pending_enrollments (inner srv1) u = Some se" "rate_limits (inner srv1) = rate_limits (inner srv)"
    "verifier (inner srv1) = verifier (inner srv)"
    using enroll_begin_works [OF ok(2,1) new(1)] by metis
  have se: "server_enrollment_new (kyb d) (server_id (inner srv)) w =
      (se, snd (server_enrollment_new (kyb d) (server_id (inner srv)) w))" using b(1) by simp
  then have chal: "enrollment_challenge_of se = \<lparr>ec_kyber_public = se_kyber_public se, ec_server_id = server_id (inner srv)\<rparr>"
    by (auto simp: enrollment_challenge_of_def server_enrollment_new_def split: prod.splits)
  show thesis
  proof (rule that [OF b(2)])
    show "hex_decode (hexc d) (eb_kyber_public_key \<lparr>eb_kyber_public_key = hex_encode (hexc d) (se_kyber_public se),
      eb_server_id = server_id (inner srv)\<rparr>) = Some (se_kyber_public se)" using laws(1) by simp
  next
    let ?Q = "\<lambda>v v'. \<exists>resp cd v1 srv2 v2 rc.
      client_enroll (sha d) (kyb d) \<lparr>ec_kyber_public = se_kyber_public se, ec_server_id =
        eb_server_id \<lparr>eb_kyber_public_key = hex_encode (hexc d) (se_kyber_public se),
          eb_server_id = server_id (inner srv)\<rparr>\<rparr> pk v = (Inr (resp, cd), v1) \<and>
      enroll_complete d \<lparr>ecr_user_id = u, ecr_ciphertext = hex_encode (hexc d) (er_ciphertext resp),
        ecr_dilithium_public_key = hex_encode (hexc d) (er_dilithium_public resp)\<rparr> srv1 v' =
        (Some (Inr \<lparr>ecs_success = True, ecs_message = ''Enrollment successful''\<rparr>), srv2, v2) \<and>
      \<not> poisoned srv2 \<and> users (inner srv2) = (users (inner srv))(u \<mapsto> rc) \<and>
      rec_totp_seed rc = ce_totp_seed cd \<and> rec_dilithium_public rc = pk \<and>
      rate_limits (inner srv2) = rate_limits (inner srv) \<and> verifier (inner srv2) = verifier (inner srv)"
    have "?Q v v'" for v v'
    proof -
      obtain resp cd v1 rc where x: "client_enroll (sha d) (kyb d) (enrollment_challenge_of se) pk v = (Inr (resp, cd), v1)"
        "complete (sha d) (kyb d) se resp = Inr rc" "rec_totp_seed rc = ce_totp_seed cd" "rec_dilithium_public rc = pk"
        using enrollment_exchange [OF laws(2) se new(2,3), where s = "sha d" and w = v] by metis
      obtain srv2 v2 where "enroll_complete d \<lparr>ecr_user_id = u, ecr_ciphertext = hex_encode (hexc d) (er_ciphertext resp),
        ecr_dilithium_public_key = hex_encode (hexc d) (er_dilithium_public resp)\<rparr> srv1 v' =
        (Some (Inr \<lparr>ecs_success = True, ecs_message = ''Enrollment successful''\<rparr>), srv2, v2)"
        "\<not> poisoned srv2" "users (inner srv2) = (users (inner srv1))(u \<mapsto> rc)"
        "rate_limits (inner srv2) = rate_limits (inner srv1)" "verifier (inner srv2) = verifier (inner srv1)"
        using enroll_complete_works [OF b(3) ok(1) laws(1) b(5) x(2)] by metis
      with x b(4,6,7) chal show ?thesis
        by (intro exI [of _ resp] exI [of _ cd] exI [of _ v1] exI [of _ srv2] exI [of _ v2] exI [of _ rc]) simp
    qed
    then show "\<forall>v v'. ?Q v v'" by blast
  qed
qed

lemma challenge_login:
  assumes laws: "hex_law (hexc d)" "dilithium3_law (dil d)" and clock: "\<not> clock_fails d"
    and issued: "issue_challenge d u srv w = (Some (Inr ci), srv1, w1)"
    and user: "users (inner srv) u = Some rc" "rec_dilithium_public rc = public_key kp"
      "keypair_generate (dil d) w0 = (kp, w0')"
    and lim: "limiter d (inner srv1) u w4 = Some (True, e)"
    and times: "\<And>t. clock_shows d t \<Longrightarrow> unat t - unat (ci_issued_at ci) \<le> 300 \<and>
      abs_diff cts t \<le> max_clock_skew (verifier (inner srv))"
    and fresh: "\<And>n. hex_decode (hexc d) (ci_nonce ci) = Some n \<Longrightarrow> used_nonces (verifier (inner srv)) n = None"
  obtains n r w3 srv2 w5 where "hex_decode (hexc d) (ci_nonce ci) = Some n"
    and "respond_to_challenge (dil d) kp \<lparr>nonce = n, issued_at = ci_issued_at ci\<rparr> cts w2 = (Inr r, w3)"
    and "server_verify d \<lparr>vr_user_id = u, vr_method = ChallengeMethod (hex_encode (hexc d) (resp_nonce r)) cts
        (hex_encode (hexc d) (signature r))\<rparr> srv1 w4 =
      (Some (Inr \<lparr>vs_valid = True, vs_message = ''Challenge-response verified''\<rparr>), srv2, w5)"
proof -
  have live: "\<not> poisoned srv" using issued by (auto simp: operation_defs with_lock_def)
  then have live1: "\<not> poisoned srv1" and body: "do_issue_challenge d u (inner srv) w = (Some (Inr ci), inner srv1, w1)"
    using issued by (auto simp: operation_defs elim: with_lock_cases)
  from body obtain ch where ch: "pending_challenges (inner srv1) u = Some ch" "length (nonce ch) = 32"
    "ci = \<lparr>ci_nonce = hex_encode (hexc d) (nonce ch), ci_issued_at = issued_at ch\<rparr>"
    "users (inner srv1) = users (inner srv)" "verifier (inner srv1) = verifier (inner srv)"
    by (cases rule: issue_challenge_cases) auto
  have n: "hex_decode (hexc d) (ci_nonce ci) = Some (nonce ch)" using laws(1) ch(3) by simp
  from dsig.sign_then_check [OF laws(2) generated_keypair_generate [OF user(3)], of "signing_payload ch cts" w2]
  obtain sg w3 where sg: "keypair_sign (dil d) kp (signing_payload ch cts) w2 = (Inr sg, w3)"
    "verify_detached (dil d) (public_key kp) (signing_payload ch cts) sg = Inr ()" by metis
  let ?r = "\<lparr>resp_nonce = nonce ch, client_timestamp = cts, signature = sg\<rparr>"
  have chal: "\<lparr>nonce = nonce ch, issued_at = ci_issued_at ci\<rparr> = ch" using ch(3) by simp
  have resp: "respond_to_challenge (dil d) kp ch cts w2 = (Inr ?r, w3)"
    using sg(1) by (simp add: respond_to_challenge_def)
  have same: "response_of (hexc d) (hex_encode (hexc d) (nonce ch)) cts (hex_encode (hexc d) sg) = ?r"
    using laws(1) ch(2) by (simp add: response_of_def try_into_array_def)
  have accepted: "verifier_verify (dil d) (verifier (inner srv1)) ch ?r (rec_dilithium_public rc) ts =
      (Inr (), mark_used (clear_expired (verifier (inner srv1)) ts) (nonce ch) (issued_at ch))"
    if "clock_shows d ts" for ts
    using times [OF that] fresh [OF n] sg(2) user(2) ch(3,5)
    by (simp add: verifier_verify_accepts is_expired_iff clear_expired_def retain_None)
  let ?req = "\<lparr>vr_user_id = u, vr_method = ChallengeMethod (hex_encode (hexc d) (nonce ch)) cts (hex_encode (hexc d) sg)\<rparr>"
  have u1: "users (inner srv1) (vr_user_id ?req) = Some rc" using user(1) ch(4) by simp
  have l1: "limiter d (inner srv1) (vr_user_id ?req) w4 = Some (True, e)" using lim by simp
  obtain srv2 w5 where "server_verify d ?req srv1 w4 =
      (Some (Inr \<lparr>vs_valid = True, vs_message = ''Challenge-response verified''\<rparr>), srv2, w5)"
    by (rule admitted_verify_cases [OF live1 clock u1 l1]) (use accepted same ch(1) in auto)
  then show thesis using that [OF n, of ?r w3] resp unfolding chal by simp
qed

text \<open>C13. Enrollment is permanent and the log append-only. From any reachable state, whatever requests
  follow and however they end, an enrolled user keeps the same record, the audit log keeps all its
  entries in order, and the server keeps its identity.\<close>

theorem enrollment_permanent:
  assumes "(server_step d)\<^sup>*\<^sup>* (server_new sid) srv" and "(server_step d)\<^sup>*\<^sup>* srv srv'"
    and "users (inner srv) u = Some rc"
  shows "users (inner srv') u = Some rc \<and> prefix (audit_log (inner srv)) (audit_log (inner srv')) \<and>
    server_id (inner srv') = server_id (inner srv)"
proof -
  have "server_inv srv" by (rule server.reachable_inv [OF _ assms(1)]) blast
  then have "server_below srv srv'" using assms(2) by (intro server.run_below)
  then show ?thesis
    using assms(3) by (cases "poisoned srv") (auto simp: server_below_def map_le_def dom_def)
qed

theorem enrollment_permanent_witness:
  "\<exists>srv rc. users (inner srv) ''alice'' = Some rc \<and>
     users (inner (after (still Debug 1000) (EnrollBegin ''alice'') srv (0, 0))) ''alice'' = Some rc"
proof -
  let ?d = "still Debug 1000" and ?new = "server_new ''s''"
  have laws: "hex_law (hexc ?d)" "kyber768_law (kyb ?d)" and clock: "\<not> clock_fails ?d"
    and new: "\<not> poisoned ?new" "''alice'' \<notin> dom (users (inner ?new))" "server_id (inner ?new) \<noteq> []"
    by (simp_all add: toy_laws server_new_def inner_new_def)
  obtain b srv1 w1 kpub where b: "enroll_begin ?d ''alice'' ?new (0, 5) = (Some (Inr b), srv1, w1)"
    and rest: "\<forall>v v'. \<exists>resp cd v1 srv2 v2 rc.
      client_enroll (sha ?d) (kyb ?d) \<lparr>ec_kyber_public = kpub, ec_server_id = eb_server_id b\<rparr> (replicate 1952 7) v = (Inr (resp, cd), v1) \<and>
      enroll_complete ?d \<lparr>ecr_user_id = ''alice'', ecr_ciphertext = hex_encode (hexc ?d) (er_ciphertext resp),
        ecr_dilithium_public_key = hex_encode (hexc ?d) (er_dilithium_public resp)\<rparr> srv1 v' =
        (Some (Inr \<lparr>ecs_success = True, ecs_message = ''Enrollment successful''\<rparr>), srv2, v2) \<and>
      \<not> poisoned srv2 \<and> users (inner srv2) = (users (inner ?new))(''alice'' \<mapsto> rc) \<and>
      rec_totp_seed rc = ce_totp_seed cd \<and> rec_dilithium_public rc = replicate 1952 7 \<and>
      rate_limits (inner srv2) = rate_limits (inner ?new) \<and> verifier (inner srv2) = verifier (inner ?new)"
    by (rule enrollment_flow [OF laws clock new length_replicate, of "(0, 5)"]) (rule that)
  from rest [rule_format, of "(0, 0)" "(0, 0)"] obtain req srv2 v2 rc r where
    c: "enroll_complete ?d req srv1 (0, 0) = (r, srv2, v2)" and rc: "users (inner srv2) ''alice'' = Some rc" by auto
  have "server_step ?d ?new srv1" "server_step ?d srv1 srv2"
    using b c by (auto intro: server_step.intros)
  then have "(server_step ?d)\<^sup>*\<^sup>* ?new srv2" by (meson converse_rtranclp_into_rtranclp r_into_rtranclp)
  moreover have "(server_step ?d)\<^sup>*\<^sup>* srv2 (after ?d (EnrollBegin ''alice'') srv2 (0, 0))"
    by (rule r_into_rtranclp) (rule serve_is_step)
  ultimately show ?thesis using enrollment_permanent [OF _ _ rc] rc by blast
qed

text \<open>C32. A refusal does not last. Take a user with a limiter entry and any run of requests, of any users,
  within 300 seconds of the start of the entry's window, in which nothing panicked. The first attempt of
  the user later than that is let through, however many attempts were made and refused before: being
  refused never moves the window.\<close>

theorem refusals_expire:
  assumes "server_inv srv" and "\<not> clock_fails d" and "u \<in> dom (users (inner srv))"
    and "rate_limits (inner srv) u = Some (c, start)" and "unat c + length rqs < 2 ^ 32"
    and "list_all (\<lambda>rq. start \<le> request_time d (snd rq) \<and>
      unat (request_time d (snd rq)) \<le> unat start + 300) rqs"
    and "\<not> poisoned (serve_all d rqs srv)"
    and "unat start + 300 < unat (request_time d w)"
  shows "\<exists>ci srv' w'. serve d (IssueChallenge u) (serve_all d rqs srv) w = (Some (Issued (Inr ci)), srv', w')"
proof -
  let ?srv = "serve_all d rqs srv"
  obtain c' where e: "rate_limits (inner ?srv) u = Some (c', start)"
    using window_start_stays [OF assms(4,1,7,5,6)] by blast
  have "server_below srv ?srv" using serve_all_steps assms(1) by (rule server.run_below)
  then have user: "u \<in> dom (users (inner ?srv))"
    using assms(3) by (cases "poisoned srv") (auto simp: server_below_def map_le_def dom_def)
  have "server_inv ?srv" using serve_all_steps assms(1) by (rule server.run_inv)
  then have lim: "max_attempts (inner ?srv) = 5" "rate_window (inner ?srv) = 300"
    using assms(7) by (simp_all add: server_inv_def limits_ok_def)
  have "start \<le> request_time d w" using assms(8) by (simp add: word_le_nat_alt)
  then have through: "limiter d (inner ?srv) u w = Some (True, (1, request_time d w))"
    using e lim assms(8) by (simp add: limiter_def entry_or_insert_def rl.next_window)
  obtain r srv' w' where s: "serve d (IssueChallenge u) ?srv w = (r, srv', w')" by (metis prod_cases3)
  from issue_runs [OF s assms(7)] obtain r0 where r: "r = map_option Issued r0"
    and "do_issue_challenge d u (inner ?srv) w = (r0, inner srv', w')" by blast
  from this(2) show ?thesis
    by (cases rule: issue_challenge_cases) (use user through assms(2) s r in \<open>auto simp del: serve.simps\<close>)
qed

definition late :: "(bytes, toy_world) deps" where
  "late = toy_deps Debug\<lparr>os := \<lparr>clock_secs = \<lambda>(t, e). (if e = 0 then 1100 else 1301, (t, e))\<rparr>\<rparr>"

lemma late_sel [simp]:
  "request_time late (t, e) = (if e = 0 then 1100 else 1301)" "\<not> clock_fails late"
  by (simp_all add: late_def request_time_def clock_fails_def split: prod.splits)

lemma demo_window_inv: "server_inv (demo_window c)"
proof -
  have "accounts_ok (inner (demo_window c))" unfolding accounts_ok_def
    by (auto simp: demo_window_def demo_record_def split: if_splits)
  moreover have "limits_ok (inner (demo_window c))" by (simp add: limits_ok_def demo_window_def)
  moreover have "log_ok (inner (demo_window c))"
    by (auto simp: log_ok_def demo_window_def demo_log_def completions_def)
  ultimately show ?thesis by (simp add: server_inv_def)
qed

theorem refusals_expire_witness:
  "\<exists>ci srv' w'. serve late (IssueChallenge ''alice'') (serve_all late [] (demo_window 5)) (0, 1) =
     (Some (Issued (Inr ci)), srv', w')"
  by (rule refusals_expire [where c = 5 and start = 1000]) (simp_all add: demo_window_inv)

text \<open>C33. A lockout holds against everybody. On a well-formed server whose clock can be read, take a user
  with at least 5 attempts counted in the entry's window, and any run of requests, of any users, at times
  in that window (300 seconds from its start), in which nothing panicked and which leaves the 32-bit
  counter room. Then a further request of the user in the window, be it for a challenge or a login with
  whatever code or signature, is answered with \<open>RateLimited\<close>, and accounts, sessions, waiting challenges,
  used nonces and audit log stay as they are: no credential is looked at. Requests for challenges count
  as attempts and need no credential.\<close>

theorem lockout_holds:
  assumes "server_inv srv" and "\<not> clock_fails d" and "u \<in> dom (users (inner srv))"
    and "rate_limits (inner srv) u = Some (c, start)" and "5 \<le> unat c" and "unat c + length rqs + 1 < 2 ^ 32"
    and "list_all (\<lambda>rq. start \<le> request_time d (snd rq) \<and>
      unat (request_time d (snd rq)) \<le> unat start + 300) rqs"
    and "\<not> poisoned (serve_all d rqs srv)"
    and "start \<le> request_time d w" and "unat (request_time d w) \<le> unat start + 300" and "attempt_of u req"
  shows "\<exists>r srv' w'. serve d req (serve_all d rqs srv) w = (Some r, srv', w') \<and>
    r \<in> {Issued (Inl RateLimited), Verified (Inl RateLimited)} \<and> \<not> poisoned srv' \<and>
    (\<exists>e. inner srv' = (inner (serve_all d rqs srv))\<lparr>rate_limits := (rate_limits (inner (serve_all d rqs srv)))(u \<mapsto> e)\<rparr>)"
proof -
  let ?srv = "serve_all d rqs srv"
  obtain c' where e: "rate_limits (inner ?srv) u = Some (c', start)" "5 \<le> unat c'" "unat c' + 1 < 2 ^ 32"
    using window_start_stays [OF assms(4,1,8) _ assms(7)] assms(5,6) by fastforce
  have "server_below srv ?srv" using serve_all_steps assms(1) by (rule server.run_below)
  then have user: "u \<in> dom (users (inner ?srv))"
    using assms(3) by (cases "poisoned srv") (auto simp: server_below_def map_le_def dom_def)
  have "server_inv ?srv" using serve_all_steps assms(1) by (rule server.run_inv)
  then have lim: "max_attempts (inner ?srv) = 5" "rate_window (inner ?srv) = 300"
    using assms(8) by (simp_all add: server_inv_def limits_ok_def)
  have "unat (c' + 1) = unat c' + 1" using e(3) by (intro unat32_succ) simp
  then have full: "\<not> c' + 1 \<le> 5" using e(2) by (simp add: word_le_nat_alt)
  have refused: "limiter d (inner ?srv) u w = Some (False, (c' + 1, start))"
    using e(1,3) lim assms(9,10) full by (simp add: limiter_def entry_or_insert_def rl.same_window)
  obtain r srv' w' where s: "serve d req ?srv w = (r, srv', w')" by (metis prod_cases3)
  show ?thesis
  proof (cases req)
    case (IssueChallenge v)
    with assms(11) have v: "v = u" by simp
    from issue_runs [OF s [unfolded IssueChallenge] assms(8)] obtain r0 where r: "r = map_option Issued r0"
      and "do_issue_challenge d v (inner ?srv) w = (r0, inner srv', w')" by blast
    from this(2) have "r0 = Some (Inl RateLimited) \<and> (\<exists>e. inner srv' = (inner ?srv)\<lparr>rate_limits := (rate_limits (inner ?srv))(u \<mapsto> e)\<rparr>)"
      by (cases rule: issue_challenge_cases) (use user refused assms(2) v in auto)
    with s r serve_poison_iff [OF s assms(8)] show ?thesis by auto
  next
    case (Verify rq)
    with assms(11) have v: "vr_user_id rq = u" by simp
    from verify_runs [OF s [unfolded Verify] assms(8)] obtain r0 where r: "r = map_option Verified r0"
      and "do_verify d rq (inner ?srv) w = (r0, inner srv', w')" by blast
    from this(2) have "r0 = Some (Inl RateLimited) \<and> (\<exists>e. inner srv' = (inner ?srv)\<lparr>rate_limits := (rate_limits (inner ?srv))(u \<mapsto> e)\<rparr>)"
      by (cases rule: verify_cases) (use user refused assms(2) v in auto)
    with s r serve_poison_iff [OF s assms(8)] show ?thesis by auto
  qed (use assms(11) in simp_all)
qed

text \<open>Five requests for a challenge, which need no credential, are enough: no login of Alice succeeds then.\<close>

lemma challenge_counts:
  assumes "server_inv srv" and "\<not> poisoned srv" and "\<not> clock_fails d" and "u \<in> dom (users (inner srv))"
    and "limiter d (inner srv) u w = Some (b, e)" and "after d (IssueChallenge u) srv w = srv'"
  shows "server_inv srv' \<and> \<not> poisoned srv' \<and> u \<in> dom (users (inner srv')) \<and> rate_limits (inner srv') u = Some e"
proof -
  obtain r w' where s: "serve d (IssueChallenge u) srv w = (r, srv', w')"
    using assms(6) by (metis after_def prod.collapse fst_conv snd_conv)
  from issue_runs [OF s assms(2)] obtain r0 where r: "r = map_option Issued r0"
    and "do_issue_challenge d u (inner srv) w = (r0, inner srv', w')" by blast
  from this(2) have "r0 \<noteq> None \<and> u \<in> dom (users (inner srv')) \<and> rate_limits (inner srv') u = Some e"
    by (cases rule: issue_challenge_cases) (use assms(3-5) in auto)
  with r serve_poison_iff [OF s assms(2)] after_inv [OF assms(1), of d "IssueChallenge u" w] assms(6)
  show ?thesis by auto
qed

lemma challenges_fill:
  assumes "server_inv srv" and "\<not> poisoned srv" and "u \<in> dom (users (inner srv))"
    and "rate_limits (inner srv) u = Some (word_of_nat c, 1000)" and "c + n \<le> 5"
    and "serve_all (still Debug 1000) (replicate n (IssueChallenge u, w)) srv = srv'"
  shows "server_inv srv' \<and> \<not> poisoned srv' \<and> u \<in> dom (users (inner srv')) \<and>
    rate_limits (inner srv') u = Some (word_of_nat (c + n), 1000)"
  using assms
proof (induction n arbitrary: srv c)
  case (Suc n)
  let ?next = "after (still Debug 1000) (IssueChallenge u) srv w"
  have "max_attempts (inner srv) = 5" "rate_window (inner srv) = 300"
    using Suc.prems(1,2) by (simp_all add: server_inv_def limits_ok_def)
  moreover have "unat (word_of_nat c :: u32) = c" using Suc.prems(5) by (simp add: unat_of_nat take_bit_eq_mod)
  ultimately have "limiter (still Debug 1000) (inner srv) u w = Some (word_of_nat c + 1 \<le> (5 :: u32), (word_of_nat c + 1, 1000))"
    using Suc.prems(4,5) by (simp add: limiter_def entry_or_insert_def rl.same_window)
  from challenge_counts [OF Suc.prems(1,2) _ Suc.prems(3) this refl]
  have "server_inv ?next" "\<not> poisoned ?next" "u \<in> dom (users (inner ?next))"
    "rate_limits (inner ?next) u = Some (word_of_nat (Suc c), 1000)" by (simp_all add: add.commute)
  from Suc.IH [OF this] Suc.prems(5,6) show ?case by simp
qed simp

theorem lockout_holds_witness:
  "\<forall>m. fst (serve (still Debug 1000) (Verify \<lparr>vr_user_id = ''alice'', vr_method = m\<rparr>)
       (serve_all (still Debug 1000) (replicate 5 (IssueChallenge ''alice'', (0, 0))) demo) (0, 0)) =
     Some (Verified (Inl RateLimited))"
proof
  fix m
  let ?d = "still Debug 1000" and ?first = "after (still Debug 1000) (IssueChallenge ''alice'') demo (0, 0)"
  define full where "full = serve_all ?d (replicate 5 (IssueChallenge ''alice'', (0, 0))) demo"
  have "limiter ?d (inner demo) ''alice'' (0, 0) = Some (True, (1, 1000))" by (simp add: limiter_first)
  from challenge_counts [OF demo_inv _ _ _ this refl] have first: "server_inv ?first" "\<not> poisoned ?first"
    "''alice'' \<in> dom (users (inner ?first))" "rate_limits (inner ?first) ''alice'' = Some (word_of_nat 1, 1000)"
    by simp_all
  have "serve_all ?d (replicate 4 (IssueChallenge ''alice'', (0, 0))) ?first = full"
    unfolding full_def by (simp add: eval_nat_numeral del: serve.simps)
  from challenges_fill [OF first _ this] have full: "server_inv full" "''alice'' \<in> dom (users (inner full))"
    "rate_limits (inner full) ''alice'' = Some (5, 1000)" "\<not> poisoned (serve_all ?d [] full)" by simp_all
  obtain r srv' w' where r: "serve ?d (Verify \<lparr>vr_user_id = ''alice'', vr_method = m\<rparr>) full (0, 0) = (Some r, srv', w')"
    "r \<in> {Issued (Inl RateLimited), Verified (Inl RateLimited)}"
    using lockout_holds [OF full(1) _ full(2,3) _ _ _ full(4), of "(0, 0)" "Verify \<lparr>vr_user_id = ''alice'', vr_method = m\<rparr>"]
    by (auto simp del: serve.simps)
  then have "r = Verified (Inl RateLimited)" by (auto simp: answer_eq dest: sym)
  with r(1) show "fst (serve ?d (Verify \<lparr>vr_user_id = ''alice'', vr_method = m\<rparr>)
      (serve_all ?d (replicate 5 (IssueChallenge ''alice'', (0, 0))) demo) (0, 0)) = Some (Verified (Inl RateLimited))"
    unfolding full_def by (simp del: serve.simps)
qed

end
