(* ===== verification/Http.thy ===== *)
theory Http
  imports ServerProperties Serde
begin

text \<open>
  The HTTP routes of \<open>run_server\<close> in \<open>src/main.rs\<close>: a route decodes the body of a request, hands the
  request to the server and turns the result into a status code and a JSON body, by the readers and
  writers of theory Serde. Reading JSON from a body and the texts of refusals are the work of \<open>axum\<close>,
  a parameter; a handler runs only on a decoded request.
\<close>

section \<open>Routes\<close>

fun path_of :: "request \<Rightarrow> string" where
  "path_of (EnrollBegin u) = ''/enroll/begin''"
| "path_of (EnrollComplete req) = ''/enroll/complete''"
| "path_of (IssueChallenge u) = ''/challenge''"
| "path_of (Verify req) = ''/verify''"

definition error_body :: "server_error \<Rightarrow> json" where
  "error_body e = JObj [(''error'', JStr (server_error_text e))]"

fun http_reply :: "reply \<Rightarrow> nat \<times> json" where
  "http_reply (Begun (Inr r)) = (200, to_value (begin_response_json r))"
| "http_reply (Completed (Inr r)) = (200, to_value (complete_response_json r))"
| "http_reply (Issued (Inr r)) = (200, to_value (challenge_issued_json r))"
| "http_reply (Verified (Inr r)) = (200, to_value (verify_response_json r))"
| "http_reply (Begun (Inl e)) = (400, error_body e)"
| "http_reply (Completed (Inl e)) = (400, error_body e)"
| "http_reply (Issued (Inl e)) = (400, error_body e)"
| "http_reply (Verified (Inl e)) = (400, error_body e)"

definition handle :: "('h, 'w) deps \<Rightarrow> request \<Rightarrow> pq_auth_server \<Rightarrow> 'w \<Rightarrow> (nat \<times> json) option \<times> pq_auth_server \<times> 'w" where
  "handle d req srv w = (case serve d req srv w of (r, srv', w') \<Rightarrow> (map_option http_reply r, srv', w'))"

text \<open>
  What \<open>axum\<close> decides: the JSON value of a body \<open>'b\<close>, or the status and text of the refusal; how a value is
  refused that the reader of the route does not accept; and what is answered to a path or method without a
  route.
\<close>

type_synonym refusal = "nat \<times> string"

record 'b axum =
  read_json :: "'b \<Rightarrow> refusal + json"
  unfit :: "json \<Rightarrow> refusal"
  no_route :: "string \<Rightarrow> string \<Rightarrow> refusal"

text \<open>The extractor \<open>Json(req): Json<T>\<close>, for the reader of \<open>T\<close>.\<close>

definition extracted :: "'b axum \<Rightarrow> (json \<Rightarrow> 'a option) \<Rightarrow> 'b \<Rightarrow> refusal + 'a" where
  "extracted x read body = (case read_json x body of Inl e \<Rightarrow> Inl e | Inr j \<Rightarrow> ok_or (unfit x j) (read j))"

fun map_ok :: "('a \<Rightarrow> 'b) \<Rightarrow> 'e + 'a \<Rightarrow> 'e + 'b" where
  "map_ok f (Inl e) = Inl e"
| "map_ok f (Inr x) = Inr (f x)"

definition routed :: "'b axum \<Rightarrow> string \<Rightarrow> string \<Rightarrow> 'b \<Rightarrow> refusal + request" where
  "routed x verb path body =
     (if verb \<noteq> ''POST'' then Inl (no_route x verb path)
      else if path = ''/enroll/begin'' then map_ok (\<lambda>r. EnrollBegin (ebr_user_id r)) (extracted x begin_request_of_json body)
      else if path = ''/enroll/complete'' then map_ok EnrollComplete (extracted x complete_request_of_json body)
      else if path = ''/challenge'' then map_ok (\<lambda>r. IssueChallenge (cr_user_id r)) (extracted x challenge_request_of_json body)
      else if path = ''/verify'' then map_ok Verify (extracted x verify_request_of_json body)
      else Inl (no_route x verb path))"

datatype content = Json json | Plain string

definition app ::
  "('h, 'w) deps \<Rightarrow> 'b axum \<Rightarrow> string \<Rightarrow> string \<Rightarrow> 'b \<Rightarrow> pq_auth_server \<Rightarrow> 'w \<Rightarrow>
   (nat \<times> content) option \<times> pq_auth_server \<times> 'w" where
  "app d x verb path body srv w =
     (case routed x verb path body of
        Inl (status, t) \<Rightarrow> (Some (status, Plain t), srv, w)
      | Inr req \<Rightarrow>
          (case handle d req srv w of (r, srv', w') \<Rightarrow> (map_option (\<lambda>(status, b). (status, Json b)) r, srv', w')))"

section \<open>A client\<close>

text \<open>The body that a client sends for a request, and how it reads the answer.\<close>

fun request_json :: "request \<Rightarrow> json" where
  "request_json (EnrollBegin u) = begin_request_json \<lparr>ebr_user_id = u\<rparr>"
| "request_json (EnrollComplete r) = complete_request_json r"
| "request_json (IssueChallenge u) = challenge_request_json \<lparr>cr_user_id = u\<rparr>"
| "request_json (Verify r) = verify_request_json r"

definition reads_error :: "server_error \<Rightarrow> nat \<Rightarrow> json \<Rightarrow> bool" where
  "reads_error e status b \<longleftrightarrow> status = 400 \<and>
     Option.bind (struct_fields [''error''] b) (\<lambda>m. field m ''error'' read_string) = Some (server_error_text e)"

fun reads_as :: "reply \<Rightarrow> nat \<Rightarrow> json \<Rightarrow> bool" where
  "reads_as (Begun (Inr r)) status b = (status = 200 \<and> begin_response_of_json b = Some r)"
| "reads_as (Completed (Inr r)) status b = (status = 200 \<and> complete_response_of_json b = Some r)"
| "reads_as (Issued (Inr r)) status b = (status = 200 \<and> challenge_issued_of_json b = Some r)"
| "reads_as (Verified (Inr r)) status b = (status = 200 \<and> verify_response_of_json b = Some r)"
| "reads_as (Begun (Inl e)) status b = reads_error e status b"
| "reads_as (Completed (Inl e)) status b = reads_error e status b"
| "reads_as (Issued (Inl e)) status b = reads_error e status b"
| "reads_as (Verified (Inl e)) status b = reads_error e status b"

section \<open>Lemmas\<close>

lemma client_reads: "case http_reply rep of (status, b) \<Rightarrow> reads_as rep status b"
  by (cases rep rule: http_reply.cases)
    (simp_all add: ebrs.reads_value ecrs.reads_value chis.reads_value vrs.reads_value reads_error_def error_body_def json_simps)

text \<open>A client's body may have its keys in any order.\<close>

lemma extract_sent:
  assumes "read_json x body = Inr j" and "to_value j = to_value v"
    and "dec (to_value v) = Some r" and "\<And>v. dec (to_value v) = dec v"
  shows "extracted x dec body = Inr r"
proof -
  have "dec j = Some r" using assms(2-4) by metis
  then show ?thesis using assms(1) by (simp add: extracted_def)
qed

lemma routed_sent:
  assumes "read_json x body = Inr j" and "to_value j = to_value (request_json req)"
  shows "routed x ''POST'' (path_of req) body = Inr req"
proof (cases req)
  case (EnrollBegin u)
  have "extracted x begin_request_of_json body = Inr \<lparr>ebr_user_id = u\<rparr>"
    using assms(2) ebrq.reads_value ebrq.order_free by (intro extract_sent [OF assms(1)]) (simp_all add: EnrollBegin)
  then show ?thesis by (simp add: EnrollBegin routed_def)
next
  case (EnrollComplete r)
  have "extracted x complete_request_of_json body = Inr r"
    using assms(2) ecrq.reads_value ecrq.order_free by (intro extract_sent [OF assms(1)]) (simp_all add: EnrollComplete)
  then show ?thesis by (simp add: EnrollComplete routed_def)
next
  case (IssueChallenge u)
  have "extracted x challenge_request_of_json body = Inr \<lparr>cr_user_id = u\<rparr>"
    using assms(2) chrq.reads_value chrq.order_free by (intro extract_sent [OF assms(1)]) (simp_all add: IssueChallenge)
  then show ?thesis by (simp add: IssueChallenge routed_def)
next
  case (Verify r)
  have "extracted x verify_request_of_json body = Inr r"
    using assms(2) vrq.reads_value vrq.order_free by (intro extract_sent [OF assms(1)]) (simp_all add: Verify)
  then show ?thesis by (simp add: Verify routed_def)
qed

fun possible_error :: "request \<Rightarrow> server_error \<Rightarrow> bool" where
  "possible_error (EnrollBegin u) e = (e = UserAlreadyEnrolled u)"
| "possible_error (EnrollComplete req) e =
     (e = NoPendingEnrollment (ecr_user_id req) \<or>
      (\<exists>x. e = EnrollmentFailed x \<and> x \<noteq> InvalidServerIdentity))"
| "possible_error (IssueChallenge u) e = (e = UserNotFound u \<or> e = RateLimited)"
| "possible_error (Verify req) e =
     (e = UserNotFound (vr_user_id req) \<or> e = RateLimited \<or>
      e = NoPendingChallenge (vr_user_id req) \<and> (\<exists>n ts sg. vr_method req = ChallengeMethod n ts sg))"

lemma complete_error: "complete s k se resp = Inl e \<Longrightarrow> e \<noteq> InvalidServerIdentity"
  by (auto simp: complete_def Let_def split: if_splits sum.splits)

lemma reply_errors:
  assumes "serve d req srv w = (Some r, srv', w')" and "verdict r = None"
  shows "\<exists>e. r \<in> {Begun (Inl e), Completed (Inl e), Issued (Inl e), Verified (Inl e)} \<and> possible_error req e"
proof -
  have live: "\<not> poisoned srv" using assms serve_poisoned [of srv d req w] by auto
  show ?thesis
  proof (cases req)
    case (EnrollBegin u)
    from begin_runs [OF assms(1) [unfolded EnrollBegin] live] obtain r0 where r: "Some r = map_option Begun r0"
      and "do_enroll_begin d u (inner srv) w = (r0, inner srv', w')" by blast
    from this(2) show ?thesis
      by (cases rule: enroll_begin_cases) (use r assms(2) in \<open>auto simp: EnrollBegin\<close>)
  next
    case (EnrollComplete rq)
    from complete_runs [OF assms(1) [unfolded EnrollComplete] live] obtain r0 where r: "Some r = map_option Completed r0"
      and "do_enroll_complete d rq (inner srv) w = (r0, inner srv', w')" by blast
    from this(2) show ?thesis
      by (cases rule: enroll_complete_cases) (use r assms(2) in \<open>auto simp: EnrollComplete dest: complete_error\<close>)
  next
    case (IssueChallenge u)
    from issue_runs [OF assms(1) [unfolded IssueChallenge] live] obtain r0 where r: "Some r = map_option Issued r0"
      and "do_issue_challenge d u (inner srv) w = (r0, inner srv', w')" by blast
    from this(2) show ?thesis
      by (cases rule: issue_challenge_cases) (use r assms(2) in \<open>auto simp: IssueChallenge\<close>)
  next
    case (Verify rq)
    from verify_runs [OF assms(1) [unfolded Verify] live] obtain r0 where r: "Some r = map_option Verified r0"
      and "do_verify d rq (inner srv) w = (r0, inner srv', w')" by blast
    from this(2) show ?thesis
      by (cases rule: verify_cases) (use r assms(2) in \<open>auto simp: Verify\<close>)
  qed
qed

text \<open>The bodies of the answers, with their keys sorted.\<close>

lemma reply_values:
  "to_value (begin_response_json b) =
     JObj [(''kyber_public_key'', JStr (eb_kyber_public_key b)), (''server_id'', JStr (eb_server_id b))]"
  "to_value (complete_response_json c) =
     JObj [(''message'', JStr (ecs_message c)), (''success'', JBool (ecs_success c))]"
  "to_value (challenge_issued_json i) =
     JObj [(''issued_at'', write_uint (ci_issued_at i)), (''nonce'', JStr (ci_nonce i))]"
  "to_value (verify_response_json v) =
     JObj [(''message'', JStr (vs_message v)), (''valid'', JBool (vs_valid v))]"
  by (simp_all add: serde_defs write_uint_def)

text \<open>The body that an answer with a result must have, field by field.\<close>

fun result_body :: "reply \<Rightarrow> json \<Rightarrow> bool" where
  "result_body (Begun (Inr x)) b \<longleftrightarrow>
     b = JObj [(''kyber_public_key'', JStr (eb_kyber_public_key x)), (''server_id'', JStr (eb_server_id x))]"
| "result_body (Completed (Inr x)) b \<longleftrightarrow>
     b = JObj [(''message'', JStr (ecs_message x)), (''success'', JBool (ecs_success x))]"
| "result_body (Issued (Inr x)) b \<longleftrightarrow>
     b = JObj [(''issued_at'', JNum (unat (ci_issued_at x))), (''nonce'', JStr (ci_nonce x))]"
| "result_body (Verified (Inr x)) b \<longleftrightarrow>
     b = JObj [(''message'', JStr (vs_message x)), (''valid'', JBool (vs_valid x))]"
| "result_body _ b \<longleftrightarrow> False"

lemma http_reply_result:
  assumes "verdict r \<noteq> None"
  shows "\<exists>b. http_reply r = (200, b) \<and> result_body r b"
  using assms by (cases r rule: http_reply.cases) (simp_all add: reply_values write_uint_def)

section \<open>Properties\<close>

text \<open>C24. What the HTTP API can answer. Every answered request is a request that the server served, with
  some reply. If the reply is a result, the status is 200, the body has exactly the fields of that result
  with its values, and one entry is added to the audit log. If it is an error, the status is 400, the body
  is the error's text under the key \<open>error\<close>, and the audit log is unchanged; the error is one of those the
  route can produce: a failed login is never an error but a 200 with \<open>valid: false\<close>,
  \<open>ChallengeFailed\<close> is never sent, and only the user's own name appears in an error.\<close>

theorem http_answers:
  assumes "handle d req srv w = (Some (status, body), srv', w')"
  shows "\<exists>r. serve d req srv w = (Some r, srv', w') \<and>
    (status = 200 \<and> result_body r body \<and> length (audit_log (inner srv')) = Suc (length (audit_log (inner srv))) \<or>
     status = 400 \<and> audit_log (inner srv') = audit_log (inner srv) \<and>
       (\<exists>e. r \<in> {Begun (Inl e), Completed (Inl e), Issued (Inl e), Verified (Inl e)} \<and>
          body = JObj [(''error'', JStr (server_error_text e))] \<and> possible_error req e))"
proof -
  obtain r where s: "serve d req srv w = (Some r, srv', w')" and r: "http_reply r = (status, body)"
    using assms by (auto simp: handle_def split: prod.splits)
  have log: "logs_reply req r (inner srv) (inner srv')" using s by (rule audit_of_reply)
  show ?thesis
  proof (cases "verdict r")
    case None
    from reply_errors [OF s None] obtain e where
      e: "r \<in> {Begun (Inl e), Completed (Inl e), Issued (Inl e), Verified (Inl e)}" "possible_error req e" by blast
    then have "http_reply r = (400, error_body e)" by auto
    with e s r None log show ?thesis by (auto simp: logs_reply_def error_body_def)
  next
    case (Some ok)
    with http_reply_result [of r] r have "status = 200" "result_body r body" by simp_all
    with Some s log show ?thesis by (auto simp: logs_reply_def)
  qed
qed

theorem http_answers_witness:
  "\<exists>x body srv' w'. serve (still Debug 1000) (EnrollBegin ''bob'') demo (0, 5) = (Some (Begun (Inr x)), srv', w') \<and>
     handle (still Debug 1000) (EnrollBegin ''bob'') demo (0, 5) = (Some (200, body), srv', w') \<and>
     body = JObj [(''kyber_public_key'', JStr (eb_kyber_public_key x)), (''server_id'', JStr (eb_server_id x))]"
proof -
  have new: "\<not> poisoned demo" "\<not> clock_fails (still Debug 1000)" "''bob'' \<notin> dom (users (inner demo))" by simp_all
  obtain y srv' w' where "enroll_begin (still Debug 1000) ''bob'' demo (0, 5) = (Some (Inr y), srv', w')"
    by (rule enroll_begin_works [OF new, of "(0, 5)"]) (rule that)
  then obtain x where s: "serve (still Debug 1000) (EnrollBegin ''bob'') demo (0, 5) = (Some (Begun (Inr x)), srv', w')"
    by (auto simp: answer_def)
  then obtain body where h: "handle (still Debug 1000) (EnrollBegin ''bob'') demo (0, 5) = (Some (200, body), srv', w')"
    by (simp add: handle_def)
  from http_answers [OF h] have "result_body (Begun (Inr x)) body" unfolding s by auto
  with s h show ?thesis by (intro exI [of _ x] exI [of _ body] exI [of _ srv'] exI [of _ w']) simp
qed

text \<open>The types of the documented bodies.\<close>

datatype json_type = TBool | TNum nat | TStr | TObj "(string \<times> json_type) list"

fun has_type :: "json \<Rightarrow> json_type \<Rightarrow> bool" where
  "has_type (JBool b) TBool = True"
| "has_type (JNum n) (TNum bits) = (n < 2 ^ bits)"
| "has_type (JStr s) TStr = True"
| "has_type (JObj fs) (TObj ts) =
     (map fst fs = map fst ts \<and> list_all2 (\<lambda>(_, v) (_, t). has_type v t) fs ts)"
| "has_type _ _ = False"

fun response_type :: "request \<Rightarrow> json_type" where
  "response_type (EnrollBegin u) = TObj [(''kyber_public_key'', TStr), (''server_id'', TStr)]"
| "response_type (EnrollComplete req) = TObj [(''message'', TStr), (''success'', TBool)]"
| "response_type (IssueChallenge u) = TObj [(''issued_at'', TNum 64), (''nonce'', TStr)]"
| "response_type (Verify req) = TObj [(''message'', TStr), (''valid'', TBool)]"

definition error_type :: json_type where
  "error_type = TObj [(''error'', TStr)]"

lemma error_body_type: "has_type (error_body e) error_type"
  by (simp add: error_body_def error_type_def)

lemma http_reply_type:
  assumes "serve d req srv w = (Some r, srv', w')"
  shows "case http_reply r of (status, body) \<Rightarrow>
    status = 200 \<and> has_type body (response_type req) \<or> status = 400 \<and> has_type body error_type"
proof (cases req)
  case (EnrollBegin u)
  with assms obtain x where "r = Begun x" by (auto simp: answer_eq dest: sym)
  then show ?thesis by (cases x) (simp_all add: EnrollBegin reply_values error_body_type)
next
  case (EnrollComplete rq)
  with assms obtain x where "r = Completed x" by (auto simp: answer_eq dest: sym)
  then show ?thesis by (cases x) (simp_all add: EnrollComplete reply_values error_body_type)
next
  case (IssueChallenge u)
  with assms obtain x where "r = Issued x" by (auto simp: answer_eq dest: sym)
  then show ?thesis using unat64_bound by (cases x) (simp_all add: IssueChallenge write_uint_def reply_values error_body_type)
next
  case (Verify rq)
  with assms obtain x where "r = Verified x" by (auto simp: answer_eq dest: sym)
  then show ?thesis by (cases x) (simp_all add: Verify reply_values error_body_type)
qed

lemma routed_request:
  assumes "routed x verb path body = Inr req"
  shows "verb = ''POST''" and "path = path_of req"
proof -
  have map_ok_Inr: "map_ok f r = Inr y \<longleftrightarrow> (\<exists>z. r = Inr z \<and> y = f z)" for f :: "'p \<Rightarrow> 'q" and r :: "'r + 'p" and y
    by (cases r) auto
  show "verb = ''POST''" using assms by (auto simp: routed_def split: if_splits)
  show "path = path_of req"
    using assms unfolding routed_def
    by (cases "extracted x begin_request_of_json body"; cases "extracted x complete_request_of_json body";
        cases "extracted x challenge_request_of_json body"; cases "extracted x verify_request_of_json body")
      (auto split: if_splits)
qed

text \<open>C35. The answers are well-typed. A body in JSON answers a POST to one of the four routes: with status
  200 it has exactly the documented fields of that route, sorted by name, with the documented types (the
  issue time an unsigned 64-bit number), and otherwise the status is 400 and it is an object with the one
  field \<open>error\<close>, a string. Every other answer is a refusal by \<open>axum\<close> and leaves server and world as they
  were: a body that does not decode never reaches the server.\<close>

theorem responses_typed:
  assumes "app d x verb path body srv w = (Some (status, answered), srv', w')"
  shows "case answered of
      Json b \<Rightarrow> verb = ''POST'' \<and> (\<exists>req. path = path_of req \<and> routed x verb path body = Inr req \<and>
        (status = 200 \<and> has_type b (response_type req) \<or> status = 400 \<and> has_type b error_type))
    | Plain t \<Rightarrow> routed x verb path body = Inl (status, t) \<and> srv' = srv \<and> w' = w"
proof (cases "routed x verb path body")
  case (Inl e)
  with assms show ?thesis by (cases e) (auto simp: app_def)
next
  case (Inr req)
  obtain r srv1 w1 where h: "serve d req srv w = (r, srv1, w1)" by (metis prod_cases3)
  have "app d x verb path body srv w = (map_option (\<lambda>(status, b). (status, Json b)) (map_option http_reply r), srv1, w1)"
    by (simp add: app_def Inr handle_def h)
  with assms obtain rep where r: "r = Some rep" "srv1 = srv'" "w1 = w'"
    and a: "(case http_reply rep of (st, b) \<Rightarrow> (st, Json b)) = (status, answered)" by auto
  obtain st b where hr: "http_reply rep = (st, b)" by fastforce
  have typed: "st = 200 \<and> has_type b (response_type req) \<or> st = 400 \<and> has_type b error_type"
    using http_reply_type [OF h [unfolded r]] unfolding hr by simp
  have ans: "answered = Json b" "status = st" using a hr by simp_all
  show ?thesis using typed routed_request [OF Inr] Inr unfolding ans content.case by blast
qed

definition toy_axum :: "json axum" where
  "toy_axum = \<lparr>read_json = Inr, unfit = (\<lambda>j. (422, ''missing field'')), no_route = (\<lambda>m p. (404, []))\<rparr>"

definition alice_begins :: json where
  "alice_begins = request_json (EnrollBegin ''alice'')"

theorem responses_typed_witness:
  "\<exists>body srv' w'. app (still Debug 1000) toy_axum ''POST'' ''/enroll/begin'' alice_begins demo (0, 5) =
     (Some (400, Json body), srv', w') \<and> has_type body error_type"
proof -
  have h: "app (still Debug 1000) toy_axum ''POST'' ''/enroll/begin'' alice_begins demo (0, 5) =
      (Some (400, Json (error_body (UserAlreadyEnrolled ''alice''))), demo, (0, 5))"
    by (simp add: app_def routed_def toy_axum_def extracted_def alice_begins_def ebrq.reads handle_def answer_def
        operation_defs with_lock_def do_enroll_begin_def ret_def)
  from responses_typed [OF h] have "has_type (error_body (UserAlreadyEnrolled ''alice'')) error_type" by auto
  with h show ?thesis by blast
qed

text \<open>C21. The API is transparent. When a client posts the JSON of a request to its route, with the keys in
  any order, the server serves exactly that request, and the client that reads the answer by the derived
  readers gets back the very response of the server with status 200, or with status 400 the text of
  its error: HTTP and JSON lose and change nothing on the way, in either direction.\<close>

theorem api_transparent:
  assumes "read_json x body = Inr j" and "to_value j = to_value (request_json req)"
    and "serve d req srv w = (Some rep, srv', w')"
  shows "\<exists>status b. app d x ''POST'' (path_of req) body srv w = (Some (status, Json b), srv', w') \<and>
    reads_as rep status b"
proof -
  obtain status b where b: "http_reply rep = (status, b)" by fastforce
  have "app d x ''POST'' (path_of req) body srv w = (Some (status, Json b), srv', w')"
    by (simp add: app_def routed_sent [OF assms(1,2)] handle_def assms(3) b)
  moreover have "reads_as rep status b" using client_reads [of rep] by (simp add: b)
  ultimately show ?thesis by blast
qed

theorem api_transparent_witness:
  "\<exists>status b. app (still Debug 1000) toy_axum ''POST'' ''/enroll/begin'' alice_begins demo (0, 5) =
     (Some (status, Json b), demo, (0, 5)) \<and> reads_error (UserAlreadyEnrolled ''alice'') status b"
proof -
  have s: "serve (still Debug 1000) (EnrollBegin ''alice'') demo (0, 5) =
      (Some (Begun (Inl (UserAlreadyEnrolled ''alice''))), demo, (0, 5))"
    by (simp add: answer_def operation_defs with_lock_def do_enroll_begin_def ret_def)
  have j: "read_json toy_axum alice_begins = Inr (request_json (EnrollBegin ''alice''))"
    by (simp add: toy_axum_def alice_begins_def)
  from api_transparent [OF j refl s] show ?thesis by simp
qed

end
