(* ===== verification/Bench.thy ===== *)
theory Bench
  imports Kyber Dilithium PqTotp
begin

text \<open>
  The \<open>Benchmark\<close> command of \<open>src/main.rs\<close>: timed loops over the primitives and a table of average
  times. The monotonic clock (\<open>Instant\<close>) is a function of the world that gives nanoseconds, a
  duration is a number of nanoseconds. What a run prints is kept also when it ends in a panic. The
  lemmas show that a run ends for every number of iterations, and with a panic exactly when that number
  is a multiple of 2 ^ 32, zero included.
\<close>

section \<open>Durations\<close>

text \<open>\<open>elapsed() / iterations as u32\<close>: the cast keeps the low 32 bits; dividing by zero panics.\<close>

definition dur_div :: "nat \<Rightarrow> nat \<Rightarrow> nat option" where
  "dur_div ns n = (let d = n mod 2 ^ 32 in if d = 0 then None else Some (ns div d))"

text \<open>The \<open>Debug\<close> text of a duration: the unit by size, the fraction without trailing zeros.\<close>

definition zero_padded :: "nat \<Rightarrow> nat \<Rightarrow> string" where
  "zero_padded k n = (let t = dec_text n in replicate (k - length t) (CHR ''0'') @ t)"

definition trim_zeros :: "string \<Rightarrow> string" where
  "trim_zeros s = rev (dropWhile (\<lambda>c. c = CHR ''0'') (rev s))"

definition decimal :: "nat \<Rightarrow> nat \<Rightarrow> nat \<Rightarrow> string" where
  "decimal whole frac digits =
     dec_text whole @ (if frac = 0 then [] else ''.'' @ trim_zeros (zero_padded digits frac))"

definition micro_sign :: string where
  "micro_sign = map char_of [194 :: nat, 181]"

definition duration_text :: "nat \<Rightarrow> string" where
  "duration_text ns =
     (if ns \<ge> 1000000000 then decimal (ns div 1000000000) (ns mod 1000000000) 9 @ ''s''
      else if ns \<ge> 1000000 then decimal (ns div 1000000) (ns mod 1000000) 6 @ ''ms''
      else if ns \<ge> 1000 then decimal (ns div 1000) (ns mod 1000) 3 @ micro_sign @ ''s''
      else decimal ns 0 1 @ ''ns'')"

text \<open>Widths count characters, not bytes: continuation bytes of UTF-8 do not count.\<close>

definition char_count :: "string \<Rightarrow> nat" where
  "char_count s = length (filter (\<lambda>c. \<not> (128 \<le> (of_char c :: nat) \<and> (of_char c :: nat) < 192)) s)"

definition pad_right :: "nat \<Rightarrow> string \<Rightarrow> string" where
  "pad_right n s = s @ replicate (n - char_count s) (CHR '' '')"

definition pad_left :: "nat \<Rightarrow> string \<Rightarrow> string" where
  "pad_left n s = replicate (n - char_count s) (CHR '' '') @ s"

section \<open>The benchmark\<close>

text \<open>The rest of a measurement that began at \<open>start\<close>.\<close>

definition average :: "('w \<Rightarrow> nat \<times> 'w) \<Rightarrow> nat \<Rightarrow> nat \<Rightarrow> (nat, 'w) io" where
  "average inst iterations start =
     io_then (io_lift inst) (\<lambda>stop w. (dur_div (stop - start) iterations, w))"

record timings =
  t_dilithium_keygen :: nat
  t_dilithium_sign :: nat
  t_dilithium_verify :: nat
  t_kyber_keygen :: nat
  t_kyber_encaps :: nat
  t_kyber_decaps :: nat
  t_totp_gen :: nat

definition measure_all ::
  "('h, 'w) deps \<Rightarrow> ('w \<Rightarrow> nat \<times> 'w) \<Rightarrow> nat \<Rightarrow> (timings, 'w) io" where
  "measure_all d inst n =
     io_then (io_lift inst) (\<lambda>start.
     io_then (io_loop n (io_then (io_lift (keypair_generate (dil d))) (\<lambda>_. io_ret ())) ()) (\<lambda>_.
     io_then (average inst n start) (\<lambda>dil_keygen.
     io_then (io_lift (keypair_generate (dil d))) (\<lambda>kp.
     let msg = as_bytes ''benchmark message for signing operations'' in
     io_then (io_lift inst) (\<lambda>start.
     io_then (io_loop n (io_unwrap (keypair_sign (dil d) kp msg)) []) (\<lambda>sig.
     io_then (average inst n start) (\<lambda>dil_sign.
     io_then (io_lift inst) (\<lambda>start.
     io_then (io_loop n (io_result (keypair_verify (dil d) kp msg sig)) ()) (\<lambda>_.
     io_then (average inst n start) (\<lambda>dil_verify.
     io_then (io_lift inst) (\<lambda>start.
     io_then (io_loop n (io_then (io_lift (kyber_generate (kyb d))) (\<lambda>_. io_ret ())) ()) (\<lambda>_.
     io_then (average inst n start) (\<lambda>kyb_keygen.
     io_then (io_lift (kyber_generate (kyb d))) (\<lambda>kkp.
     io_then (io_lift inst) (\<lambda>start.
     io_then (io_unwrap (encapsulate (kyb d) (kyber_public kkp))) (\<lambda>enc.
     io_then (io_loop (n - 1) (io_unwrap (encapsulate (kyb d) (kyber_public kkp))) enc) (\<lambda>enc.
     io_then (average inst n start) (\<lambda>kyb_encaps.
     io_then (io_lift inst) (\<lambda>start.
     io_then (io_loop n (io_then (io_result (decapsulate (kyb d) kkp (enc_ciphertext enc)))
       (\<lambda>_. io_ret ())) ()) (\<lambda>_.
     io_then (average inst n start) (\<lambda>kyb_decaps.
     let secret = as_bytes ''benchmark-secret-key-32-bytes!!'' in
     io_then (\<lambda>w. case clock_secs (os d) w of (t, w') \<Rightarrow> (secs_since_epoch t, w')) (\<lambda>ts.
     io_then (io_lift inst) (\<lambda>start.
     io_then (io_loop n (io_then (io_value (generate (sha d) secret ts)) (\<lambda>_. io_ret ())) ()) (\<lambda>_.
     io_then (average inst n start) (\<lambda>totp_gen.
     io_ret \<lparr>t_dilithium_keygen = dil_keygen, t_dilithium_sign = dil_sign, t_dilithium_verify = dil_verify,
       t_kyber_keygen = kyb_keygen, t_kyber_encaps = kyb_encaps, t_kyber_decaps = kyb_decaps,
       t_totp_gen = totp_gen\<rparr>)))))))))))))))))))))))))"

definition bench_row :: "string \<Rightarrow> nat \<Rightarrow> string" where
  "bench_row name t = pad_right 25 name @ '' '' @ pad_left 12 (duration_text t)"

definition run_benchmark ::
  "('h, 'w) deps \<Rightarrow> ('w \<Rightarrow> nat \<times> 'w) \<Rightarrow> nat \<Rightarrow> 'w \<Rightarrow> string list \<times> bool \<times> 'w" where
  "run_benchmark d inst n w =
     (let header = ''=== PQ Cryptography Benchmark ('' @ dec_text n @ '' iterations) ==='' @ [char_of (10 :: nat)]
      in case measure_all d inst n w of
           (None, w') \<Rightarrow> ([header], False, w')
         | (Some t, w') \<Rightarrow>
             ([header,
               pad_right 25 ''Operation'' @ '' '' @ pad_left 12 ''Avg Time'',
               replicate 38 (CHR ''-''),
               bench_row ''Dilithium3 keygen'' (t_dilithium_keygen t),
               bench_row ''Dilithium3 sign'' (t_dilithium_sign t),
               bench_row ''Dilithium3 verify'' (t_dilithium_verify t),
               bench_row ''Kyber768 keygen'' (t_kyber_keygen t),
               bench_row ''Kyber768 encapsulate'' (t_kyber_encaps t),
               bench_row ''Kyber768 decapsulate'' (t_kyber_decaps t),
               bench_row ''PQ-TOTP generate'' (t_totp_gen t),
               char_of (10 :: nat) # ''All operations are fast enough for real-time 2FA.''], True, w'))"

section \<open>Lemmas\<close>

lemma wp_average:
  assumes "n mod 2 ^ 32 \<noteq> 0" and "\<And>t w'. Q t w'"
  shows "wp (average inst n start) Q w"
  unfolding average_def wp_simps
  by (rule wp_lift) (use assms in \<open>simp add: wp_def dur_div_def Let_def\<close>)

lemma average_panics:
  assumes "n mod 2 ^ 32 = 0"
  shows "fst (average inst n start w) = None"
  using assms by (simp add: average_def io_then_def io_lift_def dur_div_def split: prod.splits)

lemma wp_read_clock:
  assumes "\<And>w. 0 \<le> sint (fst (clock_secs c w))" and "\<And>t w'. Q t w'"
  shows "wp (\<lambda>w. case clock_secs c w of (t, w') \<Rightarrow> (secs_since_epoch t, w')) Q w"
  using assms(1) [of w] assms(2)
  by (cases "clock_secs c w") (simp add: wp_def secs_since_epoch_def)

lemma wp_instant: "(\<And>t w'. Q t w') \<Longrightarrow> wp (io_lift inst) Q w"
  by (rule wp_lift)

lemma wp_unit_loop:
  assumes "\<And>w. wp m (\<lambda>_ _. True) w" and "\<And>w'. Q () w'"
  shows "wp (io_loop n (io_then m (\<lambda>_. io_ret ())) ()) Q w"
  by (rule wp_loop [where P = "\<lambda>_. True"]) (use assms in simp_all)

lemma measure_all_panics:
  assumes "n mod 2 ^ 32 = 0"
  shows "fst (measure_all d inst n w) = None"
  unfolding measure_all_def
proof (rule panics_then [OF wp_instant], rule TrueI, rule panics_then)
  show "wp (io_loop n (io_then (io_lift (keypair_generate (dil d))) (\<lambda>_. io_ret ())) ()) (\<lambda>_ _. True) w" for w
    by (rule wp_unit_loop [OF wp_lift]) simp_all
qed (rule stops_then, rule average_panics, rule assms)

lemma measure_all_returns:
  assumes "n mod 2 ^ 32 \<noteq> 0" and "dilithium3_law (dil d)" and "kyber768_law (kyb d)"
    and clock: "\<And>w. 0 \<le> sint (fst (clock_secs (os d) w))"
  shows "wp (measure_all d inst n) (\<lambda>_ _. True) w"
proof -
  have pos: "0 < n" using assms(1) by (cases n) auto
  have sign: "wp (io_unwrap (keypair_sign (dil d) kp m)) (\<lambda>sg _. keypair_verify (dil d) kp m sg = Inr ()) w"
    if "generated (dil d) kp" for kp m w
    by (rule wp_keypair_sign [OF assms(2) that])
  have encap: "wp (io_unwrap (encapsulate (kyb d) (kyber_public kp)))
      (\<lambda>c _. \<exists>ss. decapsulate (kyb d) kp (enc_ciphertext c) = Inr ss) w" if "kyber_generated (kyb d) kp" for kp w
    by (rule wp_encapsulate [OF assms(3) that]) blast
  show ?thesis
    unfolding measure_all_def Let_def wp_simps(2)
    by (intro wp_instant [of _ inst] wp_average [OF assms(1)] wp_unit_loop wp_keypair_generate wp_kyber_generate
        wp_loop_pos [OF sign pos] wp_loop [OF encap] wp_mono [OF encap] wp_read_clock [OF clock]
        wp_loop [OF wp_result_ok] wp_result_ok; simp add: totp.gen_eq)
qed

section \<open>Properties\<close>

text \<open>C40. How a benchmark ends. With law-abiding primitives and a clock after 1970 it ends for every number
  of iterations: when that number, cut to 32 bits, is not 0 it prints the header, the seven averages and
  the closing line; when it is 0 (so for \<open>--iterations 0\<close>) the first average divides by zero and the
  command panics after the header.\<close>

theorem benchmark_ends:
  assumes "dilithium3_law (dil d)" and "kyber768_law (kyb d)"
    and "\<And>w. 0 \<le> sint (fst (clock_secs (os d) w))"
  shows "if n mod 2 ^ 32 = 0
    then \<exists>header w'. run_benchmark d inst n w = ([header], False, w')
    else \<exists>lines w'. run_benchmark d inst n w = (lines, True, w') \<and> length lines = 11"
proof (cases "n mod 2 ^ 32 = 0")
  case True
  from measure_all_panics [OF this, of d inst w] obtain w' where "measure_all d inst n w = (None, w')"
    by (cases "measure_all d inst n w") simp
  with True show ?thesis by (simp add: run_benchmark_def)
next
  case False
  from measure_all_returns [OF this assms] obtain t w' where "measure_all d inst n w = (Some t, w')"
    unfolding wp_result by blast
  with False show ?thesis by (simp add: run_benchmark_def)
qed

theorem benchmark_ends_witness:
  "\<exists>lines w'. run_benchmark ((toy_deps Debug)\<lparr>os := \<lparr>clock_secs = \<lambda>w. (1000, w)\<rparr>\<rparr>) (\<lambda>(t, e). (unat t, (t + 5, e))) 3 (0, 0) =
     (lines, True, w') \<and> length lines = 11"
  using benchmark_ends [of "(toy_deps Debug)\<lparr>os := \<lparr>clock_secs = \<lambda>w. (1000, w)\<rparr>\<rparr>" 3 "\<lambda>(t, e). (unat t, (t + 5, e))" "(0, 0)"]
  by (simp add: toy_laws)

end
