(* ===== verification/Cli.thy ===== *)
theory Cli
  imports Http Hybrid Recovery Bench
begin

text \<open>
  The command line of \<open>src/main.rs\<close>. The arms that print only at the end return what they print (one
  entry per \<open>println!\<close>) and their exit code, or \<open>None\<close> for a panic before any output; \<open>Benchmark\<close> is in
  its own theory. A command ends in an exit code (101 after a panic) or, for \<open>Serve\<close>, in a process that
  answers requests from the state of a new server; the runtime and the socket are a parameter.
\<close>

section \<open>Commands\<close>

datatype commands =
    Keygen bool
  | Serve "16 word" string
  | Auth string
  | VerifyCode string string u64
  | Info
  | Recover nat
  | Benchmark nat

record cli_result =
  printed :: "string list"
  exit_code :: nat

definition cli_now :: "'w os_clock \<Rightarrow> 'w \<Rightarrow> u64 option \<times> 'w" where
  "cli_now c w = (case clock_secs c w of (t, w') \<Rightarrow> (secs_since_epoch t, w'))"

text \<open>\<open>str::parse::<u32>\<close>: an optional plus sign, then decimal digits without overflow.\<close>

definition is_digit :: "char \<Rightarrow> bool" where
  "is_digit c = (48 \<le> (of_char c :: nat) \<and> (of_char c :: nat) \<le> 57)"

fun parse_digits :: "nat \<Rightarrow> string \<Rightarrow> nat option" where
  "parse_digits acc [] = Some acc"
| "parse_digits acc (c # cs) =
     (if is_digit c then
        let v = acc * 10 + (of_char c - 48)
        in if v < 4294967296 then parse_digits v cs else None
      else None)"

definition parse_u32 :: "string \<Rightarrow> u32 option" where
  "parse_u32 s =
     (let digits = (if s \<noteq> [] \<and> hd s = CHR ''+'' then tl s else s)
      in if digits = [] then None else map_option word_of_nat (parse_digits 0 digits))"

definition run_keygen ::
  "('h, 'w) deps \<Rightarrow> 'w ed25519_crate \<Rightarrow> bool \<Rightarrow> 'w \<Rightarrow> cli_result option \<times> 'w" where
  "run_keygen d e use_hybrid w =
     (if use_hybrid then
        case hybrid_generate e (dil d) w of (kp, w') \<Rightarrow>
          (Some \<lparr>printed = [
             ''=== Hybrid Ed25519 + Dilithium3 Keypair ==='',
             ''Ed25519 public key ('' @ dec_text (length (ed25519_public kp)) @ '' bytes): '' @
               hex_encode (hexc d) (ed25519_public kp),
             ''Dilithium3 public key ('' @ dec_text (length (dilithium_public kp)) @ '' bytes): '' @
               hex_encode (hexc d) (dilithium_public kp),
             char_of (10 :: nat) # ''Security: Classical (Ed25519) + Quantum (Dilithium3)'',
             ''Hybrid signature size: '' @ dec_text HYBRID_SIG_SIZE @ '' bytes''], exit_code = 0\<rparr>, w')
      else
        case keypair_generate (dil d) w of (kp, w') \<Rightarrow>
          (Some \<lparr>printed = [
             ''=== Dilithium3 Keypair ==='',
             ''Public key ('' @ dec_text (length (public_key kp)) @ '' bytes): '' @
               hex_encode (hexc d) (public_key kp),
             ''Secret key ('' @ dec_text (length (secret_key kp)) @ '' bytes): [redacted, '' @
               dec_text (length (secret_key kp)) @ '' bytes]'',
             char_of (10 :: nat) # ''Security level: NIST Level 3 (~128-bit quantum security)''], exit_code = 0\<rparr>, w'))"

definition run_auth :: "('h, 'w) deps \<Rightarrow> string \<Rightarrow> 'w \<Rightarrow> cli_result option \<times> 'w" where
  "run_auth d secret w =
     (case hex_decode (hexc d) secret of
        None \<Rightarrow> (None, w)
      | Some secret_bytes \<Rightarrow>
        (case cli_now (os d) w of (now, w') \<Rightarrow>
          (do {
             ts \<leftarrow> now;
             c \<leftarrow> generate (sha d) secret_bytes ts;
             rest \<leftarrow> seconds_remaining (build d) ts;
             Some \<lparr>printed = [format_code c, ''Valid for '' @ dec_text (unat rest) @ ''s''], exit_code = 0\<rparr>
           }, w')))"

text \<open>The two marks are U+2713 and U+2717 in UTF-8.\<close>

definition check_mark :: string where
  "check_mark = map char_of [226 :: nat, 156, 147]"

definition cross_mark :: string where
  "cross_mark = map char_of [226 :: nat, 156, 151]"

definition run_verify :: "('h, 'w) deps \<Rightarrow> string \<Rightarrow> string \<Rightarrow> u64 \<Rightarrow> 'w \<Rightarrow> cli_result option \<times> 'w" where
  "run_verify d text secret window w =
     (case hex_decode (hexc d) secret of
        None \<Rightarrow> (None, w)
      | Some secret_bytes \<Rightarrow>
        (case parse_u32 text of
           None \<Rightarrow> (None, w)
         | Some code_num \<Rightarrow>
           (case cli_now (os d) w of (now, w') \<Rightarrow>
             (do {
                ts \<leftarrow> now;
                valid \<leftarrow> PqTotp.verify (build d) (sha d) secret_bytes code_num ts window;
                Some (if valid then \<lparr>printed = [check_mark @ '' Valid''], exit_code = 0\<rparr>
                      else \<lparr>printed = [cross_mark @ '' Invalid''], exit_code = 1\<rparr>)
              }, w'))))"

definition info_row :: "string \<Rightarrow> string \<Rightarrow> string \<Rightarrow> string \<Rightarrow> string" where
  "info_row a b c s = pad_right 20 a @ '' '' @ pad_left 10 b @ '' '' @ pad_left 10 c @ '' '' @ pad_left 10 s"

definition run_info :: cli_result where
  "run_info = \<lparr>printed = [
     ''=== Post-Quantum Key Size Comparison ==='' @ [char_of (10 :: nat)],
     info_row ''Algorithm'' ''PubKey'' ''SecKey'' ''Sig/CT'',
     replicate 52 (CHR ''-''),
     info_row ''RSA-2048'' ''256 B'' ''1.2 KB'' ''256 B'',
     info_row ''Ed25519'' ''32 B'' ''64 B'' ''64 B'',
     info_row ''Dilithium3 (PQ)'' ''1,952 B'' ''4,032 B'' ''3,309 B'',
     info_row ''Dilithium5 (PQ)'' ''2,592 B'' ''4,864 B'' ''4,595 B'',
     info_row ''Kyber768 (PQ)'' ''1,184 B'' ''2,400 B'' ''1,088 B'',
     char_of (10 :: nat) # ''Note: PQ keys are larger but provide quantum resistance.'',
     ''NIST estimates quantum computers capable of breaking RSA/ECC'',
     ''could emerge within 10-20 years. Migrate now.''], exit_code = 0\<rparr>"

definition run_recovery :: "'w rand_crate \<Rightarrow> nat \<Rightarrow> 'w \<Rightarrow> cli_result option \<times> 'w" where
  "run_recovery r n w =
     (case generate_codes r n w of (cs, w') \<Rightarrow>
        (map_option (\<lambda>cs. \<lparr>printed =
           [''=== Recovery Codes ==='',
            ''Store these in a safe place. Each code can only be used once.'' @ [char_of (10 :: nat)]] @
           map (\<lambda>(i, c). ''  '' @ pad_left 2 (dec_text (i + 1)) @ ''. '' @ code c) (enumerate 0 cs) @
           [char_of (10 :: nat) # map char_of [226 :: nat, 154, 160] @ ''  These codes will NOT be shown again.'',
            ''   Each provides ~155 bits of entropy.''], exit_code = 0\<rparr>) cs, w'))"

text \<open>The tokio runtime and the TCP listener: whether each could be had.\<close>

record 'w net =
  runtime_ok :: "'w \<Rightarrow> bool \<times> 'w"
  bind_ok :: "string \<Rightarrow> 'w \<Rightarrow> bool \<times> 'w"

datatype cli_outcome =
    Exit "string list" nat
  | Serving "string list" pq_auth_server

text \<open>The lock is U+1F510, the dash U+2014.\<close>

definition banner :: "string \<Rightarrow> string \<Rightarrow> string list" where
  "banner addr sid =
     (let dash = map char_of [226 :: nat, 128, 148]
      in [map char_of [240 :: nat, 159, 148, 144] @ '' PQ-Auth server starting on http://'' @ addr,
          ''   Server ID: '' @ sid,
          ''   Endpoints:'',
          ''     POST /enroll/begin    '' @ dash @ '' Start enrollment'',
          ''     POST /enroll/complete '' @ dash @ '' Complete enrollment'',
          ''     POST /challenge       '' @ dash @ '' Get auth challenge'',
          ''     POST /verify          '' @ dash @ '' Verify TOTP or challenge-response''])"

definition run_server :: "'w net \<Rightarrow> 16 word \<Rightarrow> string \<Rightarrow> 'w \<Rightarrow> cli_outcome \<times> 'w" where
  "run_server net port sid w =
     (let state = server_new sid;
          addr = ''0.0.0.0:'' @ dec_text (unat port)
      in case bind_ok net addr w of
           (False, w') \<Rightarrow> (Exit (banner addr sid) 101, w')
         | (True, w') \<Rightarrow> (Serving (banner addr sid) state, w'))"

definition run_serve :: "'w net \<Rightarrow> 16 word \<Rightarrow> string \<Rightarrow> 'w \<Rightarrow> cli_outcome \<times> 'w" where
  "run_serve net port sid w =
     (case runtime_ok net w of
        (False, w') \<Rightarrow> (Exit [] 101, w')
      | (True, w') \<Rightarrow> run_server net port sid w')"

definition conclude :: "cli_result option \<times> 'w \<Rightarrow> cli_outcome \<times> 'w" where
  "conclude x = (case x of (None, w) \<Rightarrow> (Exit [] 101, w) | (Some r, w) \<Rightarrow> (Exit (printed r) (exit_code r), w))"

fun run_command ::
  "('h, 'w) deps \<Rightarrow> 'w ed25519_crate \<Rightarrow> 'w net \<Rightarrow> ('w \<Rightarrow> nat \<times> 'w) \<Rightarrow> commands \<Rightarrow> 'w \<Rightarrow> cli_outcome \<times> 'w" where
  "run_command d e net inst (Keygen use_hybrid) w = conclude (run_keygen d e use_hybrid w)"
| "run_command d e net inst (Serve port sid) w = run_serve net port sid w"
| "run_command d e net inst (Auth secret) w = conclude (run_auth d secret w)"
| "run_command d e net inst (VerifyCode text secret window) w = conclude (run_verify d text secret window w)"
| "run_command d e net inst Info w = conclude (Some run_info, w)"
| "run_command d e net inst (Recover n) w = conclude (run_recovery (rnd d) n w)"
| "run_command d e net inst (Benchmark n) w =
     (case run_benchmark d inst n w of (lines, ok, w') \<Rightarrow> (Exit lines (if ok then 0 else 101), w'))"

section \<open>Lemmas\<close>

lemma parse_digits_value:
  assumes "\<forall>c \<in> set s. is_digit c" and "foldl (\<lambda>n c. 10 * n + (of_char c - 48)) acc s < 4294967296"
  shows "parse_digits acc s = Some (foldl (\<lambda>n c. 10 * n + (of_char c - 48)) acc s)"
  using assms
proof (induction s arbitrary: acc)
  case (Cons c s)
  have mono: "a \<le> foldl (\<lambda>n c. 10 * n + (of_char c - 48)) a xs" for a :: nat and xs
  proof (induction xs arbitrary: a)
    case (Cons x xs)
    have "a \<le> 10 * a + (of_char x - 48)" by simp
    also have "\<dots> \<le> foldl (\<lambda>n c. 10 * n + (of_char c - 48)) (10 * a + (of_char x - 48)) xs" by (rule Cons.IH)
    finally show ?case by simp
  qed simp
  have "10 * acc + (of_char c - 48) < 4294967296"
    using Cons.prems(2) mono [of "10 * acc + (of_char c - 48)" s] by simp
  with Cons show ?case by (simp add: mult.commute)
qed simp

lemma parse_format_code: "parse_u32 (format_code c) = Some c"
proof -
  let ?t = "format_code c"
  have digits: "\<forall>x \<in> set ?t. is_digit x"
    using dec_text_digits [of "unat c"] by (auto simp: format_code_def is_digit_def Let_def)
  have "dec_value ?t = unat c" by (simp add: format_code_def Let_def dec_value_zeros dec_value_dec_text)
  then have val: "foldl (\<lambda>n c. 10 * n + (of_char c - 48)) 0 ?t = unat c" by (simp add: dec_value_def)
  have "unat c < 4294967296" using unat_bound [of c] by simp
  with parse_digits_value [OF digits, of 0] val have parsed: "parse_digits 0 ?t = Some (unat c)" by simp
  have "8 \<le> length ?t" by (simp add: format_code_def Let_def)
  then have nonempty: "?t \<noteq> []" by auto
  then have "is_digit (hd ?t)" using digits by simp
  then have "hd ?t \<noteq> CHR ''+''" by (auto simp: is_digit_def)
  with parsed nonempty show ?thesis by (simp add: parse_u32_def)
qed

section \<open>Properties\<close>

text \<open>C20. The command line round trip. \<open>pqauth auth\<close> with a readable secret prints a code, and
  \<open>pqauth verify\<close> given that text, the same secret and a window of \<open>w\<close> steps, on a clock at most
  \<open>30 * w\<close> seconds away, parses it back, prints the check mark and exits with 0; neither panics.\<close>

theorem auth_then_verify:
  assumes "hex_decode (hexc d) secret = Some key"
    and "fst (clock_secs (os d) w1) = t1" and "0 \<le> sint t1"
    and "fst (clock_secs (os d) w2) = t2" and "0 \<le> sint t2"
    and "unat (abs_diff t1 t2) \<le> 30 * unat window" and "unat window < 2 ^ 63"
  shows "\<exists>text rest w1' w2'.
    run_command d e net inst (Auth secret) w1 =
      (Exit [text, ''Valid for '' @ rest @ ''s''] 0, w1') \<and>
    run_command d e net inst (VerifyCode text secret window) w2 =
      (Exit [check_mark @ '' Valid''] 0, w2')"
proof -
  have now1: "cli_now (os d) w1 = (Some t1, snd (clock_secs (os d) w1))"
    and now2: "cli_now (os d) w2 = (Some t2, snd (clock_secs (os d) w2))"
    using assms(2-5) by (auto simp: cli_now_def secs_since_epoch_def split: prod.splits)
  obtain c where c: "generate (sha d) key t1 = Some c" by (simp add: totp.gen_eq)
  have "PqTotp.verify (build d) (sha d) key c t2 window = Some True"
    using c assms(6) small_window_fits [OF assms(7)] by (rule totp.drift_accepted)
  with assms(1) now1 now2 c show ?thesis
    by (simp add: run_auth_def run_verify_def seconds_remaining_total parse_format_code conclude_def)
qed

theorem auth_then_verify_witness:
  "\<exists>text rest w1' w2'.
    run_command (toy_deps Debug) toy_ed \<lparr>runtime_ok = \<lambda>w. (False, w), bind_ok = \<lambda>a w. (False, w)\<rparr> (\<lambda>w. (0, w)) (Auth ''00ff'') (1000, 0) =
      (Exit [text, ''Valid for '' @ rest @ ''s''] 0, w1') \<and>
    run_command (toy_deps Debug) toy_ed \<lparr>runtime_ok = \<lambda>w. (False, w), bind_ok = \<lambda>a w. (False, w)\<rparr> (\<lambda>w. (0, w)) (VerifyCode text ''00ff'' 1) (1030, 0) =
      (Exit [check_mark @ '' Valid''] 0, w2')"
  by (rule auth_then_verify [of _ _ "[0, 255]" _ 1000 _ 1030])
    (simp_all add: toy_hex_def hex_value_def Let_def toy_os_def abs_diff_def)

end
