(* ===== verification/History.thy ===== *)
theory History
  imports ServerProperties
begin

text \<open>
  The history of a run: every request with the world it was served in and its answer. What the server's
  state holds is traced back to the entry of the history that put it there: a session to the request that
  began it, a record to the completion of a session, a waiting challenge to the request that issued it. So
  a login that the server reports as valid agrees with what the user and the server did before.
\<close>

section \<open>Histories\<close>

fun history ::
  "('h, 'w) deps \<Rightarrow> (request \<times> 'w) list \<Rightarrow> pq_auth_server \<Rightarrow> (request \<times> 'w \<times> reply option) list" where
  "history d [] srv = []"
| "history d ((req, w) # rest) srv = (req, w, fst (serve d req srv w)) # history d rest (after d req srv w)"

lemma length_history [simp]: "length (history d rqs srv) = length rqs"
  by (induction d rqs srv rule: history.induct) simp_all

lemma serve_all_snoc: "serve_all d (rqs @ [(req, w)]) srv = after d req (serve_all d rqs srv) w"
  by (induction d rqs srv rule: serve_all.induct) simp_all

lemma history_append: "history d (rqs @ rqs') srv = history d rqs srv @ history d rqs' (serve_all d rqs srv)"
  by (induction d rqs srv rule: history.induct) simp_all

lemma count_replies_history: "count_replies P d rqs srv = length (filter (\<lambda>(req, w, r). P req r) (history d rqs srv))"
  by (induction d rqs srv rule: history.induct) simp_all

text \<open>The entry of a request, between what was served before it and after it.\<close>

lemma history_at:
  assumes "i < length rqs" and "history d rqs srv ! i = (req, w, r)"
  obtains earlier later where "rqs = earlier @ (req, w) # later" and "length earlier = i"
    and "history d rqs srv = history d earlier srv @ (req, w, r) # history d later (after d req (serve_all d earlier srv) w)"
    and "fst (serve d req (serve_all d earlier srv) w) = r"
proof -
  obtain req' w' where at: "rqs ! i = (req', w')" by fastforce
  let ?before = "serve_all d (take i rqs) srv"
  have split: "rqs = take i rqs @ (req', w') # drop (Suc i) rqs" using id_take_nth_drop [OF assms(1)] at by simp
  have h: "history d rqs srv = history d (take i rqs) srv @
      (req', w', fst (serve d req' ?before w')) # history d (drop (Suc i) rqs) (after d req' ?before w')"
    by (subst split) (simp add: history_append)
  then have "history d rqs srv ! i = (req', w', fst (serve d req' ?before w'))"
    using assms(1) by (simp add: nth_append)
  with assms(2) have "req' = req \<and> w' = w \<and> fst (serve d req' ?before w') = r" by (metis prod.inject)
  then have eq: "req' = req" "w' = w" "fst (serve d req' ?before w') = r" by blast+
  show thesis by (rule that [OF split [unfolded eq(1,2)] _ h [unfolded eq(3), unfolded eq(1,2)] eq(3) [unfolded eq(1,2)]])
      (use assms(1) in simp)
qed

section \<open>Where the state comes from\<close>

text \<open>Entries that start a session of a user, and those that change which challenge waits for the user.\<close>

fun begins :: "string \<Rightarrow> request \<times> 'w \<times> reply option \<Rightarrow> bool" where
  "begins u (EnrollBegin v, w, Some (Begun (Inr _))) = (v = u)"
| "begins u _ = False"

fun moves_challenge :: "string \<Rightarrow> request \<times> 'w \<times> reply option \<Rightarrow> bool" where
  "moves_challenge u (req, w, r) = (issues u req r \<or> judges u req r)"

text \<open>Entry \<open>k\<close> began the session: the server drew its keys there and answered with the public one.\<close>

definition session_from ::
  "('h, 'w) deps \<Rightarrow> string \<Rightarrow> (request \<times> 'w \<times> reply option) list \<Rightarrow> string \<Rightarrow> server_enrollment \<Rightarrow> nat \<Rightarrow> bool" where
  "session_from d sid h u se k \<longleftrightarrow> k < length h \<and>
     (\<exists>w. h ! k = (EnrollBegin u, w, Some (Begun (Inr
        \<lparr>eb_kyber_public_key = hex_encode (hexc d) (se_kyber_public se), eb_server_id = sid\<rparr>))) \<and>
        se = fst (server_enrollment_new (kyb d) sid w))"

text \<open>Entry \<open>j\<close> completed the session of entry \<open>k\<close>, the last one begun, with the record \<open>rc\<close>.\<close>

definition enrolled_from ::
  "('h, 'w) deps \<Rightarrow> string \<Rightarrow> (request \<times> 'w \<times> reply option) list \<Rightarrow> string \<Rightarrow> enrollment_record \<Rightarrow> nat \<Rightarrow> nat \<Rightarrow> bool" where
  "enrolled_from d sid h u rc k j \<longleftrightarrow> k < j \<and> j < length h \<and>
     (\<forall>l. k < l \<and> l < j \<longrightarrow> \<not> begins u (h ! l)) \<and>
     (\<exists>se req w ok. session_from d sid h u se k \<and> h ! j = (EnrollComplete req, w, Some (Completed (Inr ok))) \<and>
        ecr_user_id req = u \<and> complete (sha d) (kyb d) se (completion_of (hexc d) req) = Inr rc)"

text \<open>Entry \<open>m\<close> issued the challenge.\<close>

definition challenge_from ::
  "('h, 'w) deps \<Rightarrow> (request \<times> 'w \<times> reply option) list \<Rightarrow> string \<Rightarrow> challenge \<Rightarrow> nat \<Rightarrow> bool" where
  "challenge_from d h u ch m \<longleftrightarrow> m < length h \<and>
     (\<exists>w. h ! m = (IssueChallenge u, w, Some (Issued (Inr
        \<lparr>ci_nonce = hex_encode (hexc d) (nonce ch), ci_issued_at = issued_at ch\<rparr>))))"

definition traced :: "('h, 'w) deps \<Rightarrow> string \<Rightarrow> (request \<times> 'w \<times> reply option) list \<Rightarrow> server_inner \<Rightarrow> bool" where
  "traced d sid h s \<longleftrightarrow> server_id s = sid \<and>
     (\<forall>u se. pending_enrollments s u = Some se \<longrightarrow>
        (\<exists>k. session_from d sid h u se k \<and> (\<forall>l. k < l \<and> l < length h \<longrightarrow> \<not> begins u (h ! l)))) \<and>
     (\<forall>u rc. users s u = Some rc \<longrightarrow> (\<exists>k j. enrolled_from d sid h u rc k j)) \<and>
     (\<forall>u rc ch. users s u = Some rc \<longrightarrow> pending_challenges s u = Some ch \<longrightarrow>
        (\<exists>k j m. enrolled_from d sid h u rc k j \<and> j < m \<and> challenge_from d h u ch m \<and>
          (\<forall>l. m < l \<and> l < length h \<longrightarrow> \<not> moves_challenge u (h ! l))))"

lemma session_from_append: "session_from d sid h u se k \<Longrightarrow> session_from d sid (h @ t) u se k"
  by (auto simp: session_from_def nth_append)

lemma enrolled_from_append: "enrolled_from d sid h u rc k j \<Longrightarrow> enrolled_from d sid (h @ t) u rc k j"
  unfolding enrolled_from_def by (auto simp: nth_append intro: session_from_append)

lemma challenge_from_append: "challenge_from d h u ch m \<Longrightarrow> challenge_from d (h @ t) u ch m"
  by (auto simp: challenge_from_def nth_append)

lemmas from_append = session_from_append enrolled_from_append challenge_from_append

lemma quiet_snoc:
  "(\<forall>l. k < l \<and> l < length h \<longrightarrow> \<not> P (h ! l)) \<Longrightarrow> \<not> P e \<Longrightarrow>
     \<forall>l. k < l \<and> l < length (h @ [e]) \<longrightarrow> \<not> P ((h @ [e]) ! l)"
  by (auto simp: nth_append less_Suc_eq)

text \<open>
  What one entry must do for the state after it to be traced: whatever the state then holds was there
  before and the entry does not touch it, or comes from the entry itself.
\<close>

lemma traced_snoc:
  assumes "traced d sid h s" and "server_id s' = server_id s"
    and sessions: "\<And>u se. pending_enrollments s' u = Some se \<Longrightarrow>
      pending_enrollments s u = Some se \<and> \<not> begins u e \<or> session_from d sid (h @ [e]) u se (length h)"
    and records: "\<And>u rc. users s' u = Some rc \<Longrightarrow>
      users s u = Some rc \<or> (\<exists>k. enrolled_from d sid (h @ [e]) u rc k (length h))"
    and challenges: "\<And>u rc ch. users s' u = Some rc \<Longrightarrow> pending_challenges s' u = Some ch \<Longrightarrow> users s u = Some rc \<and>
      (pending_challenges s u = Some ch \<and> \<not> moves_challenge u e \<or> challenge_from d (h @ [e]) u ch (length h))"
  shows "traced d sid (h @ [e]) s'"
  unfolding traced_def
proof (intro conjI allI impI)
  show "server_id s' = sid" using assms(1,2) by (simp add: traced_def)
next
  fix u se assume "pending_enrollments s' u = Some se"
  from sessions [OF this] show "\<exists>k. session_from d sid (h @ [e]) u se k \<and>
      (\<forall>l. k < l \<and> l < length (h @ [e]) \<longrightarrow> \<not> begins u ((h @ [e]) ! l))"
  proof
    assume "pending_enrollments s u = Some se \<and> \<not> begins u e"
    with assms(1) obtain k where "session_from d sid h u se k"
      "\<forall>l. k < l \<and> l < length h \<longrightarrow> \<not> begins u (h ! l)" "\<not> begins u e"
      unfolding traced_def by blast
    then show ?thesis using session_from_append quiet_snoc [of k h "begins u" e]
      by (intro exI [of _ k]) blast
  qed (auto intro!: exI [of _ "length h"])
next
  fix u rc assume "users s' u = Some rc"
  from records [OF this] show "\<exists>k j. enrolled_from d sid (h @ [e]) u rc k j"
    using assms(1) enrolled_from_append unfolding traced_def by blast
next
  fix u rc ch assume now: "users s' u = Some rc" "pending_challenges s' u = Some ch"
  note step = challenges [OF now]
  from step assms(1) obtain k j where kj: "enrolled_from d sid h u rc k j" unfolding traced_def by blast
  then have j: "j < length h" by (simp add: enrolled_from_def)
  from step consider "pending_challenges s u = Some ch" "users s u = Some rc" "\<not> moves_challenge u e"
    | "challenge_from d (h @ [e]) u ch (length h)" by blast
  then show "\<exists>k j m. enrolled_from d sid (h @ [e]) u rc k j \<and> j < m \<and> challenge_from d (h @ [e]) u ch m \<and>
      (\<forall>l. m < l \<and> l < length (h @ [e]) \<longrightarrow> \<not> moves_challenge u ((h @ [e]) ! l))"
  proof cases
    case 1
    with assms(1) obtain k j m where "enrolled_from d sid h u rc k j" "j < m" "challenge_from d h u ch m"
      "\<forall>l. m < l \<and> l < length h \<longrightarrow> \<not> moves_challenge u (h ! l)"
      unfolding traced_def by blast
    then show ?thesis using enrolled_from_append challenge_from_append quiet_snoc [of m h "moves_challenge u" e] 1(3)
      by (intro exI [of _ k] exI [of _ j] exI [of _ m]) blast
  next
    case 2
    then show ?thesis using kj j enrolled_from_append
      by (intro exI [of _ k] exI [of _ j] exI [of _ "length h"]) auto
  qed
qed

lemma traced_serve:
  assumes "traced d sid h (inner srv)" and "server_inv srv" and "\<not> poisoned srv"
    and "serve d req srv w = (r, srv', w')" and "r \<noteq> None"
  shows "traced d sid (h @ [(req, w, r)]) (inner srv')"
proof (cases req)
  case (EnrollBegin u)
  from begin_runs [OF assms(4) [unfolded EnrollBegin] assms(3)] assms(5) obtain r0 where r: "r = map_option Begun r0" "r0 \<noteq> None"
    and "do_enroll_begin d u (inner srv) w = (r0, inner srv', w')" by blast
  from this(3) show ?thesis
  proof (cases rule: enroll_begin_cases)
    case enrolled
    then show ?thesis by (intro traced_snoc [OF assms(1)]) (simp_all add: EnrollBegin r)
  next
    case (begun se ts)
    then show ?thesis using assms(1)
      by (intro traced_snoc [OF assms(1)])
        (auto simp: EnrollBegin r session_from_def traced_def split: if_splits)
  qed (use \<open>r0 \<noteq> None\<close> in simp)
next
  case (EnrollComplete rq)
  from complete_runs [OF assms(4) [unfolded EnrollComplete] assms(3)] assms(5) obtain r0 where r: "r = map_option Completed r0" "r0 \<noteq> None"
    and "do_enroll_complete d rq (inner srv) w = (r0, inner srv', w')" by blast
  from this(3) show ?thesis
  proof (cases rule: enroll_complete_cases)
    case (enrolled se rc ts)
    have ok: "accounts_ok (inner srv)" using assms(2,3) by (simp add: server_inv_def)
    then have new: "users (inner srv) (ecr_user_id rq) = None" using enrolled(1) unfolding accounts_ok_def by auto
    with ok have "pending_challenges (inner srv) (ecr_user_id rq) = None" unfolding accounts_ok_def by (metis domIff subsetD)
    note new = new this
    from assms(1) enrolled(1) obtain k where k: "session_from d sid h (ecr_user_id rq) se k"
      "\<forall>l. k < l \<and> l < length h \<longrightarrow> \<not> begins (ecr_user_id rq) (h ! l)"
      unfolding traced_def by blast
    then have "enrolled_from d sid (h @ [(req, w, r)]) (ecr_user_id rq) rc k (length h)"
      using enrolled(2,3) session_from_append [OF k(1)]
      unfolding enrolled_from_def by (auto simp: session_from_def nth_append EnrollComplete r)
    then show ?thesis using enrolled new
      by (intro traced_snoc [OF assms(1)]) (auto simp: EnrollComplete split: if_splits)
  qed (use \<open>r0 \<noteq> None\<close> in \<open>auto intro!: traced_snoc [OF assms(1)] simp: EnrollComplete r split: if_splits\<close>)
next
  case (IssueChallenge u)
  from issue_runs [OF assms(4) [unfolded IssueChallenge] assms(3)] assms(5) obtain r0 where r: "r = map_option Issued r0" "r0 \<noteq> None"
    and "do_issue_challenge d u (inner srv) w = (r0, inner srv', w')" by blast
  from this(3) show ?thesis
    by (cases rule: issue_challenge_cases)
      (use \<open>r0 \<noteq> None\<close> in \<open>auto intro!: traced_snoc [OF assms(1)] simp: IssueChallenge r challenge_from_def split: if_splits\<close>)
next
  case (Verify rq)
  from verify_runs [OF assms(4) [unfolded Verify] assms(3)] assms(5) obtain r0 where r: "r = map_option Verified r0" "r0 \<noteq> None"
    and "do_verify d rq (inner srv) w = (r0, inner srv', w')" by blast
  from this(3) show ?thesis
    by (cases rule: verify_cases)
      (use \<open>r0 \<noteq> None\<close> in \<open>auto intro!: traced_snoc [OF assms(1)] simp: Verify r split: if_splits\<close>)
qed

lemma history_traced:
  assumes "\<not> poisoned (serve_all d rqs (server_new sid))"
  shows "traced d sid (history d rqs (server_new sid)) (inner (serve_all d rqs (server_new sid)))"
  using assms
proof (induction rqs rule: rev_induct)
  case Nil
  then show ?case by (simp add: traced_def server_new_def inner_new_def)
next
  case (snoc rq rqs)
  obtain req w where rq: "rq = (req, w)" by (cases rq)
  let ?srv = "serve_all d rqs (server_new sid)"
  obtain r srv' w' where s: "serve d req ?srv w = (r, srv', w')" by (metis prod_cases3)
  have live: "\<not> poisoned srv'" using snoc.prems s by (simp add: rq serve_all_snoc after_def)
  have "\<not> poisoned ?srv" using live s serve_poisoned [of ?srv d req w] by auto
  moreover from this have "r \<noteq> None" using serve_poison_iff [OF s] live by blast
  moreover have "server_inv ?srv" by (rule server.reachable_inv [OF _ serve_all_steps]) blast
  ultimately show ?case
    using traced_serve [OF snoc.IH _ _ s] s by (simp add: rq serve_all_snoc after_def history_append)
qed

section \<open>Logins\<close>

text \<open>
  What a login request at entry \<open>i\<close> has to offer against a record of entry \<open>j\<close> at server time \<open>ts\<close>: a code
  of the record's seed, or a signature by the record's key over the nonce of an entry \<open>m\<close>, after which no
  other entry touched the challenge.
\<close>

fun credential ::
  "('h, 'w) deps \<Rightarrow> (request \<times> 'w \<times> reply option) list \<Rightarrow> string \<Rightarrow> enrollment_record \<Rightarrow> nat \<Rightarrow> nat \<Rightarrow> u64 \<Rightarrow>
   verify_method \<Rightarrow> bool" where
  "credential d h u rc j i ts (Totp code) =
     (\<exists>x. abs_diff x (current_step ts) \<le> 1 \<and> generate_at_step (sha d) (rec_totp_seed rc) x = Some code)"
| "credential d h u rc j i ts (ChallengeMethod n cts sig) =
     (\<exists>ch m. j < m \<and> m < i \<and> challenge_from d h u ch m \<and>
        (\<forall>l. m < l \<and> l < i \<longrightarrow> \<not> moves_challenge u (h ! l)) \<and>
        unat ts - unat (issued_at ch) \<le> 300 \<and> abs_diff cts ts \<le> 60 \<and>
        verify_detached (dil d) (rec_dilithium_public rc) (nonce ch @ u64_to_be cts)
          (unwrap_or_default (hex_decode (hexc d) sig)) = Inr ())"

lemma credential_append:
  assumes "credential d h u rc j (length h) ts how"
  shows "credential d (h @ t) u rc j (length h) ts how"
proof (cases how)
  case (ChallengeMethod n cts sig)
  have "(\<forall>l. m < l \<and> l < length h \<longrightarrow> \<not> moves_challenge u ((h @ t) ! l)) \<longleftrightarrow>
      (\<forall>l. m < l \<and> l < length h \<longrightarrow> \<not> moves_challenge u (h ! l))" for m
    by (simp add: nth_append)
  with assms challenge_from_append [of d h u _ _ t] show ?thesis
    unfolding ChallengeMethod credential.simps by blast
qed (use assms in simp)

lemma traced_login:
  assumes "traced d sid h (inner srv)" and "max_clock_skew (verifier (inner srv)) = 60"
    and "server_verify d req srv w = (Some (Inr resp), srv', w')" and "vs_valid resp"
  obtains rc k j ts where "enrolled_from d sid h (vr_user_id req) rc k j" and "clock_shows d ts"
    and "credential d h (vr_user_id req) rc j (length h) ts (vr_method req)"
proof -
  let ?u = "vr_user_id req"
  obtain rc ts where rc: "users (inner srv) ?u = Some rc" "clock_shows d ts"
    and how: "case vr_method req of
       Totp code \<Rightarrow>
         (\<exists>x. abs_diff x (current_step ts) \<le> 1 \<and> generate_at_step (sha d) (rec_totp_seed rc) x = Some code)
     | ChallengeMethod n cts sig \<Rightarrow>
         (\<exists>ch. pending_challenges (inner srv) ?u = Some ch \<and>
            unat ts - unat (issued_at ch) \<le> 300 \<and> abs_diff cts ts \<le> max_clock_skew (verifier (inner srv)) \<and>
            verify_detached (dil d) (rec_dilithium_public rc) (nonce ch @ u64_to_be cts)
              (unwrap_or_default (hex_decode (hexc d) sig)) = Inr () \<and>
            pending_challenges (inner srv') ?u = None)"
    using valid_login [OF assms(3,4)] by blast
  show thesis
  proof (cases "vr_method req")
    case (Totp code)
    from assms(1) rc(1) obtain k j where "enrolled_from d sid h ?u rc k j" unfolding traced_def by blast
    then show thesis using rc(2) how by (intro that) (simp_all add: Totp)
  next
    case (ChallengeMethod n cts sig)
    with how obtain ch where ch: "pending_challenges (inner srv) ?u = Some ch"
      "unat ts - unat (issued_at ch) \<le> 300" "abs_diff cts ts \<le> 60"
      "verify_detached (dil d) (rec_dilithium_public rc) (nonce ch @ u64_to_be cts)
        (unwrap_or_default (hex_decode (hexc d) sig)) = Inr ()"
      by (auto simp: assms(2))
    from assms(1) rc(1) ch(1) obtain k j m where kjm: "enrolled_from d sid h ?u rc k j" "j < m" "challenge_from d h ?u ch m"
      "\<forall>l. m < l \<and> l < length h \<longrightarrow> \<not> moves_challenge ?u (h ! l)"
      unfolding traced_def by blast
    then have "m < length h" by (simp add: challenge_from_def)
    with kjm ch(2-4) have "credential d h ?u rc j (length h) ts (vr_method req)"
      unfolding ChallengeMethod credential.simps by blast
    with kjm(1) rc(2) show thesis by (rule that)
  qed
qed

section \<open>Properties\<close>

text \<open>C2. A valid login agrees with the history. Take any run from a new server in which the request at
  position \<open>i\<close> is reported as a valid login of a user. Then an earlier request \<open>j\<close> of that user
  completed the session that the last \<open>enroll_begin\<close> before it, at \<open>k\<close>, started: the server drew that
  session's keys there and handed out the public one, and the record that the login is checked against
  is what \<open>complete\<close> computes from that session and the request \<open>j\<close>. A TOTP code is the code of a step
  around the server's time under that record's seed. A challenge answer is signed with the key of that record over
  the nonce that a request \<open>m\<close> of the user after the enrollment was answered, at most 300 seconds ago by
  the server's clock, and between \<open>m\<close> and \<open>i\<close> no other challenge was issued to the user and no other
  answer judged: every challenge login has an issued challenge of its own.\<close>

theorem login_traces_back:
  assumes "i < length rqs" and "h = history d rqs (server_new sid)"
    and "h ! i = (Verify req, w, Some (Verified (Inr resp)))" and "vs_valid resp"
  shows "\<exists>rc k j ts. k < j \<and> j < i \<and> enrolled_from d sid h (vr_user_id req) rc k j \<and> clock_shows d ts \<and>
    credential d h (vr_user_id req) rc j i ts (vr_method req)"
proof -
  from history_at [OF assms(1) assms(3) [unfolded assms(2)]] obtain earlier later where
    h: "h = history d earlier (server_new sid) @ (Verify req, w, Some (Verified (Inr resp))) # later" and i: "i = length earlier"
    and served: "fst (serve d (Verify req) (serve_all d earlier (server_new sid)) w) = Some (Verified (Inr resp))"
    unfolding assms(2) by metis
  let ?srv = "serve_all d earlier (server_new sid)" and ?h = "history d earlier (server_new sid)"
  obtain srv' w' where v: "server_verify d req ?srv w = (Some (Inr resp), srv', w')"
    using served by (auto simp: answer_def split: prod.splits)
  have live: "\<not> poisoned ?srv" using answered_unpoisoned [OF v] .
  then have "max_clock_skew (verifier (inner ?srv)) = 60"
    using server.reachable_inv [OF _ serve_all_steps [of d "server_new sid" earlier]]
    by (auto simp: server_inv_def limits_ok_def)
  from traced_login [OF history_traced [OF live] this v assms(4)] obtain rc k j ts where
    e: "enrolled_from d sid ?h (vr_user_id req) rc k j" and ts: "clock_shows d ts"
    and c: "credential d ?h (vr_user_id req) rc j (length ?h) ts (vr_method req)" .
  have "k < j" "j < i" using e by (simp_all add: enrolled_from_def i)
  with enrolled_from_append [OF e] credential_append [OF c] ts show ?thesis
    unfolding h length_history i by blast
qed

text \<open>Runs for the witnesses: a user enrolls; then logs in with a code, or asks for a challenge.\<close>

lemma bob_enrolls:
  obtains req srv rc where
    "serve_all (still Debug 1000) [(EnrollBegin ''bob'', (0, 5)), (EnrollComplete req, (0, 6))] (server_new ''s'') = srv"
    and "server_inv srv" and "\<not> poisoned srv" and "users (inner srv) ''bob'' = Some rc"
    and "limiter (still Debug 1000) (inner srv) ''bob'' (0, 7) = Some (True, (1, 1000))"
proof -
  let ?d = "still Debug 1000" and ?pk = "replicate 1952 7 :: bytes" and ?new = "server_new ''s''"
  have start: "hex_law (hexc ?d)" "kyber768_law (kyb ?d)" "\<not> clock_fails ?d" "\<not> poisoned ?new"
    "''bob'' \<notin> dom (users (inner ?new))" "server_id (inner ?new) \<noteq> []" "length ?pk = 1952"
    by (simp_all add: toy_laws server_new_def inner_new_def)
  obtain b srv1 w1 kpub where b: "enroll_begin ?d ''bob'' ?new (0, 5) = (Some (Inr b), srv1, w1)"
    and flow: "\<forall>v v'. \<exists>resp cd v1 srv2 v2 rc.
      client_enroll (sha ?d) (kyb ?d) \<lparr>ec_kyber_public = kpub, ec_server_id = eb_server_id b\<rparr> ?pk v = (Inr (resp, cd), v1) \<and>
      enroll_complete ?d \<lparr>ecr_user_id = ''bob'', ecr_ciphertext = hex_encode (hexc ?d) (er_ciphertext resp),
        ecr_dilithium_public_key = hex_encode (hexc ?d) (er_dilithium_public resp)\<rparr> srv1 v' =
        (Some (Inr \<lparr>ecs_success = True, ecs_message = ''Enrollment successful''\<rparr>), srv2, v2) \<and>
      \<not> poisoned srv2 \<and> users (inner srv2) = (users (inner ?new))(''bob'' \<mapsto> rc) \<and>
      rec_totp_seed rc = ce_totp_seed cd \<and> rec_dilithium_public rc = ?pk \<and>
      rate_limits (inner srv2) = rate_limits (inner ?new) \<and> verifier (inner srv2) = verifier (inner ?new)"
    by (rule enrollment_flow [OF start, of "(0, 5)"])
  from flow obtain req srv2 v2 rc where c: "enroll_complete ?d req srv1 (0, 6) =
      (Some (Inr \<lparr>ecs_success = True, ecs_message = ''Enrollment successful''\<rparr>), srv2, v2)"
    "\<not> poisoned srv2" "users (inner srv2) ''bob'' = Some rc" "rate_limits (inner srv2) = rate_limits (inner ?new)"
    by (metis fun_upd_same)
  let ?rqs = "[(EnrollBegin ''bob'', (0, 5)), (EnrollComplete req, (0, 6))]"
  have run: "serve_all ?d ?rqs ?new = srv2" using b c(1) by (simp add: after_def answer_def)
  then have inv: "server_inv srv2" using server.reachable_inv [OF _ serve_all_steps [of ?d ?new ?rqs]] by auto
  have lim: "limiter ?d (inner srv2) ''bob'' (0, 7) = Some (True, (1, 1000))"
    using c(2,4) inv by (subst limiter_first) (simp_all add: server_inv_def limits_ok_def server_new_def inner_new_def)
  show thesis by (rule that [OF run inv c(2,3) lim])
qed

lemma bob_logs_in:
  "\<exists>rqs code w. length rqs = 3 \<and> history (still Debug 1000) rqs (server_new ''s'') ! 2 =
     (Verify \<lparr>vr_user_id = ''bob'', vr_method = Totp code\<rparr>, w,
      Some (Verified (Inr \<lparr>vs_valid = True, vs_message = ''TOTP verified''\<rparr>)))"
proof -
  let ?d = "still Debug 1000"
  obtain req srv rc where run:
      "serve_all ?d [(EnrollBegin ''bob'', (0, 5)), (EnrollComplete req, (0, 6))] (server_new ''s'') = srv"
    and live: "\<not> poisoned srv" and rc: "users (inner srv) ''bob'' = Some rc"
    and lim: "limiter ?d (inner srv) ''bob'' (0, 7) = Some (True, (1, 1000))"
    by (rule bob_enrolls)
  have clock: "\<not> clock_fails ?d" by simp
  obtain code where "generate (sha ?d) (rec_totp_seed rc) 1000 = Some code" by (simp add: totp.gen_eq)
  from same_step_code [OF this] have "\<exists>x. abs_diff x (current_step t) \<le> 1 \<and> generate_at_step (sha ?d) (rec_totp_seed rc) x = Some code"
    if "clock_shows ?d t" for t
    using that step_drift [of 1000 t 1] by (simp add: current_step_def abs_diff_def)
  from totp_login [OF live clock rc lim this] obtain srv3 v3 where
    "server_verify ?d \<lparr>vr_user_id = ''bob'', vr_method = Totp code\<rparr> srv (0, 7) =
      (Some (Inr \<lparr>vs_valid = True, vs_message = ''TOTP verified''\<rparr>), srv3, v3)" by metis
  with run show ?thesis
    by (intro exI [of _ "[(EnrollBegin ''bob'', (0, 5)), (EnrollComplete req, (0, 6)),
          (Verify \<lparr>vr_user_id = ''bob'', vr_method = Totp code\<rparr>, (0, 7))]"] exI) (simp add: answer_def)
qed

definition bob_answers :: request where
  "bob_answers = Verify \<lparr>vr_user_id = ''bob'', vr_method = ChallengeMethod [] 0 []\<rparr>"

lemma bob_is_challenged:
  obtains rqs where "count_replies (issues ''bob'') (still Debug 1000) rqs (server_new ''s'') = 1"
    and "judges ''bob'' bob_answers (fst (serve (still Debug 1000) bob_answers
           (serve_all (still Debug 1000) rqs (server_new ''s'')) (0, 8)))"
proof -
  let ?d = "still Debug 1000"
  obtain req srv rc where run:
      "serve_all ?d [(EnrollBegin ''bob'', (0, 5)), (EnrollComplete req, (0, 6))] (server_new ''s'') = srv"
    and inv: "server_inv srv" and live: "\<not> poisoned srv" and rc: "users (inner srv) ''bob'' = Some rc"
    and lim: "limiter ?d (inner srv) ''bob'' (0, 7) = Some (True, (1, 1000))"
    by (rule bob_enrolls)
  obtain r srv1 w1 where s: "serve ?d (IssueChallenge ''bob'') srv (0, 7) = (r, srv1, w1)" by (metis prod_cases3)
  from issue_runs [OF this live] obtain r0 where r: "r = map_option Issued r0" "poisoned srv1 \<longleftrightarrow> r0 = None"
    and "do_issue_challenge ?d ''bob'' (inner srv) (0, 7) = (r0, inner srv1, w1)"
    using serve_poison_iff [OF s live] by auto
  from this(3) obtain ci ch where issued: "r0 = Some (Inr ci)" "users (inner srv1) ''bob'' = Some rc"
    "pending_challenges (inner srv1) ''bob'' = Some ch" "rate_limits (inner srv1) ''bob'' = Some (1, 1000)"
    "max_attempts (inner srv1) = 5" "rate_window (inner srv1) = 300"
    by (cases rule: issue_challenge_cases)
      (use rc lim inv live in \<open>auto simp: server_inv_def limits_ok_def dom_def\<close>)
  then have live1: "\<not> poisoned srv1" using r by simp
  have lim1: "limiter ?d (inner srv1) ''bob'' (0, 8) = Some (True, (2, 1000))"
    using issued(4-6) by (simp add: limiter_def entry_or_insert_def rate_entry_step_def checked_sub_le checked_add_small)
  obtain r2 srv2 w2 where s2: "serve ?d bob_answers srv1 (0, 8) = (r2, srv2, w2)" by (metis prod_cases3)
  from verify_runs [OF this [unfolded bob_answers_def] live1] obtain r3 where r2: "r2 = map_option Verified r3"
    and "do_verify ?d \<lparr>vr_user_id = ''bob'', vr_method = ChallengeMethod [] 0 []\<rparr> (inner srv1) (0, 8) = (r3, inner srv2, w2)"
    by blast
  from this(2) have "\<exists>x. r3 = Some (Inr x)"
    by (cases rule: verify_cases) (use issued(2,3) lim1 in auto)
  then have judged: "judges ''bob'' bob_answers (fst (serve ?d bob_answers srv1 (0, 8)))"
    using s2 r2 by (auto simp: bob_answers_def simp del: serve.simps)
  let ?rqs = "[(EnrollBegin ''bob'', (0, 5)), (EnrollComplete req, (0, 6)), (IssueChallenge ''bob'', (0, 7))]"
  have end_state: "serve_all ?d ?rqs (server_new ''s'') = srv1"
    using run s by (simp add: after_def del: serve.simps)
  have "count_replies (issues ''bob'') ?d ?rqs (server_new ''s'') = 1"
    using run s r issued(1) by (simp add: after_def del: serve.simps)
  then show thesis by (rule that) (simp only: end_state judged)
qed

theorem login_traces_back_witness:
  "\<exists>rqs rc k j. length rqs = 3 \<and> k < j \<and> j < 2 \<and>
     enrolled_from (still Debug 1000) ''s'' (history (still Debug 1000) rqs (server_new ''s'')) ''bob'' rc k j"
proof -
  let ?d = "still Debug 1000"
  obtain rqs code w where run: "length rqs = 3" "history ?d rqs (server_new ''s'') ! 2 =
     (Verify \<lparr>vr_user_id = ''bob'', vr_method = Totp code\<rparr>, w,
      Some (Verified (Inr \<lparr>vs_valid = True, vs_message = ''TOTP verified''\<rparr>)))"
    using bob_logs_in by blast
  from login_traces_back [OF _ refl run(2)] run(1) show ?thesis by fastforce
qed

end
