(* ===== verification/Concurrency.thy ===== *)
theory Concurrency
  imports History
begin

text \<open>
  Requests from several threads. axum runs the handlers of \<open>src/main.rs\<close> on the threads of the tokio
  runtime; each holds a clone of the \<open>Arc\<close> in \<open>PqAuthServer\<close> (\<open>src/server.rs\<close>) and does its work between
  taking and dropping the guard of one mutex. Here every operation is a program of small actions on the
  shared state, one per call that its body makes, and a step relation interleaves the threads. It is
  shown that the programs compute the operations of theory Server, that every interleaving has the
  effect of serving the requests one at a time in the order in which they got the lock.
\<close>

section \<open>Programs\<close>

text \<open>An action on the shared state and the world, and how the program goes on.\<close>

datatype 'w program =
    Reply "reply option"
  | Action "server_inner \<Rightarrow> 'w \<Rightarrow> server_inner \<times> 'w" "server_inner \<Rightarrow> 'w \<Rightarrow> 'w program"

primrec execute :: "'w program \<Rightarrow> server_inner \<Rightarrow> 'w \<Rightarrow> reply option \<times> server_inner \<times> 'w" where
  "execute (Reply r) = (\<lambda>s w. (r, s, w))"
| "execute (Action f k) = (\<lambda>s w. case f s w of (s', w') \<Rightarrow> execute (k s w) s' w')"

text \<open>A call as one action; a panic in it ends the program.\<close>

definition perform :: "('a, 'w) call \<Rightarrow> ('a \<Rightarrow> 'w program) \<Rightarrow> 'w program" where
  "perform m k = Action (\<lambda>s w. snd (m s w)) (\<lambda>s w. case fst (m s w) of None \<Rightarrow> Reply None | Some x \<Rightarrow> k x)"

definition look :: "(server_inner \<Rightarrow> 'a) \<Rightarrow> ('a \<Rightarrow> 'w program) \<Rightarrow> 'w program" where
  "look f = perform (\<lambda>s. ret (f s) s)"

definition change :: "(server_inner \<Rightarrow> server_inner) \<Rightarrow> 'w program \<Rightarrow> 'w program" where
  "change f p = perform (\<lambda>s. ret () (f s)) (\<lambda>_. p)"

definition from_world :: "('w \<Rightarrow> 'a \<times> 'w) \<Rightarrow> ('a \<Rightarrow> 'w program) \<Rightarrow> 'w program" where
  "from_world f = perform (\<lambda>s w. case f w of (x, w') \<Rightarrow> (Some x, s, w'))"

section \<open>The operations\<close>

definition begin_program :: "('h, 'w) deps \<Rightarrow> string \<Rightarrow> 'w program" where
  "begin_program d user =
     look (\<lambda>s. contains_key (users s) user) (\<lambda>enrolled.
     if enrolled then Reply (Some (Begun (Inl (UserAlreadyEnrolled user))))
     else
       look server_id (\<lambda>sid.
       from_world (server_enrollment_new (kyb d) sid) (\<lambda>enrollment.
       let ch = enrollment_challenge_of enrollment;
           resp = \<lparr>eb_kyber_public_key = hex_encode (hexc d) (ec_kyber_public ch), eb_server_id = ec_server_id ch\<rparr>
       in change (\<lambda>s. s\<lparr>pending_enrollments := (pending_enrollments s)(user \<mapsto> enrollment)\<rparr>)
          (perform (audit d user ''enroll_begin'' True None) (\<lambda>_. Reply (Some (Begun (Inr resp))))))))"

definition complete_program :: "('h, 'w) deps \<Rightarrow> enroll_complete_request \<Rightarrow> 'w program" where
  "complete_program d req =
     (let user = ecr_user_id req in
      perform (\<lambda>s. ret (pending_enrollments s user)
        (s\<lparr>pending_enrollments := map_remove (pending_enrollments s) user\<rparr>)) (\<lambda>session.
      case session of
        None \<Rightarrow> Reply (Some (Completed (Inl (NoPendingEnrollment user))))
      | Some enrollment \<Rightarrow>
          (case complete (sha d) (kyb d) enrollment (completion_of (hexc d) req) of
             Inl e \<Rightarrow> Reply (Some (Completed (Inl (EnrollmentFailed e))))
           | Inr rc \<Rightarrow>
               change (\<lambda>s. s\<lparr>users := (users s)(user \<mapsto> rc)\<rparr>)
               (perform (audit d user ''enroll_complete'' True None) (\<lambda>_.
                Reply (Some (Completed (Inr \<lparr>ecs_success = True, ecs_message = ''Enrollment successful''\<rparr>))))))))"

definition issue_program :: "('h, 'w) deps \<Rightarrow> string \<Rightarrow> 'w program" where
  "issue_program d user =
     look (\<lambda>s. contains_key (users s) user) (\<lambda>enrolled.
     if \<not> enrolled then Reply (Some (Issued (Inl (UserNotFound user))))
     else
       perform (check_rate_limit d user) (\<lambda>admitted.
       case admitted of
         Inl e \<Rightarrow> Reply (Some (Issued (Inl e)))
       | Inr _ \<Rightarrow>
           perform (now_unix (os d)) (\<lambda>ts.
           from_world (challenge_new (rnd d) ts) (\<lambda>ch.
           let resp = \<lparr>ci_nonce = hex_encode (hexc d) (nonce ch), ci_issued_at = issued_at ch\<rparr> in
           change (\<lambda>s. s\<lparr>pending_challenges := (pending_challenges s)(user \<mapsto> ch)\<rparr>)
           (perform (audit d user ''challenge_issued'' True None) (\<lambda>_. Reply (Some (Issued (Inr resp)))))))))"

definition totp_program :: "('h, 'w) deps \<Rightarrow> string \<Rightarrow> enrollment_record \<Rightarrow> u32 \<Rightarrow> 'w program" where
  "totp_program d user_id user code =
     perform (now_unix (os d)) (\<lambda>ts.
     case PqTotp.verify (build d) (sha d) (rec_totp_seed user) code ts 1 of
       None \<Rightarrow> Reply None
     | Some valid \<Rightarrow>
         perform (audit d user_id ''verify_totp'' valid None) (\<lambda>_.
         Reply (Some (Verified (Inr \<lparr>vs_valid = valid,
           vs_message = (if valid then ''TOTP verified'' else ''Invalid TOTP code'')\<rparr>)))))"

definition challenge_program ::
  "('h, 'w) deps \<Rightarrow> string \<Rightarrow> enrollment_record \<Rightarrow> string \<Rightarrow> u64 \<Rightarrow> string \<Rightarrow> 'w program" where
  "challenge_program d user_id user n client_ts sig =
     perform (\<lambda>s. ret (pending_challenges s user_id)
       (s\<lparr>pending_challenges := map_remove (pending_challenges s) user_id\<rparr>)) (\<lambda>pending.
     case pending of
       None \<Rightarrow> Reply (Some (Verified (Inl (NoPendingChallenge user_id))))
     | Some ch \<Rightarrow>
         (let cr = response_of (hexc d) n client_ts sig in
          perform (now_unix (os d)) (\<lambda>ts.
          perform (\<lambda>s. case verifier_verify (dil d) (verifier s) ch cr (rec_dilithium_public user) ts of
            (result, v) \<Rightarrow> ret result (s\<lparr>verifier := v\<rparr>)) (\<lambda>result.
          let valid = is_ok result in
          perform (audit d user_id ''verify_challenge'' valid (map_option challenge_error_text (err_opt result))) (\<lambda>_.
          Reply (Some (Verified (Inr \<lparr>vs_valid = valid,
            vs_message = (if valid then ''Challenge-response verified''
                          else ''Challenge verification failed'')\<rparr>))))))))"

definition verify_program :: "('h, 'w) deps \<Rightarrow> verify_request \<Rightarrow> 'w program" where
  "verify_program d req =
     look (\<lambda>s. users s (vr_user_id req)) (\<lambda>record.
     case record of
       None \<Rightarrow> Reply (Some (Verified (Inl (UserNotFound (vr_user_id req)))))
     | Some user \<Rightarrow>
         perform (check_rate_limit d (vr_user_id req)) (\<lambda>admitted.
         case admitted of
           Inl e \<Rightarrow> Reply (Some (Verified (Inl e)))
         | Inr _ \<Rightarrow>
             (case vr_method req of
                Totp code \<Rightarrow> totp_program d (vr_user_id req) user code
              | ChallengeMethod n client_ts sig \<Rightarrow>
                  challenge_program d (vr_user_id req) user n client_ts sig)))"

fun program_of :: "('h, 'w) deps \<Rightarrow> request \<Rightarrow> 'w program" where
  "program_of d (EnrollBegin user) = begin_program d user"
| "program_of d (EnrollComplete req) = complete_program d req"
| "program_of d (IssueChallenge user) = issue_program d user"
| "program_of d (Verify req) = verify_program d req"

section \<open>The threads\<close>

text \<open>A thread with a request that waits for the mutex, inside the operation, and after the answer.\<close>

datatype 'w phase = Waiting request | Running request "'w program" | Answered "reply option"

text \<open>The shared state behind the mutex, who holds the mutex, what every thread does, and the world.\<close>

record ('t, 'w) config =
  shared :: server_inner
  poison :: bool
  holder :: "'t option"
  phases :: "'t \<Rightarrow> 'w phase"
  world :: 'w

text \<open>What a client sees of a thread.\<close>

datatype 't event = Arrives 't request | Answers 't request "reply option"

text \<open>
  A thread that gave its answer takes the next request. \<open>lock().unwrap()\<close> waits until the mutex is free; on
  a poisoned mutex it panics. Dropping the guard frees the mutex and poisons it when the thread panics.
  While nobody holds it, the world may change.
\<close>

inductive thread_step :: "('h, 'w) deps \<Rightarrow> ('t, 'w) config \<Rightarrow> 't event option \<Rightarrow> ('t, 'w) config \<Rightarrow> bool"
  for d :: "('h, 'w) deps" where
  arrive: "phases c t = Answered r \<Longrightarrow>
    thread_step d c (Some (Arrives t req)) (c\<lparr>phases := (phases c)(t := Waiting req)\<rparr>)"
| acquire: "phases c t = Waiting req \<Longrightarrow> holder c = None \<Longrightarrow> \<not> poison c \<Longrightarrow>
    thread_step d c None (c\<lparr>holder := Some t, phases := (phases c)(t := Running req (program_of d req))\<rparr>)"
| refuse: "phases c t = Waiting req \<Longrightarrow> holder c = None \<Longrightarrow> poison c \<Longrightarrow>
    thread_step d c (Some (Answers t req None)) (c\<lparr>phases := (phases c)(t := Answered None)\<rparr>)"
| act: "phases c t = Running req (Action f k) \<Longrightarrow> holder c = Some t \<Longrightarrow> f (shared c) (world c) = (s', w') \<Longrightarrow>
    thread_step d c None
      (c\<lparr>shared := s', world := w', phases := (phases c)(t := Running req (k (shared c) (world c)))\<rparr>)"
| release: "phases c t = Running req (Reply r) \<Longrightarrow> holder c = Some t \<Longrightarrow>
    thread_step d c (Some (Answers t req r))
      (c\<lparr>holder := None, poison := (r = None), phases := (phases c)(t := Answered r)\<rparr>)"
| passing: "holder c = None \<Longrightarrow> thread_step d c None (c\<lparr>world := w'\<rparr>)"

text \<open>The same with a log of the events.\<close>

inductive logged_step ::
  "('h, 'w) deps \<Rightarrow> ('t, 'w) config \<times> 't event list \<Rightarrow> ('t, 'w) config \<times> 't event list \<Rightarrow> bool"
  for d :: "('h, 'w) deps" where
  silent: "thread_step d c None c' \<Longrightarrow> logged_step d (c, es) (c', es)"
| seen: "thread_step d c (Some e) c' \<Longrightarrow> logged_step d (c, es) (c', es @ [e])"

inductive_cases logged_stepE: "logged_step d (c, es) (c', es')"

text \<open>A configuration in which the mutex is free and no thread is inside an operation.\<close>

definition quiet :: "('t \<Rightarrow> 'w phase) \<Rightarrow> bool" where
  "quiet ph \<longleftrightarrow> (\<forall>t req p. ph t \<noteq> Running req p)"

definition idle :: "('t, 'w) config \<Rightarrow> bool" where
  "idle c \<longleftrightarrow> holder c = None \<and> quiet (phases c)"

definition server_of :: "('t, 'w) config \<Rightarrow> pq_auth_server" where
  "server_of c = \<lparr>inner = shared c, poisoned = poison c\<rparr>"

text \<open>The answers of a log, in the order in which they were given.\<close>

fun answers :: "'t event list \<Rightarrow> ('t \<times> request \<times> reply option) list" where
  "answers [] = []"
| "answers (Arrives t req # es) = answers es"
| "answers (Answers t req r # es) = (t, req, r) # answers es"

text \<open>
  The phases that a client knows from the log, and the logs in which every thread alternates: a request
  arrives only after the last answer, and an answer is to the request that arrived last.
\<close>

fun seen_phases :: "('t \<Rightarrow> 'w phase) \<Rightarrow> 't event list \<Rightarrow> ('t \<Rightarrow> 'w phase)" where
  "seen_phases ph [] = ph"
| "seen_phases ph (Arrives t req # es) = seen_phases (ph(t := Waiting req)) es"
| "seen_phases ph (Answers t req r # es) = seen_phases (ph(t := Answered r)) es"

fun alternates :: "('t \<Rightarrow> 'w phase) \<Rightarrow> 't event list \<Rightarrow> bool" where
  "alternates ph [] = True"
| "alternates ph (Arrives t req # es) \<longleftrightarrow>
     (case ph t of Answered _ \<Rightarrow> True | _ \<Rightarrow> False) \<and> alternates (ph(t := Waiting req)) es"
| "alternates ph (Answers t req r # es) \<longleftrightarrow>
     (case ph t of Waiting req' \<Rightarrow> req' = req | _ \<Rightarrow> False) \<and> alternates (ph(t := Answered r)) es"

section \<open>The programs compute the operations\<close>

lemma execute_perform [simp]:
  "execute (perform m k) s w = (case m s w of
     (None, s', w') \<Rightarrow> (None, s', w') | (Some x, s', w') \<Rightarrow> execute (k x) s' w')"
  by (simp add: perform_def split: prod.splits option.splits)

lemma execute_pure [simp]:
  "execute (look f k1) s w = execute (k1 (f s)) s w"
  "execute (change g p) s w = execute p (g s) w"
  "execute (from_world h k2) s w = (case h w of (x, w') \<Rightarrow> execute (k2 x) s w')"
  by (simp_all add: look_def change_def from_world_def ret_def split: prod.splits)

lemma program_computes_body:
  "execute (begin_program d user) s w = (case do_enroll_begin d user s w of (r, x) \<Rightarrow> (map_option Begun r, x))"
  "execute (complete_program d creq) s w = (case do_enroll_complete d creq s w of (r, x) \<Rightarrow> (map_option Completed r, x))"
  "execute (issue_program d user) s w = (case do_issue_challenge d user s w of (r, x) \<Rightarrow> (map_option Issued r, x))"
  "execute (verify_program d vreq) s w = (case do_verify d vreq s w of (r, x) \<Rightarrow> (map_option Verified r, x))"
proof -
  show "execute (begin_program d user) s w = (case do_enroll_begin d user s w of (r, x) \<Rightarrow> (map_option Begun r, x))"
    by (simp add: begin_program_def do_enroll_begin_def Let_def and_then_def ret_def split: prod.splits option.splits)
  show "execute (complete_program d creq) s w = (case do_enroll_complete d creq s w of (r, x) \<Rightarrow> (map_option Completed r, x))"
    by (simp add: complete_program_def do_enroll_complete_def Let_def and_then_def ret_def
        split: prod.splits option.splits sum.splits)
  show "execute (issue_program d user) s w = (case do_issue_challenge d user s w of (r, x) \<Rightarrow> (map_option Issued r, x))"
    by (simp add: issue_program_def do_issue_challenge_def try_then_def Let_def and_then_def ret_def
        split: prod.splits option.splits sum.splits)
  show "execute (verify_program d vreq) s w = (case do_verify d vreq s w of (r, x) \<Rightarrow> (map_option Verified r, x))"
    by (simp add: verify_program_def do_verify_def totp_program_def challenge_program_def verify_totp_arm_def
        verify_challenge_arm_def try_then_def Let_def and_then_def ret_def
        split: prod.splits option.splits sum.splits verify_method.splits)
qed

lemma program_computes:
  assumes "\<not> poisoned srv"
  shows "serve d req srv w = (case execute (program_of d req) (inner srv) w of
    (r, s', w') \<Rightarrow> (r, \<lparr>inner = s', poisoned = (r = None)\<rparr>, w'))"
  using assms by (cases req) (auto simp: answer_def operation_defs with_lock_def program_computes_body split: prod.splits)


section \<open>Interleavings are sequences of requests\<close>

lemma answers_append [simp]: "answers (es @ es') = answers es @ answers es'"
  by (induction es rule: answers.induct) simp_all

lemma seen_append [simp]:
  "seen_phases ph (es @ es') = seen_phases (seen_phases ph es) es'"
  "alternates ph (es @ es') \<longleftrightarrow> alternates ph es \<and> alternates (seen_phases ph es) es'"
  by (induction ph es rule: seen_phases.induct) simp_all

text \<open>The answers of a log are those of a sequence of requests.\<close>

definition answered_as :: "('h, 'w) deps \<Rightarrow> pq_auth_server \<Rightarrow> 't event list \<Rightarrow> (request \<times> 'w) list \<Rightarrow> bool" where
  "answered_as d srv es rqs \<longleftrightarrow> map snd (answers es) = map (\<lambda>(req, w, r). (req, r)) (history d rqs srv)"

text \<open>
  What holds of a configuration and its log: the answers are those of a sequence of requests, in whose last
  state the mutex is free, or from whose last state the holder runs the rest of its operation; a thread is
  where its events put it, but for the holder, which is still waiting for a client.
\<close>

definition inside ::
  "('h, 'w) deps \<Rightarrow> pq_auth_server \<Rightarrow> ('t \<Rightarrow> 'w phase) \<Rightarrow> ('t, 'w) config \<Rightarrow> 't \<Rightarrow> bool" where
  "inside d srv ph c t \<longleftrightarrow> \<not> poison c \<and> \<not> poisoned srv \<and>
     (\<exists>req p w. phases c = ph(t := Running req p) \<and> ph t = Waiting req \<and>
        execute p (shared c) (world c) = execute (program_of d req) (inner srv) w)"

definition follows :: "('h, 'w) deps \<Rightarrow> ('t, 'w) config \<Rightarrow> ('t, 'w) config \<Rightarrow> 't event list \<Rightarrow> (request \<times> 'w) list \<Rightarrow> bool" where
  "follows d c0 c es rqs \<longleftrightarrow> answered_as d (server_of c0) es rqs \<and> alternates (phases c0) es \<and>
     quiet (seen_phases (phases c0) es) \<and>
     (case holder c of
        None \<Rightarrow> phases c = seen_phases (phases c0) es \<and> server_of c = serve_all d rqs (server_of c0)
      | Some t \<Rightarrow> inside d (serve_all d rqs (server_of c0)) (seen_phases (phases c0) es) c t)"

lemma quiet_simps [simp]:
  "quiet ph \<Longrightarrow> quiet (ph(t := Waiting req))" "quiet ph \<Longrightarrow> quiet (ph(t := Answered r))"
  "quiet ph \<Longrightarrow> ph t \<noteq> Running req p"
  by (simp_all add: quiet_def)

lemma insideI:
  "\<not> poison c \<Longrightarrow> \<not> poisoned srv \<Longrightarrow> phases c = ph(t := Running req p) \<Longrightarrow> ph t = Waiting req \<Longrightarrow>
     execute p (shared c) (world c) = execute (program_of d req) (inner srv) w \<Longrightarrow> inside d srv ph c t"
  unfolding inside_def by blast

lemma inside_other:
  "inside d srv ph c u \<Longrightarrow> u \<noteq> t \<Longrightarrow> inside d srv (ph(t := x)) (c\<lparr>phases := (phases c)(t := x)\<rparr>) u"
  unfolding inside_def by (elim conjE exE, rule insideI [unfolded inside_def]) (simp_all add: fun_upd_twist)

lemma inside_phase: "inside d srv ph c t \<Longrightarrow> \<exists>req p. phases c t = Running req p"
  by (auto simp: inside_def)

lemma server_of_frames [simp]:
  "server_of (c\<lparr>phases := ph\<rparr>) = server_of c"
  "server_of (c\<lparr>holder := ho\<rparr>) = server_of c"
  "server_of (c\<lparr>world := w\<rparr>) = server_of c"
  by (simp_all add: server_of_def)

lemma answered_as_snoc:
  "answered_as d srv es rqs \<Longrightarrow> r = fst (serve d req (serve_all d rqs srv) w) \<Longrightarrow>
     answered_as d srv (es @ [Answers t req r]) (rqs @ [(req, w)])"
  by (simp add: answered_as_def history_append)

lemma answered_as_arrives: "answered_as d srv (es @ [Arrives t req]) rqs \<longleftrightarrow> answered_as d srv es rqs"
  by (simp add: answered_as_def)

lemma step_follows:
  assumes "thread_step d c e c'" and "follows d c0 c es rqs"
  shows "\<exists>rqs'. follows d c0 c' (es @ (case e of None \<Rightarrow> [] | Some ev \<Rightarrow> [ev])) rqs'"
proof -
  let ?srv = "serve_all d rqs (server_of c0)" and ?ph = "seen_phases (phases c0) es"
  from assms(2) have ans: "answered_as d (server_of c0) es rqs" "alternates (phases c0) es" "quiet ?ph"
    and free: "holder c = None \<Longrightarrow> phases c = ?ph \<and> server_of c = ?srv"
    and held: "\<And>t. holder c = Some t \<Longrightarrow> inside d ?srv ?ph c t"
    by (simp_all add: follows_def)
  from assms(1) show ?thesis
  proof cases
    case (arrive t r req)
    have "follows d c0 c' (es @ [Arrives t req]) rqs"
    proof (cases "holder c")
      case None
      with free arrive ans show ?thesis by (simp add: follows_def answered_as_arrives)
    next
      case (Some u)
      with held have ins: "inside d ?srv ?ph c u" by blast
      with inside_phase [OF ins] arrive(3) have "u \<noteq> t" by auto
      moreover from ins this arrive(3) have "?ph t = Answered r" by (auto simp: inside_def)
      ultimately show ?thesis
        using Some ins ans arrive by (simp add: follows_def answered_as_arrives inside_other)
    qed
    with arrive(1) show ?thesis by auto
  next
    case (acquire t req)
    then have srv: "server_of c = ?srv" "phases c = ?ph" using free by simp_all
    then have "inner ?srv = shared c" "\<not> poisoned ?srv"
      using acquire(5) by (metis server_of_def pq_auth_server.select_convs)+
    with srv acquire have "inside d ?srv ?ph c' t"
      by (intro insideI [where w = "world c"]) simp_all
    then have "follows d c0 c' es rqs" using ans acquire by (simp add: follows_def)
    with acquire(1) show ?thesis by auto
  next
    case (refuse t req)
    then have srv: "server_of c = ?srv" "phases c = ?ph" using free by simp_all
    then have "poisoned ?srv" using refuse(5) by (metis server_of_def pq_auth_server.select_convs(2))
    then have "serve d req ?srv (world c) = (None, ?srv, world c)" "after d req ?srv (world c) = ?srv"
      by (simp_all add: serve_poisoned)
    with srv ans refuse have "follows d c0 c' (es @ [Answers t req None]) (rqs @ [(req, world c)])"
      by (simp add: follows_def serve_all_snoc answered_as_snoc)
    with refuse(1) show ?thesis by auto
  next
    case (act t req f k s' w')
    then obtain w where "phases c = ?ph(t := Running req (Action f k))" "?ph t = Waiting req" "\<not> poison c" "\<not> poisoned ?srv"
      "execute (Action f k) (shared c) (world c) = execute (program_of d req) (inner ?srv) w"
      using held by (auto simp: inside_def)
    with act have "inside d ?srv ?ph c' t" by (intro insideI) simp_all
    then have "follows d c0 c' es rqs" using ans act by (simp add: follows_def)
    with act(1) show ?thesis by auto
  next
    case (release t req r)
    with held obtain w where p: "phases c = ?ph(t := Running req (Reply r))" "?ph t = Waiting req" "\<not> poisoned ?srv"
      "execute (Reply r) (shared c) (world c) = execute (program_of d req) (inner ?srv) w"
      by (auto simp: inside_def)
    then have "serve d req ?srv w = (r, \<lparr>inner = shared c, poisoned = (r = None)\<rparr>, world c)"
      using program_computes [of ?srv d req w] by (simp add: p(4) [symmetric])
    with p(1,2) ans release have "follows d c0 c' (es @ [Answers t req r]) (rqs @ [(req, w)])"
      by (simp add: follows_def serve_all_snoc after_def server_of_def answered_as_snoc)
    with release(1) show ?thesis by auto
  next
    case (passing w')
    then have "follows d c0 c' es rqs" using ans free by (simp add: follows_def)
    with passing(1) show ?thesis by auto
  qed
qed

interpretation threads: transition_system "\<lambda>x. x = (c0, []) \<and> idle c0" "logged_step d"
  "\<lambda>(c, es). \<exists>rqs. follows d c0 c es rqs"
  for d :: "('h, 'w) deps" and c0 :: "('t, 'w) config"
proof (unfold_locales, goal_cases)
  case (1 x)
  then have "follows d c0 c0 [] []" by (simp add: follows_def answered_as_def idle_def)
  with 1 show ?case by auto
next
  case (2 x y)
  then show ?case by (cases x; cases y) (fastforce elim!: logged_stepE dest: step_follows)
qed

section \<open>Sequences of requests are interleavings\<close>

text \<open>
  The other direction, from which the witnesses are built: an operation runs to its answer, a waiting
  thread before a free mutex gets the answer of \<open>serve\<close>, and one thread alone produces any sequence of
  requests.
\<close>

lemma silently: "thread_step d c None c' \<Longrightarrow> (logged_step d)\<^sup>*\<^sup>* (c', es) x \<Longrightarrow> (logged_step d)\<^sup>*\<^sup>* (c, es) x"
  by (meson converse_rtranclp_into_rtranclp logged_step.silent)

lemma runs_out:
  assumes "phases c t = Running req p" and "holder c = Some t"
    and "execute p (shared c) (world c) = (r, s', w')"
  shows "(logged_step d)\<^sup>*\<^sup>* (c, es) (c\<lparr>shared := s', world := w', holder := None, poison := (r = None),
    phases := (phases c)(t := Answered r)\<rparr>, es @ [Answers t req r])"
  using assms
proof (induction p arbitrary: c)
  case (Reply r0)
  then have final: "r0 = r" "s' = shared c" "w' = world c" by simp_all
  from logged_step.seen [OF thread_step.release [OF Reply.prems(1,2), of d], of es] show ?case
    unfolding final by (intro r_into_rtranclp) (simp add: fun_upd_def)
next
  case (Action f k)
  obtain s1 w1 where f: "f (shared c) (world c) = (s1, w1)" by fastforce
  let ?c = "c\<lparr>shared := s1, world := w1, phases := (phases c)(t := Running req (k (shared c) (world c)))\<rparr>"
  have step: "thread_step d c None ?c" using Action.prems(1,2) f by (rule thread_step.act)
  have "(logged_step d)\<^sup>*\<^sup>* (?c, es) (?c\<lparr>shared := s', world := w', holder := None, poison := (r = None),
      phases := (phases ?c)(t := Answered r)\<rparr>, es @ [Answers t req r])"
    using Action.prems(2,3) f by (intro Action.IH [OF rangeI [of k "shared c"] rangeI [of "k (shared c)" "world c"]]) simp_all
  moreover have "?c\<lparr>shared := s', world := w', holder := None, poison := (r = None),
      phases := (phases ?c)(t := Answered r)\<rparr> = c\<lparr>shared := s', world := w', holder := None, poison := (r = None),
      phases := (phases c)(t := Answered r)\<rparr>" by simp
  ultimately show ?case using silently [OF step, of es] by metis
qed

lemma gets_answer:
  assumes "holder c = None" and "phases c t = Waiting req" and "serve d req (server_of c) w = (r, srv', w')"
  obtains c' where "(logged_step d)\<^sup>*\<^sup>* (c, es) (c', es @ [Answers t req r])" and "holder c' = None"
    and "server_of c' = srv'" and "phases c' = (phases c)(t := Answered r)"
proof (cases "poison c")
  case True
  with assms(3) have "r = None" "srv' = server_of c" by (simp_all add: serve_poisoned server_of_def)
  moreover have "(logged_step d)\<^sup>*\<^sup>* (c, es) (c\<lparr>phases := (phases c)(t := Answered None)\<rparr>, es @ [Answers t req None])"
    by (rule r_into_rtranclp, rule logged_step.seen, rule thread_step.refuse) (use assms(1,2) True in simp_all)
  ultimately show thesis using assms(1) by (intro that [of "c\<lparr>phases := (phases c)(t := Answered None)\<rparr>"]) simp_all
next
  case False
  let ?c0 = "c\<lparr>world := w\<rparr>"
  let ?c1 = "?c0\<lparr>holder := Some t, phases := (phases c)(t := Running req (program_of d req))\<rparr>"
  obtain s' where s': "execute (program_of d req) (shared c) w = (r, s', w')"
    and srv': "srv' = \<lparr>inner = s', poisoned = (r = None)\<rparr>"
    using program_computes [of "server_of c" d req w] assms(3) False
    by (auto simp: server_of_def split: prod.splits)
  have "thread_step d c None ?c0" using assms(1) by (rule thread_step.passing)
  moreover have "thread_step d ?c0 None ?c1"
    using thread_step.acquire [of ?c0 t req d] assms(1,2) False by simp
  moreover have "(logged_step d)\<^sup>*\<^sup>* (?c1, es) (?c1\<lparr>shared := s', world := w', holder := None, poison := (r = None),
      phases := (phases ?c1)(t := Answered r)\<rparr>, es @ [Answers t req r])"
    by (rule runs_out [of ?c1 t req "program_of d req"]) (simp_all add: s')
  ultimately have "(logged_step d)\<^sup>*\<^sup>* (c, es) (?c1\<lparr>shared := s', world := w', holder := None, poison := (r = None),
      phases := (phases ?c1)(t := Answered r)\<rparr>, es @ [Answers t req r])"
    by (blast intro: silently)
  then show thesis by (rule that) (simp_all add: server_of_def srv')
qed

lemma asks: "phases c t = Answered r \<Longrightarrow>
  logged_step d (c, es) (c\<lparr>phases := (phases c)(t := Waiting req)\<rparr>, es @ [Arrives t req])"
  by (rule logged_step.seen) (rule thread_step.arrive)

lemma served_alone:
  assumes "holder c = None" and "phases c t = Answered r0"
  obtains c' es' r' where "(logged_step d)\<^sup>*\<^sup>* (c, es) (c', es @ es')" and "holder c' = None"
    and "server_of c' = serve_all d rqs (server_of c)" and "phases c' = (phases c)(t := Answered r')"
    and "map snd (answers es') = map (\<lambda>(req, w, r). (req, r)) (history d rqs (server_of c))"
  using assms
proof (induction rqs arbitrary: c es r0 thesis)
  case Nil
  show thesis by (rule Nil(1) [of c "[]" r0]) (use Nil in auto)
next
  case (Cons rq rqs)
  obtain req w where rq: "rq = (req, w)" by (cases rq)
  let ?c = "c\<lparr>phases := (phases c)(t := Waiting req)\<rparr>"
  obtain r srv' w' where s: "serve d req (server_of ?c) w = (r, srv', w')" by (metis prod_cases3)
  have "holder ?c = None" "phases ?c t = Waiting req" using Cons.prems(2) by simp_all
  from gets_answer [OF this s, of "es @ [Arrives t req]"] obtain c1 where
    c1: "(logged_step d)\<^sup>*\<^sup>* (?c, es @ [Arrives t req]) (c1, (es @ [Arrives t req]) @ [Answers t req r])"
    "holder c1 = None" "server_of c1 = srv'" "phases c1 = (phases ?c)(t := Answered r)" .
  have "phases c1 t = Answered r" using c1(4) by simp
  from Cons.IH [OF _ c1(2) this, of "(es @ [Arrives t req]) @ [Answers t req r]"] obtain c' es' r' where
    c': "(logged_step d)\<^sup>*\<^sup>* (c1, (es @ [Arrives t req]) @ [Answers t req r]) (c', ((es @ [Arrives t req]) @ [Answers t req r]) @ es')"
    "holder c' = None" "server_of c' = serve_all d rqs (server_of c1)" "phases c' = (phases c1)(t := Answered r')"
    "map snd (answers es') = map (\<lambda>(req, w, r). (req, r)) (history d rqs (server_of c1))" by blast
  have "(logged_step d)\<^sup>*\<^sup>* (c, es) (c', es @ [Arrives t req, Answers t req r] @ es')"
    using rtranclp_trans [OF c1(1) c'(1)] asks [OF Cons.prems(3), of d es req]
    by (simp add: converse_rtranclp_into_rtranclp [of "logged_step d" "(c, es)"])
  then show thesis
    by (rule Cons.prems(1)) (use c' c1 s in \<open>simp_all add: rq after_def del: serve.simps\<close>)
qed

lemma answers_counted:
  assumes "map snd (answers es) = map (\<lambda>(req, w, r). (req, r)) (history d rqs srv)"
  shows "length (filter (\<lambda>(t, req, r). P req r) (answers es)) = count_replies P d rqs srv"
proof -
  have "filter (\<lambda>(req, r). P req r) (map snd (answers es)) =
      filter (\<lambda>(req, r). P req r) (map (\<lambda>(req, w, r). (req, r)) (history d rqs srv))"
    by (simp only: assms)
  then show ?thesis
    unfolding count_replies_history filter_map comp_def by (auto dest: arg_cong [where f = length] simp: case_prod_unfold)
qed

text \<open>Two threads that each take a request before either is served.\<close>

lemma race:
  assumes "holder c = None" and "phases c t = Answered r0" and "phases c u = Answered r0'" and "t \<noteq> u"
    and "serve d req (server_of c) w = (r1, srv1, w1)"
  obtains c' r2 where "(logged_step d)\<^sup>*\<^sup>* (c, es)
    (c', es @ [Arrives t req, Arrives u req, Answers t req r1, Answers u req r2])"
proof -
  let ?c1 = "c\<lparr>phases := (phases c)(t := Waiting req)\<rparr>"
  let ?c2 = "?c1\<lparr>phases := (phases ?c1)(u := Waiting req)\<rparr>"
  have arrive: "logged_step d (c, es) (?c1, es @ [Arrives t req])" by (rule asks) (rule assms)
  have arrive': "logged_step d (?c1, es @ [Arrives t req]) (?c2, (es @ [Arrives t req]) @ [Arrives u req])"
    by (rule asks [of ?c1 u r0']) (use assms(3,4) in simp)
  have "holder ?c2 = None" "phases ?c2 t = Waiting req" "serve d req (server_of ?c2) w = (r1, srv1, w1)"
    using assms by simp_all
  from gets_answer [OF this, of "(es @ [Arrives t req]) @ [Arrives u req]"] obtain c3 where
    c3: "(logged_step d)\<^sup>*\<^sup>* (?c2, (es @ [Arrives t req]) @ [Arrives u req])
      (c3, ((es @ [Arrives t req]) @ [Arrives u req]) @ [Answers t req r1])"
    "holder c3 = None" "phases c3 = (phases ?c2)(t := Answered r1)" .
  obtain r2 srv2 w2 where "serve d req (server_of c3) w1 = (r2, srv2, w2)" by (metis prod_cases3)
  moreover have "phases c3 u = Waiting req" using c3(3) assms(4) by simp
  ultimately obtain c4 where
    c4: "(logged_step d)\<^sup>*\<^sup>* (c3, ((es @ [Arrives t req]) @ [Arrives u req]) @ [Answers t req r1])
      (c4, (((es @ [Arrives t req]) @ [Arrives u req]) @ [Answers t req r1]) @ [Answers u req r2])"
    using gets_answer [OF c3(2)] by metis
  have "(logged_step d)\<^sup>*\<^sup>* (c, es) (c4, (((es @ [Arrives t req]) @ [Arrives u req]) @ [Answers t req r1]) @ [Answers u req r2])"
    by (rule converse_rtranclp_into_rtranclp [of "logged_step d", OF arrive], rule converse_rtranclp_into_rtranclp [of "logged_step d", OF arrive'],
        rule rtranclp_trans [OF c3(1) c4])
  then show thesis by (intro that [of c4 r2]) simp
qed

text \<open>
  Two threads on a new server. The first enrolls a user and gets a challenge; then both hold an answer to it
  and send it before either is served.
\<close>

definition newcomers :: "(bool, toy_world) config" where
  "newcomers = \<lparr>shared = inner (server_new ''s''), poison = False, holder = None,
     phases = (\<lambda>_. Answered None), world = (1000, 0)\<rparr>"

lemma newcomers_start: "idle newcomers" "server_of newcomers = server_new ''s''"
  by (simp_all add: idle_def quiet_def newcomers_def server_of_def pq_auth_server.equality server_new_def)

lemma challenge_race:
  obtains c es r1 r2 where "(logged_step (still Debug 1000))\<^sup>*\<^sup>* (newcomers, [])
      (c, es @ [Arrives True bob_answers, Arrives False bob_answers, Answers True bob_answers r1, Answers False bob_answers r2])"
    and "length (filter (\<lambda>(t, req, r). issues ''bob'' req r) (answers es)) = 1" and "judges ''bob'' bob_answers r1"
proof -
  let ?d = "still Debug 1000"
  obtain rqs where one: "count_replies (issues ''bob'') ?d rqs (server_new ''s'') = 1"
    and judged: "judges ''bob'' bob_answers (fst (serve ?d bob_answers (serve_all ?d rqs (server_new ''s'')) (0, 8)))"
    by (rule bob_is_challenged)
  have start: "holder newcomers = None" "phases newcomers t = Answered None" for t by (simp_all add: newcomers_def)
  from served_alone [OF start, where t = True and d = ?d and rqs = rqs and es = "[]"] obtain c es r where
    c: "(logged_step ?d)\<^sup>*\<^sup>* (newcomers, []) (c, es)" "holder c = None"
    "server_of c = serve_all ?d rqs (server_new ''s'')" "phases c = (phases newcomers)(True := Answered r)"
    "map snd (answers es) = map (\<lambda>(req, w, r). (req, r)) (history ?d rqs (server_new ''s''))"
    unfolding newcomers_start(2) append_Nil by blast
  have both: "phases c True = Answered r" "phases c False = Answered None" using c(4) start(2) by simp_all
  obtain r1 srv1 w1 where s: "serve ?d bob_answers (server_of c) (0, 8) = (r1, srv1, w1)" by (metis prod_cases3)
  obtain c' r2 where "(logged_step ?d)\<^sup>*\<^sup>* (c, es)
      (c', es @ [Arrives True bob_answers, Arrives False bob_answers, Answers True bob_answers r1, Answers False bob_answers r2])"
    using race [OF c(2) both _ s] by blast
  from rtranclp_trans [OF c(1) this] show thesis
    by (rule that) (use judged s one answers_counted [OF c(5), of "issues ''bob''"] in \<open>simp_all add: c(3)\<close>)
qed

section \<open>Properties\<close>

text \<open>C8. Concurrent requests are linearizable. Let any number of threads take any number of requests, on a
  mutex that is free at first, and run in any interleaving of their actions. At every moment the answers
  given so far are, in the order in which they were given, the answers of serving those requests one at a
  time; when the mutex is free, the shared state with its poison flag is the one that leaves. Each thread
  alternates between a request and its answer, so a request that arrives after another was answered is
  also served after it.\<close>

theorem linearizable:
  assumes "idle c0" and "(logged_step d)\<^sup>*\<^sup>* (c0, []) (c, es)"
  shows "alternates (phases c0) es \<and>
    (\<exists>rqs. map snd (answers es) = map (\<lambda>(req, w, r). (req, r)) (history d rqs (server_of c0)) \<and>
       (holder c = None \<longrightarrow> server_of c = serve_all d rqs (server_of c0)))"
proof -
  obtain rqs where "follows d c0 c es rqs" using threads.reachable_inv [OF _ assms(2)] assms(1) by auto
  then show ?thesis unfolding follows_def answered_as_def by (auto split: option.splits)
qed

theorem linearizable_witness:
  "\<exists>es r1 r2 rqs. judges ''bob'' bob_answers r1 \<and> alternates (phases newcomers)
       (es @ [Arrives True bob_answers, Arrives False bob_answers, Answers True bob_answers r1, Answers False bob_answers r2]) \<and>
     map snd (answers es) @ [(bob_answers, r1), (bob_answers, r2)] =
       map (\<lambda>(req, w, r). (req, r)) (history (still Debug 1000) rqs (server_new ''s''))"
proof -
  obtain c es r1 r2 where run: "(logged_step (still Debug 1000))\<^sup>*\<^sup>* (newcomers, [])
      (c, es @ [Arrives True bob_answers, Arrives False bob_answers, Answers True bob_answers r1, Answers False bob_answers r2])"
    and "judges ''bob'' bob_answers r1" by (rule challenge_race)
  with linearizable [OF newcomers_start(1) run] show ?thesis
    unfolding newcomers_start(2) by fastforce
qed

text \<open>C9. A challenge is answered at most once, however many requests race for it. In every concurrent run on
  a new server, and at every moment of it, the judged challenge answers of a user are at most the challenges
  that the answers so far issued to that user: of two threads that hold a response to one challenge, at most
  one is judged.\<close>

theorem challenges_single_use_concurrent:
  assumes "idle c0" and "server_of c0 = server_new sid" and "(logged_step d)\<^sup>*\<^sup>* (c0, []) (c, es)"
  shows "length (filter (\<lambda>(t, req, r). judges u req r) (answers es)) \<le>
    length (filter (\<lambda>(t, req, r). issues u req r) (answers es))"
proof -
  obtain rqs where "follows d c0 c es rqs" using threads.reachable_inv [OF _ assms(3)] assms(1) by auto
  then have "map snd (answers es) = map (\<lambda>(req, w, r). (req, r)) (history d rqs (server_new sid))"
    using assms(2) by (simp add: follows_def answered_as_def)
  from answers_counted [OF this] show ?thesis using judged_at_most_issued [of u d rqs "server_new sid"]
    by (simp add: waiting_def server_new_def inner_new_def)
qed

theorem challenges_single_use_concurrent_witness:
  "\<exists>c es r1 r2. (logged_step (still Debug 1000))\<^sup>*\<^sup>* (newcomers, [])
       (c, es @ [Arrives True bob_answers, Arrives False bob_answers, Answers True bob_answers r1, Answers False bob_answers r2]) \<and>
     length (filter (\<lambda>(t, req, r). issues ''bob'' req r) (answers es)) = 1 \<and>
     judges ''bob'' bob_answers r1 \<and> \<not> judges ''bob'' bob_answers r2"
proof -
  obtain c es r1 r2 where run: "(logged_step (still Debug 1000))\<^sup>*\<^sup>* (newcomers, [])
      (c, es @ [Arrives True bob_answers, Arrives False bob_answers, Answers True bob_answers r1, Answers False bob_answers r2])"
    and one: "length (filter (\<lambda>(t, req, r). issues ''bob'' req r) (answers es)) = 1"
    and first: "judges ''bob'' bob_answers r1" by (rule challenge_race)
  have "\<not> issues ''bob'' bob_answers r" for r by (simp add: bob_answers_def)
  then have "\<not> judges ''bob'' bob_answers r2"
    using challenges_single_use_concurrent [OF newcomers_start run, of "''bob''"] one first by auto
  with run one first show ?thesis by blast
qed

end
