(* ===== verification/LibraryTests.thy ===== *)
theory LibraryTests
  imports Serde PqTotp
begin

text \<open>
  The unit tests of the library modules of \<open>src/\<close>, as programs over the model: a failed assertion, an
  \<open>unwrap\<close> of an error and a panic all end a test with \<open>None\<close>. Running them says that they pass on one
  machine with one draw of randomness; here they are shown to pass for every behaviour of the crates
  that their laws allow and every state of the world. Tests that assert that two random or hashed values
  differ hold only with overwhelming probability; they are in ChanceTests.
\<close>

definition passes :: "(unit, 'w) io \<Rightarrow> bool" where
  "passes t \<longleftrightarrow> (\<forall>w. \<exists>w'. t w = (Some (), w'))"

lemma passes_wp: "(\<And>w. wp t (\<lambda>_ _. True) w) \<Longrightarrow> passes t"
  by (auto simp: passes_def wp_result)

section \<open>src/shake_mac.rs\<close>

definition test_mac_deterministic :: "'h sha3_crate \<Rightarrow> (unit, 'w) io" where
  "test_mac_deterministic s =
     (let key = as_bytes ''test-key-256-bits-long-enough!!!'';
          msg = as_bytes ''hello world'';
          mac1 = shake256_mac s key msg 32;
          mac2 = shake256_mac s key msg 32
      in io_assert (mac1 = mac2))"

definition test_verify_mac_valid :: "'h sha3_crate \<Rightarrow> (unit, 'w) io" where
  "test_verify_mac_valid s =
     (let mac = shake_mac_new (as_bytes ''secret'');
          tag = shake_mac_mac s mac (as_bytes ''data'')
      in io_assert (shake_mac_verify s mac (as_bytes ''data'') tag))"

definition test_constant_time_comparison :: "(unit, 'w) io" where
  "test_constant_time_comparison =
     io_then (io_assert (verify_mac [1, 2, 3] [1, 2, 3])) (\<lambda>_.
     io_then (io_assert (\<not> verify_mac [1, 2, 3] [1, 2, 4])) (\<lambda>_.
     io_assert (\<not> verify_mac [1, 2] [1, 2, 3])))"

definition test_variable_output_length :: "'h sha3_crate \<Rightarrow> (unit, 'w) io" where
  "test_variable_output_length s =
     (let key = as_bytes ''key'';
          msg = as_bytes ''msg'';
          short = shake256_mac s key msg 16;
          long = shake256_mac s key msg 64
      in io_then (io_assert (length short = 16)) (\<lambda>_.
         io_then (io_assert (length long = 64)) (\<lambda>_.
         io_assert (short = take 16 long))))"

section \<open>src/pq\_totp.rs\<close>

definition TEST_SECRET :: bytes where
  "TEST_SECRET = as_bytes ''12345678901234567890123456789012''"

definition test_generate_deterministic :: "'h sha3_crate \<Rightarrow> (unit, 'w) io" where
  "test_generate_deterministic s =
     io_then (io_value (generate s TEST_SECRET 1000000)) (\<lambda>code1.
     io_then (io_value (generate s TEST_SECRET 1000000)) (\<lambda>code2.
     io_assert (code1 = code2)))"

definition test_same_window_same_code :: "'h sha3_crate \<Rightarrow> (unit, 'w) io" where
  "test_same_window_same_code s =
     io_then (io_value (generate s TEST_SECRET 1000000)) (\<lambda>code1.
     io_then (io_value (generate s TEST_SECRET 1000010)) (\<lambda>code2.
     io_assert (code1 = code2)))"

definition test_code_range :: "'h sha3_crate \<Rightarrow> (unit, 'w) io" where
  "test_code_range s =
     io_each (\<lambda>ts. io_then (io_value (generate s TEST_SECRET ts)) (\<lambda>code. io_assert (code < MODULUS)))
       (map (\<lambda>i. word_of_nat i * 30) [0..<100])"

definition test_verify_current :: "profile \<Rightarrow> 'h sha3_crate \<Rightarrow> (unit, 'w) io" where
  "test_verify_current pf s =
     (let ts = 1000000 in
      io_then (io_value (generate s TEST_SECRET ts)) (\<lambda>code.
      io_then (io_value (verify pf s TEST_SECRET code ts 1)) io_assert))"

definition test_verify_within_window :: "profile \<Rightarrow> 'h sha3_crate \<Rightarrow> (unit, 'w) io" where
  "test_verify_within_window pf s =
     (let ts = 1000000 in
      io_then (io_value (generate s TEST_SECRET ts)) (\<lambda>code.
      io_then (io_value (verify pf s TEST_SECRET code (ts + 30) 1)) (\<lambda>ok.
      io_then (io_assert ok) (\<lambda>_.
      io_then (io_value (verify pf s TEST_SECRET code (ts - 30) 1)) io_assert))))"

definition test_format_code :: "(unit, 'w) io" where
  "test_format_code =
     io_then (io_assert (format_code 1234 = ''00001234'')) (\<lambda>_.
     io_then (io_assert (format_code 12345678 = ''12345678'')) (\<lambda>_.
     io_assert (format_code 0 = ''00000000'')))"

definition test_seconds_remaining :: "profile \<Rightarrow> (unit, 'w) io" where
  "test_seconds_remaining pf =
     io_then (io_value (seconds_remaining pf 0)) (\<lambda>a. io_then (io_assert (a = 30)) (\<lambda>_.
     io_then (io_value (seconds_remaining pf 1)) (\<lambda>b. io_then (io_assert (b = 29)) (\<lambda>_.
     io_then (io_value (seconds_remaining pf 29)) (\<lambda>c. io_then (io_assert (c = 1)) (\<lambda>_.
     io_then (io_value (seconds_remaining pf 30)) (\<lambda>e. io_assert (e = 30))))))))"

section \<open>src/dilithium.rs\<close>

definition test_keypair_generation :: "'w dilithium3_crate \<Rightarrow> (unit, 'w) io" where
  "test_keypair_generation d =
     io_then (io_lift (keypair_generate d)) (\<lambda>kp.
     io_then (io_assert (length (public_key kp) = DILITHIUM_PUBLIC_KEY)) (\<lambda>_.
     io_assert (length (secret_key kp) = DILITHIUM_SECRET_KEY)))"

definition test_sign_verify :: "'w dilithium3_crate \<Rightarrow> (unit, 'w) io" where
  "test_sign_verify d =
     io_then (io_lift (keypair_generate d)) (\<lambda>kp.
     let msg = as_bytes ''authenticate me'' in
     io_then (io_unwrap (keypair_sign d kp msg)) (\<lambda>sig.
     io_then (io_assert (length sig = DILITHIUM_SIGNATURE)) (\<lambda>_.
     io_assert (is_ok (keypair_verify d kp msg sig)))))"

definition test_deterministic_verification :: "'w dilithium3_crate \<Rightarrow> (unit, 'w) io" where
  "test_deterministic_verification d =
     io_then (io_lift (keypair_generate d)) (\<lambda>kp.
     let msg = as_bytes ''test'' in
     io_then (io_unwrap (keypair_sign d kp msg)) (\<lambda>sig.
     io_loop 10 (io_assert (is_ok (keypair_verify d kp msg sig))) ()))"

section \<open>src/kyber.rs\<close>

definition test_keypair_sizes :: "'w kyber768_crate \<Rightarrow> (unit, 'w) io" where
  "test_keypair_sizes k =
     io_then (io_lift (kyber_generate k)) (\<lambda>kp.
     io_then (io_assert (length (kyber_public kp) = KYBER_PUBLIC_KEY)) (\<lambda>_.
     io_assert (length (kyber_secret kp) = KYBER_SECRET_KEY)))"

definition test_encapsulate_decapsulate :: "'w kyber768_crate \<Rightarrow> (unit, 'w) io" where
  "test_encapsulate_decapsulate k =
     io_then (io_lift (kyber_generate k)) (\<lambda>kp.
     io_then (io_unwrap (encapsulate k (kyber_public kp))) (\<lambda>enc.
     io_then (io_assert (length (enc_ciphertext enc) = KYBER_CIPHERTEXT)) (\<lambda>_.
     io_then (io_assert (length (enc_shared_secret enc) = KYBER_SHARED_SECRET)) (\<lambda>_.
     io_then (io_result (decapsulate k kp (enc_ciphertext enc))) (\<lambda>recovered.
     io_assert (enc_shared_secret enc = recovered))))))"

definition test_invalid_public_key :: "'w kyber768_crate \<Rightarrow> (unit, 'w) io" where
  "test_invalid_public_key k =
     io_then (io_lift (encapsulate k (replicate 10 0))) (\<lambda>result. io_assert (\<not> is_ok result))"

definition test_invalid_ciphertext :: "'w kyber768_crate \<Rightarrow> (unit, 'w) io" where
  "test_invalid_ciphertext k =
     io_then (io_lift (kyber_generate k)) (\<lambda>kp. io_assert (\<not> is_ok (decapsulate k kp (replicate 10 0))))"

text \<open>\<open>from_bytes\<close> of the crate refuses byte strings of another length.\<close>

definition kyber768_lengths :: "'w kyber768_crate \<Rightarrow> bool" where
  "kyber768_lengths k \<longleftrightarrow> (\<forall>b. (k768_pk_from k b \<noteq> None \<longrightarrow> length b = 1184) \<and> (k768_ct_from k b \<noteq> None \<longrightarrow> length b = 1088))"

section \<open>src/hybrid.rs\<close>

definition test_hybrid_keygen :: "'w ed25519_crate \<Rightarrow> 'w dilithium3_crate \<Rightarrow> (unit, 'w) io" where
  "test_hybrid_keygen e d =
     io_then (io_lift (hybrid_generate e d)) (\<lambda>kp.
     io_then (io_assert (length (ed25519_public kp) = 32)) (\<lambda>_.
     io_then (io_assert (length (ed25519_secret kp) = 32)) (\<lambda>_.
     io_then (io_assert (length (dilithium_public kp) = DILITHIUM_PUBLIC_KEY)) (\<lambda>_.
     io_assert (length (dilithium_secret kp) = DILITHIUM_SECRET_KEY)))))"

definition test_hybrid_sign_verify :: "'w ed25519_crate \<Rightarrow> 'w dilithium3_crate \<Rightarrow> (unit, 'w) io" where
  "test_hybrid_sign_verify e d =
     io_then (io_lift (hybrid_generate e d)) (\<lambda>kp.
     let msg = as_bytes ''hybrid authentication test'' in
     io_then (io_unwrap (hybrid_sign e d kp msg)) (\<lambda>sig.
     io_then (io_assert (length sig = HYBRID_SIG_SIZE)) (\<lambda>_.
     io_assert (is_ok (hybrid_verify e d kp msg sig)))))"

definition test_hybrid_truncated_sig :: "'w ed25519_crate \<Rightarrow> 'w dilithium3_crate \<Rightarrow> (unit, 'w) io" where
  "test_hybrid_truncated_sig e d =
     io_then (io_lift (hybrid_generate e d)) (\<lambda>kp.
     io_then (io_unwrap (hybrid_sign e d kp (as_bytes ''msg''))) (\<lambda>sig.
     io_assert (\<not> is_ok (hybrid_verify e d kp (as_bytes ''msg'') (take (length sig - 1) sig)))))"

definition test_hybrid_public_key_extraction :: "'w ed25519_crate \<Rightarrow> 'w dilithium3_crate \<Rightarrow> (unit, 'w) io" where
  "test_hybrid_public_key_extraction e d =
     io_then (io_lift (hybrid_generate e d)) (\<lambda>kp.
     let pk = hybrid_public kp in
     io_then (io_assert (hpk_ed25519 pk = ed25519_public kp)) (\<lambda>_.
     io_assert (hpk_dilithium pk = dilithium_public kp)))"

section \<open>src/recovery.rs\<close>

text \<open>\<open>str::split\<close> at a character; the model's \<open>generate_code\<close> can panic by its type only.\<close>

fun split_at :: "char \<Rightarrow> string \<Rightarrow> string list" where
  "split_at sep [] = [[]]"
| "split_at sep (c # cs) =
     (if c = sep then [] # split_at sep cs
      else case split_at sep cs of [] \<Rightarrow> [[c]] | p # ps \<Rightarrow> (c # p) # ps)"

definition test_code_format :: "'w rand_crate \<Rightarrow> (unit, 'w) io" where
  "test_code_format r =
     io_then (generate_code r) (\<lambda>c.
     let parts = split_at (CHR ''-'') (code c) in
     io_then (io_assert (length parts = GROUPS)) (\<lambda>_.
     io_each (\<lambda>part.
       io_then (io_assert (length part = GROUP_LEN)) (\<lambda>_.
       io_assert (list_all (\<lambda>ch. ch \<in> set ALPHABET) part))) parts))"

definition test_hash_deterministic :: "'h sha3_crate \<Rightarrow> hex_crate \<Rightarrow> (string \<Rightarrow> string) \<Rightarrow> (unit, 'w) io" where
  "test_hash_deterministic s x uni =
     (let h1 = hash_code s x uni ''A3F7-K9M2-P1X4-Q8R6-B2C5-D7E1-G4H8-J6N0'';
          h2 = hash_code s x uni ''A3F7-K9M2-P1X4-Q8R6-B2C5-D7E1-G4H8-J6N0''
      in io_assert (hash h1 = hash h2))"

definition test_hash_normalization :: "'h sha3_crate \<Rightarrow> hex_crate \<Rightarrow> (string \<Rightarrow> string) \<Rightarrow> (unit, 'w) io" where
  "test_hash_normalization s x uni =
     (let h1 = hash_code s x uni ''A3F7-K9M2'';
          h2 = hash_code s x uni ''A3F7K9M2''
      in io_assert (hash h1 = hash h2))"

definition recovery_test_serialization ::
  "'h sha3_crate \<Rightarrow> hex_crate \<Rightarrow> (string \<Rightarrow> string) \<Rightarrow> 'w rand_crate \<Rightarrow> 'j json_crate \<Rightarrow> (unit, 'w) io" where
  "recovery_test_serialization s x uni r j =
     io_then (generate_codes r 3) (\<lambda>cs.
     let rs = from_codes s x uni cs in
     io_then (io_result (to_json j (code_set_json rs))) (\<lambda>json.
     io_then (io_value (from_str j code_set_of_json json)) (\<lambda>deserialized.
     io_then (io_assert (length (codes deserialized) = 3)) (\<lambda>_.
     io_then (io_assert (remaining deserialized = 3)) (\<lambda>_.
     io_then (io_value (index cs 1)) (\<lambda>c.
     io_assert (verify_code s x uni (code c) (codes deserialized) \<noteq> None)))))))"

definition test_entropy :: "'w rand_crate \<Rightarrow> (unit, 'w) io" where
  "test_entropy r =
     io_then (generate_code r) (\<lambda>c.
     let chars = filter (\<lambda>ch. ch \<noteq> CHR ''-'') (code c) in
     io_assert (length chars = GROUPS * GROUP_LEN))"

section \<open>src/keystore.rs\<close>

definition test_encrypt_decrypt_roundtrip ::
  "'p argon2_crate \<Rightarrow> 'c aes_gcm_crate \<Rightarrow> hex_crate \<Rightarrow> 'w rand_crate \<Rightarrow> (unit, 'w) io" where
  "test_encrypt_decrypt_roundtrip a g x r =
     (let secret = as_bytes ''this is a secret dilithium key!!'';
          password = as_bytes ''hunter2''
      in io_then (io_expect (encrypt a g x r secret password ''dilithium3'')) (\<lambda>keystore.
         io_then (io_assert (ks_version keystore = 1)) (\<lambda>_.
         io_then (io_assert (ks_key_type keystore = ''dilithium3'')) (\<lambda>_.
         io_then (io_expect (io_value (decrypt a g x keystore password))) (\<lambda>recovered.
         io_assert (recovered = secret))))))"

definition test_large_key_material ::
  "'p argon2_crate \<Rightarrow> 'c aes_gcm_crate \<Rightarrow> hex_crate \<Rightarrow> 'w rand_crate \<Rightarrow> (unit, 'w) io" where
  "test_large_key_material a g x r =
     (let key = replicate 4032 42;
          password = as_bytes ''strong-password-123!''
      in io_then (io_expect (encrypt a g x r key password ''dilithium3'')) (\<lambda>keystore.
         io_then (io_expect (io_value (decrypt a g x keystore password))) (\<lambda>recovered.
         io_assert (recovered = key))))"

definition keystore_test_serialization ::
  "'p argon2_crate \<Rightarrow> 'c aes_gcm_crate \<Rightarrow> hex_crate \<Rightarrow> 'w rand_crate \<Rightarrow> 'j json_crate \<Rightarrow> (unit, 'w) io" where
  "keystore_test_serialization a g x r j =
     (let secret = as_bytes ''test'' in
      io_then (io_expect (encrypt a g x r secret (as_bytes ''pass'') ''test'')) (\<lambda>keystore.
      io_then (io_result (to_json j (keystore_json keystore))) (\<lambda>json.
      io_then (io_value (from_str j keystore_of_json json)) (\<lambda>deserialized.
      io_then (io_expect (io_value (decrypt a g x deserialized (as_bytes ''pass'')))) (\<lambda>plain.
      io_assert (plain = secret))))))"

definition test_invalid_version ::
  "'p argon2_crate \<Rightarrow> 'c aes_gcm_crate \<Rightarrow> hex_crate \<Rightarrow> 'w rand_crate \<Rightarrow> (unit, 'w) io" where
  "test_invalid_version a g x r =
     io_then (io_expect (encrypt a g x r (as_bytes ''test'') (as_bytes ''pass'') ''test'')) (\<lambda>keystore.
     let keystore = keystore\<lparr>ks_version := 99\<rparr> in
     io_then (io_value (decrypt a g x keystore (as_bytes ''pass''))) (\<lambda>result.
     io_assert (result = Inl InvalidFormat)))"

text \<open>
  What the crates promise about success: Argon2id accepts the constants of the module and hashes every
  password with a salt of 8 bytes or more, AES-GCM encrypts every message of less than 64 GiB.
\<close>

definition argon2_law :: "'p argon2_crate \<Rightarrow> bool" where
  "argon2_law a \<longleftrightarrow> (\<exists>p. argon2_params a ARGON2_M_COST ARGON2_T_COST ARGON2_P_COST (Some 32) = Inr p \<and>
     (\<forall>pw salt. 8 \<le> length salt \<longrightarrow> length pw < 2 ^ 32 \<longrightarrow> (\<exists>f. argon2_hash a p pw salt = Inr f)))"

definition aes_gcm_capacity :: "'c aes_gcm_crate \<Rightarrow> bool" where
  "aes_gcm_capacity g \<longleftrightarrow>
     (\<forall>k c n m. aes_new g k = Inr c \<longrightarrow> length n = 12 \<longrightarrow> length m < 2 ^ 36 \<longrightarrow> (\<exists>ct. aes_encrypt g c n m = Inr ct))"


section \<open>Each test passes\<close>

lemma passes_assert: "b \<Longrightarrow> passes (io_assert b)"
  by (rule passes_wp) simp

lemma mac_tests_pass:
  "passes (test_mac_deterministic s)" "passes (test_verify_mac_valid s)"
  "passes test_constant_time_comparison" "passes (test_variable_output_length s)"
proof -
  show "passes (test_mac_deterministic s)" by (rule passes_wp) (simp add: test_mac_deterministic_def)
  show "passes (test_verify_mac_valid s)"
    by (rule passes_wp) (simp add: test_verify_mac_valid_def shake_mac_verify_def Let_def ct.same_iff)
  show "passes test_constant_time_comparison"
    by (rule passes_wp) (simp add: test_constant_time_comparison_def ct.same_iff)
  show "passes (test_variable_output_length s)"
    by (rule passes_wp) (simp add: test_variable_output_length_def Let_def shake256_mac_def xof_read_prefix)
qed

lemma formatted:
  "format_code 1234 = ''00001234''" "format_code 12345678 = ''12345678''" "format_code 0 = ''00000000''"
proof -
  have digits: "map char_of [48 :: nat, 49, 50, 51, 52, 53, 54, 55, 56] = ''012345678''" by code_simp
  have "dec_text 1234 = ''1234''" "dec_text 12345678 = ''12345678''" "dec_text 0 = ''0''"
    using digits by (simp_all add: dec_text.simps)
  moreover have "replicate 4 (CHR ''0'') = ''0000''" "replicate 7 (CHR ''0'') = ''0000000''"
    by (simp_all add: numeral_eq_Suc)
  ultimately show "format_code 1234 = ''00001234''" "format_code 12345678 = ''12345678''" "format_code 0 = ''00000000''"
    by (simp_all add: format_code_def)
qed

lemma totp_tests_pass:
  "passes (test_generate_deterministic s)" "passes (test_same_window_same_code s)" "passes (test_code_range s)"
  "passes (test_verify_current pf s)" "passes (test_verify_within_window pf s)"
  "passes test_format_code" "passes (test_seconds_remaining pf)"
proof -
  show "passes (test_generate_deterministic s)"
    by (rule passes_wp) (simp add: test_generate_deterministic_def totp.gen_eq)
  show "passes (test_same_window_same_code s)"
    by (rule passes_wp) (simp add: test_same_window_same_code_def totp.gen_eq TIME_STEP_def)
  show "passes (test_code_range s)"
    unfolding test_code_range_def by (intro passes_wp wp_each) (simp add: totp.gen_eq totp_code_bound)
  obtain c where c: "generate s TEST_SECRET 1000000 = Some c" by (simp add: totp.gen_eq)
  have ok: "verify pf s TEST_SECRET c t 1 = Some True" if "unat (abs_diff 1000000 t) \<le> 30" for t
    using c that small_window_fits [of 1 t] by (intro totp.drift_accepted) simp_all
  show "passes (test_verify_current pf s)"
    using ok [of 1000000] by (intro passes_wp) (auto simp: test_verify_current_def Let_def c)
  have "verify pf s TEST_SECRET c 1000030 1 = Some True" "verify pf s TEST_SECRET c 999970 1 = Some True"
    by (rule ok; simp add: abs_diff_def)+
  then show "passes (test_verify_within_window pf s)"
    by (intro passes_wp) (auto simp: test_verify_within_window_def Let_def c)
  show "passes test_format_code"
    by (rule passes_wp) (simp add: test_format_code_def formatted)
  show "passes (test_seconds_remaining pf)"
    by (rule passes_wp) (simp add: test_seconds_remaining_def seconds_remaining_def TIME_STEP_def checked_sub_def)
qed

lemmas key_sizes = DILITHIUM_PUBLIC_KEY_def DILITHIUM_SECRET_KEY_def DILITHIUM_SIGNATURE_def
  KYBER_PUBLIC_KEY_def KYBER_SECRET_KEY_def KYBER_CIPHERTEXT_def KYBER_SHARED_SECRET_def
  HYBRID_SIG_SIZE_def ED25519_SIG_SIZE_def

lemma dilithium_tests_pass:
  assumes "dilithium3_law d"
  shows "passes (test_keypair_generation d)" "passes (test_sign_verify d)" "passes (test_deterministic_verification d)"
proof -
  show "passes (test_keypair_generation d)"
    by (rule passes_wp) (auto simp: test_keypair_generation_def key_sizes
        intro!: wp_rules generated_lengths [OF assms])
  show "passes (test_sign_verify d)"
    by (rule passes_wp) (auto simp: test_sign_verify_def Let_def key_sizes intro!: wp_rules assms)
  show "passes (test_deterministic_verification d)"
    by (rule passes_wp) (auto simp: test_deterministic_verification_def Let_def
        intro!: wp_rules wp_loop [where P = "\<lambda>_. True"] assms)
qed

lemma kyber_tests_pass:
  assumes "kyber768_law k" and "kyber768_lengths k"
  shows "passes (test_keypair_sizes k)" "passes (test_encapsulate_decapsulate k)"
    "passes (test_invalid_public_key k)" "passes (test_invalid_ciphertext k)"
proof -
  show "passes (test_keypair_sizes k)"
    by (rule passes_wp) (auto simp: test_keypair_sizes_def key_sizes
        intro!: wp_rules kyber_generated_lengths [OF assms(1)])
  show "passes (test_encapsulate_decapsulate k)"
    by (rule passes_wp) (auto simp: test_encapsulate_decapsulate_def key_sizes intro!: wp_rules assms(1))
  have short: "k768_pk_from k (replicate 10 0) = None" "k768_ct_from k (replicate 10 0) = None"
    using assms(2) unfolding kyber768_lengths_def by force+
  show "passes (test_invalid_public_key k)"
    by (rule passes_wp) (auto simp: test_invalid_public_key_def encapsulate_def short intro!: wp_lift)
  show "passes (test_invalid_ciphertext k)"
    by (rule passes_wp) (auto simp: test_invalid_ciphertext_def decapsulate_def short intro!: wp_rules split: option.splits)
qed

lemma hybrid_tests_pass:
  assumes "dilithium3_law d" and "ed25519_law e"
  shows "passes (test_hybrid_keygen e d)" "passes (test_hybrid_sign_verify e d)"
    "passes (test_hybrid_truncated_sig e d)" "passes (test_hybrid_public_key_extraction e d)"
proof -
  show "passes (test_hybrid_keygen e d)"
    by (rule passes_wp) (auto simp: test_hybrid_keygen_def key_sizes hybrid_generated_def
        dest: dilithium3_lawD(1,2) [OF assms(1)] ed25519_lawD(2) [OF assms(2)] intro!: wp_rules assms(2))
  show "passes (test_hybrid_sign_verify e d)"
    by (rule passes_wp) (auto simp: test_hybrid_sign_verify_def Let_def key_sizes intro!: wp_rules assms)
  show "passes (test_hybrid_truncated_sig e d)"
    by (rule passes_wp) (auto simp: test_hybrid_truncated_sig_def hybrid_verify_def verify_hybrid_def key_sizes
        intro!: wp_rules assms)
  show "passes (test_hybrid_public_key_extraction e d)"
    by (rule passes_wp) (auto simp: test_hybrid_public_key_extraction_def hybrid_public_def intro!: wp_rules assms(2))
qed


lemma split_at_prefix:
  "sep \<notin> set g \<Longrightarrow> split_at sep (g @ sep # rest) = g # split_at sep rest"
  "sep \<notin> set g \<Longrightarrow> split_at sep g = [g]"
  by (induction g) auto

lemma split_join_dash:
  assumes "gs \<noteq> []" and "\<forall>g \<in> set gs. CHR ''-'' \<notin> set g"
  shows "split_at (CHR ''-'') (join_dash gs) = gs"
  using assms by (induction gs rule: join_dash.induct) (auto simp: split_at_prefix)

lemma filter_join_dash:
  assumes "\<forall>g \<in> set gs. CHR ''-'' \<notin> set g"
  shows "filter (\<lambda>c. c \<noteq> CHR ''-'') (join_dash gs) = concat gs"
  using assms by (induction gs rule: join_dash.induct) (auto simp: filter_id_conv)

lemma wp_generate_code:
  assumes "rand_law r"
    and "\<And>gs w'. length gs = 8 \<Longrightarrow> \<forall>g \<in> set gs. length g = 4 \<and> set g \<subseteq> set ALPHABET \<and> CHR ''-'' \<notin> set g \<Longrightarrow>
      Q \<lparr>code = join_dash gs\<rparr> w'"
  shows "wp (generate_code r) Q w"
proof (rule generate_code_format [OF assms(1), of w])
  fix gs w' assume "generate_code r w = (Some \<lparr>code = join_dash gs\<rparr>, w')" "length gs = 8"
    and gs: "list_all (\<lambda>g. length g = 4 \<and> set g \<subseteq> set ALPHABET) gs"
  moreover have "CHR ''-'' \<notin> set ALPHABET" by (simp add: ALPHABET_def)
  with gs have "\<forall>g \<in> set gs. length g = 4 \<and> set g \<subseteq> set ALPHABET \<and> CHR ''-'' \<notin> set g"
    unfolding list_all_iff by blast
  ultimately show ?thesis using assms(2) [of gs w'] unfolding wp_result by blast
qed

lemma wp_generate_codes:
  assumes "rand_law r" and "\<And>cs w'. length cs = n \<Longrightarrow> Q cs w'"
  shows "wp (generate_codes r n) Q w"
  using generate_codes_ascii [OF assms(1), of n w] assms(2) unfolding wp_result by blast

lemma length_concat_same: "\<forall>g \<in> set gs. length g = k \<Longrightarrow> length (concat gs) = length gs * k"
  by (induction gs) auto

lemma recovery_tests_pass:
  assumes "rand_law r" and "json_law j"
  shows "passes (test_code_format r)" "passes (test_hash_deterministic s x uni)"
    "passes (test_hash_normalization s x uni)" "passes (recovery_test_serialization s x uni r j)"
    "passes (test_entropy r)"
proof -
  show "passes (test_code_format r)"
  proof (rule passes_wp, unfold test_code_format_def Let_def wp_simps(2), rule wp_generate_code [OF assms(1)], simp)
    fix gs :: "string list" and w' assume "length gs = 8"
      and gs: "\<forall>g \<in> set gs. length g = 4 \<and> set g \<subseteq> set ALPHABET \<and> CHR ''-'' \<notin> set g"
    then have "split_at (CHR ''-'') (join_dash gs) = gs" by (intro split_join_dash) auto
    then show "length (split_at CHR ''-'' (join_dash gs)) = GROUPS \<and>
        wp (io_each (\<lambda>part. io_then (io_assert (length part = GROUP_LEN))
          (\<lambda>_. io_assert (list_all (\<lambda>ch. ch \<in> set ALPHABET) part))) (split_at CHR ''-'' (join_dash gs))) (\<lambda>_ _. True) w'"
      using gs \<open>length gs = 8\<close> by (auto simp: GROUPS_def GROUP_LEN_def list_all_iff subset_iff intro!: wp_each)
  qed
  show "passes (test_hash_deterministic s x uni)"
    by (rule passes_wp) (simp add: test_hash_deterministic_def)
  show "passes (test_hash_normalization s x uni)"
    by (rule passes_wp) (simp add: test_hash_normalization_def hash_code_def)
  show "passes (recovery_test_serialization s x uni r j)"
  proof (rule passes_wp, unfold recovery_test_serialization_def Let_def wp_simps(2), rule wp_generate_codes [OF assms(1)])
    fix cs :: "recovery_code list" and w' assume len: "length cs = 3"
    obtain t where j: "to_json j (code_set_json (from_codes s x uni cs)) = Inr t"
      "from_str j code_set_of_json t = Some (from_codes s x uni cs)"
      by (rule cset.reads_printed [OF assms(2)]) simp_all
    have "codes (from_codes s x uni cs) ! 1 = hash_code s x uni (code (cs ! 1))"
      using len by (simp add: from_codes_def)
    then have "verify_code s x uni (code (cs ! 1)) (codes (from_codes s x uni cs)) \<noteq> None"
      using len nth_mem [of 1 "codes (from_codes s x uni cs)"]
      by (auto simp: verify_code_eq position_None from_codes_def hash_code_def Let_def)
    with len j show "wp (io_result (to_json j (code_set_json (from_codes s x uni cs))))
        (\<lambda>y. wp (io_value (from_str j code_set_of_json y)) (\<lambda>y. wp (io_assert (length (codes y) = 3))
          (\<lambda>ya. wp (io_assert (remaining y = 3)) (\<lambda>ya. wp (io_value (index cs 1))
            (\<lambda>ya. wp (io_assert (verify_code s x uni (code ya) (codes y) \<noteq> None)) (\<lambda>_ _. True)))))) w'"
      by (auto simp: from_codes_def)
  qed
  show "passes (test_entropy r)"
    by (rule passes_wp) (auto simp: test_entropy_def filter_join_dash length_concat_same [where k = 4] GROUPS_def GROUP_LEN_def
        intro!: wp_generate_code assms(1))
qed

lemma wp_encrypt:
  assumes laws: "hex_law x" "aes_gcm_law g" "argon2_law a" "aes_gcm_capacity g"
    and size: "length m < 2 ^ 36" "length pw < 2 ^ 32"
    and "\<And>ks w'. decrypt a g x ks pw = Some (Inr m) \<Longrightarrow> ks_version ks = 1 \<Longrightarrow> ks_key_type ks = ty \<Longrightarrow> Q ks w'"
  shows "wp (io_expect (encrypt a g x r m pw ty)) Q w"
proof -
  obtain f1 w1 f2 w2 where r: "rand_fill r w = (f1, w1)" "rand_fill r w1 = (f2, w2)" by fastforce
  let ?salt = "map f1 [0..<32]" and ?nonce = "map f2 [0..<12]"
  obtain p where p: "argon2_params a ARGON2_M_COST ARGON2_T_COST ARGON2_P_COST (Some 32) = Inr p"
    and "\<forall>pw salt. 8 \<le> length salt \<longrightarrow> length pw < 2 ^ 32 \<longrightarrow> (\<exists>f. argon2_hash a p pw salt = Inr f)"
    using laws(3) unfolding argon2_law_def by blast
  from this(2) [rule_format, of ?salt pw] size(2) obtain f where "argon2_hash a p pw ?salt = Inr f" by auto
  with p obtain k where k: "derive_key a pw ?salt = Inr k" by (simp add: derive_key_def)
  then obtain c where c: "aes_new g k = Inr c"
    using aes_gcm_lawD(1) [OF laws(2) length_derive_key] by blast
  obtain ct where "aes_encrypt g c ?nonce m = Inr ct"
    using laws(4) c size(1) unfolding aes_gcm_capacity_def by (metis length_map length_upt diff_zero)
  with r k c aes_gcm_lawD(2) [OF laws(2), of ?nonce]
  obtain ks where enc: "encrypt a g x r m pw ty w = (Some (Inr ks), w2)"
    by (simp add: encrypt_def keystore_sizes Let_def)
  then show ?thesis
    using encrypt_then_decrypt [OF laws(1,2) enc] assms(7) unfolding wp_expect by (simp add: wp_def)
qed

lemma keystore_tests_pass:
  assumes "hex_law x" and "aes_gcm_law g" and "argon2_law a" and "aes_gcm_capacity g" and "json_law j"
  shows "passes (test_encrypt_decrypt_roundtrip a g x r)" "passes (test_large_key_material a g x r)"
    "passes (keystore_test_serialization a g x r j)" "passes (test_invalid_version a g x r)"
proof -
  note encrypts = wp_encrypt [OF assms(1-4)]
  have json: "\<exists>t. to_json j (keystore_json ks) = Inr t \<and> from_str j keystore_of_json t = Some ks" for ks
    using kst.reads_printed [OF assms(5)] by metis
  show "passes (test_encrypt_decrypt_roundtrip a g x r)"
    by (rule passes_wp) (auto simp: test_encrypt_decrypt_roundtrip_def Let_def intro!: encrypts)
  show "passes (test_large_key_material a g x r)"
    by (rule passes_wp) (auto simp: test_large_key_material_def Let_def intro!: encrypts)
  show "passes (keystore_test_serialization a g x r j)"
    by (rule passes_wp) (use json in \<open>fastforce simp: keystore_test_serialization_def Let_def
        intro!: encrypts\<close>)
  show "passes (test_invalid_version a g x r)"
    by (rule passes_wp) (auto simp: test_invalid_version_def decrypt_def intro!: encrypts)
qed


section \<open>Properties\<close>

definition library_tests ::
  "profile \<Rightarrow> 'h sha3_crate \<Rightarrow> hex_crate \<Rightarrow> 'w rand_crate \<Rightarrow> 'w dilithium3_crate \<Rightarrow> 'w kyber768_crate \<Rightarrow>
   'w ed25519_crate \<Rightarrow> 'p argon2_crate \<Rightarrow> 'c aes_gcm_crate \<Rightarrow> (string \<Rightarrow> string) \<Rightarrow>
   'j json_crate \<Rightarrow> (unit, 'w) io list" where
  "library_tests pf s x r d k e a g uni j =
     [test_mac_deterministic s, test_verify_mac_valid s, test_constant_time_comparison, test_variable_output_length s,
      test_generate_deterministic s, test_same_window_same_code s, test_code_range s, test_verify_current pf s,
      test_verify_within_window pf s, test_format_code, test_seconds_remaining pf,
      test_keypair_generation d, test_sign_verify d, test_deterministic_verification d,
      test_keypair_sizes k, test_encapsulate_decapsulate k, test_invalid_public_key k, test_invalid_ciphertext k,
      test_hybrid_keygen e d, test_hybrid_sign_verify e d, test_hybrid_truncated_sig e d,
      test_hybrid_public_key_extraction e d,
      test_code_format r, test_hash_deterministic s x uni, test_hash_normalization s x uni,
      recovery_test_serialization s x uni r j, test_entropy r,
      test_encrypt_decrypt_roundtrip a g x r, test_large_key_material a g x r, keystore_test_serialization a g x r j,
      test_invalid_version a g x r]"

text \<open>C37. Of the 54 unit tests of the library modules, the 31 of \<open>library_tests\<close>, which expect no hashed or random
  values to differ and no forgery to fail, pass for every behaviour of the crates that their laws
  allow, in both build profiles and from every state of the world: no assertion of them fails,
  nothing that they unwrap is an error, and nothing panics.\<close>

theorem library_tests_pass:
  assumes "hex_law x" and "rand_law r" and "dilithium3_law d" and "kyber768_law k" and "kyber768_lengths k"
    and "ed25519_law e" and "aes_gcm_law g" and "argon2_law a" and "aes_gcm_capacity g"
    and "json_law j"
  shows "list_all passes (library_tests pf s x r d k e a g uni j)"
  by (simp add: library_tests_def mac_tests_pass totp_tests_pass dilithium_tests_pass [OF assms(3)]
      kyber_tests_pass [OF assms(4,5)] hybrid_tests_pass [OF assms(3,6)] recovery_tests_pass [OF assms(2,10)]
      keystore_tests_pass [OF assms(1,7,8,9,10)])

theorem library_tests_pass_witness:
  "list_all passes (library_tests Debug toy_sha toy_hex toy_rnd toy_dil toy_kyb toy_ed toy_argon toy_aes id toy_json)"
proof (rule library_tests_pass [OF toy_hex_law toy_rand_law toy_dilithium3_law toy_kyber768_law _ toy_ed25519_law
      toy_aes_gcm_law])
  show "kyber768_lengths toy_kyb" by (simp add: kyber768_lengths_def toy_kyb_def)
  show "argon2_law toy_argon" by (simp add: argon2_law_def toy_argon_def)
  show "aes_gcm_capacity toy_aes" by (simp add: aes_gcm_capacity_def toy_aes_def)
qed (rule toy_json_law)

end
