(* ===== verification/ProtocolTests.thy ===== *)
theory ProtocolTests
  imports LibraryTests ServerProperties
begin

text \<open>
  The unit tests of \<open>src/challenge.rs\<close>, \<open>src/enrollment.rs\<close> and \<open>src/server.rs\<close> as programs over the
  model, and the proof that they pass for every law-abiding behaviour of the crates. As in LibraryTests,
  the tests that compare random or hashed values for difference are in ChanceProtocolTests.
\<close>

section \<open>src/challenge.rs\<close>

definition test_challenge_response_flow :: "'w rand_crate \<Rightarrow> 'w dilithium3_crate \<Rightarrow> (unit, 'w) io" where
  "test_challenge_response_flow r d =
     io_then (io_lift (keypair_generate d)) (\<lambda>kp.
     let server_time = 1000000; client_time = 1000001 in
     io_then (io_lift (challenge_new r server_time)) (\<lambda>ch.
     io_then (io_unwrap (respond_to_challenge d kp ch client_time)) (\<lambda>response.
     let ver = verifier_new 60;
         (result, ver) = verifier_verify d ver ch response (public_key kp) (server_time + 5)
     in io_assert (is_ok result))))"

definition test_replay_prevention :: "'w rand_crate \<Rightarrow> 'w dilithium3_crate \<Rightarrow> (unit, 'w) io" where
  "test_replay_prevention r d =
     io_then (io_lift (keypair_generate d)) (\<lambda>kp.
     let ts = 1000000 in
     io_then (io_lift (challenge_new r ts)) (\<lambda>ch.
     io_then (io_unwrap (respond_to_challenge d kp ch ts)) (\<lambda>response.
     let ver = verifier_new 60;
         (result, ver) = verifier_verify d ver ch response (public_key kp) (ts + 1)
     in io_then (io_assert (is_ok result)) (\<lambda>_.
        let (result, ver) = verifier_verify d ver ch response (public_key kp) (ts + 2)
        in io_assert (result = Inl Replay)))))"

definition test_expired_challenge :: "'w rand_crate \<Rightarrow> 'w dilithium3_crate \<Rightarrow> (unit, 'w) io" where
  "test_expired_challenge r d =
     io_then (io_lift (keypair_generate d)) (\<lambda>kp.
     let ts = 1000000 in
     io_then (io_lift (challenge_new r ts)) (\<lambda>ch.
     io_then (io_unwrap (respond_to_challenge d kp ch ts)) (\<lambda>response.
     let ver = verifier_new 60;
         (result, ver) = verifier_verify d ver ch response (public_key kp) (ts + CHALLENGE_VALIDITY_SECS + 1)
     in io_assert (result = Inl Expired))))"

definition test_clock_skew_tolerance :: "'w rand_crate \<Rightarrow> 'w dilithium3_crate \<Rightarrow> (unit, 'w) io" where
  "test_clock_skew_tolerance r d =
     io_then (io_lift (keypair_generate d)) (\<lambda>kp.
     let server_time = 1000000 in
     io_then (io_lift (challenge_new r server_time)) (\<lambda>ch.
     io_then (io_unwrap (respond_to_challenge d kp ch (server_time + 30))) (\<lambda>response.
     let ver = verifier_new 60;
         (result, ver) = verifier_verify d ver ch response (public_key kp) (server_time + 1)
     in io_assert (is_ok result))))"

definition test_excessive_clock_skew :: "'w rand_crate \<Rightarrow> 'w dilithium3_crate \<Rightarrow> (unit, 'w) io" where
  "test_excessive_clock_skew r d =
     io_then (io_lift (keypair_generate d)) (\<lambda>kp.
     let ts = 1000000 in
     io_then (io_lift (challenge_new r ts)) (\<lambda>ch.
     io_then (io_unwrap (respond_to_challenge d kp ch (ts + 1000))) (\<lambda>response.
     let ver = verifier_new 60;
         (result, ver) = verifier_verify d ver ch response (public_key kp) (ts + 1)
     in io_assert (result = Inl TimestampOutOfRange))))"

definition test_prune_keeps_fresh_nonce_unreplayable :: "'w rand_crate \<Rightarrow> 'w dilithium3_crate \<Rightarrow> (unit, 'w) io" where
  "test_prune_keeps_fresh_nonce_unreplayable r d =
     io_then (io_lift (keypair_generate d)) (\<lambda>kp.
     let ts = 1000000 in
     io_then (io_lift (challenge_new r ts)) (\<lambda>ch.
     io_then (io_unwrap (respond_to_challenge d kp ch ts)) (\<lambda>response.
     let ver = verifier_new 60;
         (result, ver) = verifier_verify d ver ch response (public_key kp) (ts + 1)
     in io_then (io_assert (is_ok result)) (\<lambda>_.
        let ver = clear_expired ver (ts + 10);
            (result, ver) = verifier_verify d ver ch response (public_key kp) (ts + 11)
        in io_assert (result = Inl Replay)))))"

text \<open>\<open>HashMap::len\<close> is the number of keys.\<close>

definition test_prune_drops_only_expired_nonces :: "'w rand_crate \<Rightarrow> 'w dilithium3_crate \<Rightarrow> (unit, 'w) io" where
  "test_prune_drops_only_expired_nonces r d =
     io_then (io_lift (keypair_generate d)) (\<lambda>kp1.
     io_then (io_lift (keypair_generate d)) (\<lambda>kp2.
     io_then (io_lift (challenge_new r 1000000)) (\<lambda>old_challenge.
     io_then (io_unwrap (respond_to_challenge d kp1 old_challenge 1000000)) (\<lambda>old_response.
     let ver = verifier_new 60;
         (result, ver) = verifier_verify d ver old_challenge old_response (public_key kp1) 1000001
     in io_then (io_assert (is_ok result)) (\<lambda>_.
     let new_ts = 1000000 + CHALLENGE_VALIDITY_SECS + 61 in
     io_then (io_lift (challenge_new r new_ts)) (\<lambda>new_challenge.
     io_then (io_unwrap (respond_to_challenge d kp2 new_challenge new_ts)) (\<lambda>new_response.
     let (result, ver) = verifier_verify d ver new_challenge new_response (public_key kp2) (new_ts + 1)
     in io_then (io_assert (is_ok result)) (\<lambda>_.
        let ver = clear_expired ver (new_ts + 1)
        in io_then (io_assert (card (dom (used_nonces ver)) = 1)) (\<lambda>_.
           let (result, ver) = verifier_verify d ver old_challenge old_response (public_key kp1) (new_ts + 1)
           in io_assert (result = Inl Expired))))))))))"

section \<open>src/enrollment.rs\<close>

definition test_full_enrollment_flow ::
  "'h sha3_crate \<Rightarrow> 'w dilithium3_crate \<Rightarrow> 'w kyber768_crate \<Rightarrow> (unit, 'w) io" where
  "test_full_enrollment_flow s d k =
     io_then (io_lift (keypair_generate d)) (\<lambda>client_kp.
     io_then (io_lift (server_enrollment_new k ''example.com'')) (\<lambda>server.
     let ch = enrollment_challenge_of server in
     io_then (io_unwrap (client_enroll s k ch (public_key client_kp))) (\<lambda>(response, client_data).
     io_then (io_result (complete s k server response)) (\<lambda>rc.
     io_then (io_assert (ce_totp_seed client_data = rec_totp_seed rc)) (\<lambda>_.
     io_then (io_assert (length (ce_totp_seed client_data) = TOTP_SEED_LEN)) (\<lambda>_.
     io_then (io_assert (rec_server_id rc = ''example.com'')) (\<lambda>_.
     io_assert (rec_dilithium_public rc = public_key client_kp))))))))"

definition test_empty_server_id_rejected ::
  "'h sha3_crate \<Rightarrow> 'w dilithium3_crate \<Rightarrow> 'w kyber768_crate \<Rightarrow> (unit, 'w) io" where
  "test_empty_server_id_rejected s d k =
     io_then (io_lift (keypair_generate d)) (\<lambda>client_kp.
     io_then (io_lift (server_enrollment_new k ''valid.com'')) (\<lambda>server.
     let ch = (enrollment_challenge_of server)\<lparr>ec_server_id := []\<rparr> in
     io_then (io_lift (client_enroll s k ch (public_key client_kp))) (\<lambda>result.
     io_assert (\<not> is_ok result))))"

definition test_totp_seed_deterministic_derivation :: "'h sha3_crate \<Rightarrow> (unit, 'w) io" where
  "test_totp_seed_deterministic_derivation s =
     (let shared = replicate 32 0x42;
          s1 = derive_totp_seed s shared ''test.com'';
          s2 = derive_totp_seed s shared ''test.com''
      in io_assert (s1 = s2))"

definition test_reject_short_ciphertext ::
  "'h sha3_crate \<Rightarrow> 'w dilithium3_crate \<Rightarrow> 'w kyber768_crate \<Rightarrow> (unit, 'w) io" where
  "test_reject_short_ciphertext s d k =
     io_then (io_lift (keypair_generate d)) (\<lambda>client_kp.
     io_then (io_lift (server_enrollment_new k ''example.com'')) (\<lambda>server.
     io_then (io_unwrap (client_enroll s k (enrollment_challenge_of server) (public_key client_kp))) (\<lambda>(response, _).
     let response = response\<lparr>er_ciphertext := take (KYBER_CIPHERTEXT - 1) (er_ciphertext response)\<rparr>
     in io_assert (case complete s k server response of Inl (InvalidCiphertextLength _ _) \<Rightarrow> True | _ \<Rightarrow> False))))"

definition test_reject_invalid_public_key_length ::
  "'h sha3_crate \<Rightarrow> 'w dilithium3_crate \<Rightarrow> 'w kyber768_crate \<Rightarrow> (unit, 'w) io" where
  "test_reject_invalid_public_key_length s d k =
     io_then (io_lift (keypair_generate d)) (\<lambda>client_kp.
     io_then (io_lift (server_enrollment_new k ''example.com'')) (\<lambda>server.
     io_then (io_unwrap (client_enroll s k (enrollment_challenge_of server) (public_key client_kp))) (\<lambda>(response, _).
     let response = response\<lparr>er_dilithium_public := replicate 32 0\<rparr>
     in io_assert (complete s k server response = Inl (InvalidPublicKeyLength DILITHIUM_PUBLIC_KEY 32)))))"

definition test_enrollment_totp_integration ::
  "profile \<Rightarrow> 'h sha3_crate \<Rightarrow> 'w dilithium3_crate \<Rightarrow> 'w kyber768_crate \<Rightarrow> (unit, 'w) io" where
  "test_enrollment_totp_integration pf s d k =
     io_then (io_lift (keypair_generate d)) (\<lambda>client_kp.
     io_then (io_lift (server_enrollment_new k ''example.com'')) (\<lambda>server.
     let ch = enrollment_challenge_of server in
     io_then (io_unwrap (client_enroll s k ch (public_key client_kp))) (\<lambda>(response, client_data).
     io_then (io_result (complete s k server response)) (\<lambda>rc.
     let ts = 1000000 in
     io_then (io_value (generate s (ce_totp_seed client_data) ts)) (\<lambda>client_code.
     io_then (io_value (generate s (rec_totp_seed rc) ts)) (\<lambda>server_code.
     io_then (io_assert (client_code = server_code)) (\<lambda>_.
     io_then (io_value (verify pf s (rec_totp_seed rc) client_code ts 1)) io_assert)))))))"

section \<open>src/server.rs\<close>

text \<open>A call of a server that the test holds; and the test's own reading of the clock.\<close>

definition on_server ::
  "(pq_auth_server \<Rightarrow> 'w \<Rightarrow> 'a option \<times> pq_auth_server \<times> 'w) \<Rightarrow> pq_auth_server \<Rightarrow> ('a \<times> pq_auth_server, 'w) io" where
  "on_server f srv w = (case f srv w of (None, srv', w') \<Rightarrow> (None, w') | (Some r, srv', w') \<Rightarrow> (Some (r, srv'), w'))"

definition io_now :: "'w os_clock \<Rightarrow> (u64, 'w) io" where
  "io_now c w = (case clock_secs c w of (t, w') \<Rightarrow> (secs_since_epoch t, w'))"

definition test_full_enrollment_and_totp_verify :: "('h, 'w) deps \<Rightarrow> (unit, 'w) io" where
  "test_full_enrollment_and_totp_verify d =
     (let server = server_new ''test.pqauth.dev'' in
      io_then (on_server (enroll_begin d ''alice'') server) (\<lambda>(begin, server).
      io_then (io_result begin) (\<lambda>begin.
      io_then (io_assert (eb_kyber_public_key begin \<noteq> [])) (\<lambda>_.
      io_then (io_lift (keypair_generate (dil d))) (\<lambda>client_kp.
      io_then (io_value (hex_decode (hexc d) (eb_kyber_public_key begin))) (\<lambda>key.
      let ch = \<lparr>ec_kyber_public = key, ec_server_id = eb_server_id begin\<rparr> in
      io_then (io_unwrap (client_enroll (sha d) (kyb d) ch (public_key client_kp))) (\<lambda>(resp, client_data).
      let complete_req = \<lparr>ecr_user_id = ''alice'', ecr_ciphertext = hex_encode (hexc d) (er_ciphertext resp),
            ecr_dilithium_public_key = hex_encode (hexc d) (er_dilithium_public resp)\<rparr>
      in io_then (on_server (enroll_complete d complete_req) server) (\<lambda>(complete, server).
      io_then (io_result complete) (\<lambda>complete.
      io_then (io_assert (ecs_success complete)) (\<lambda>_.
      io_then (io_now (os d)) (\<lambda>ts.
      io_then (io_value (generate (sha d) (ce_totp_seed client_data) ts)) (\<lambda>code.
      let verify_req = \<lparr>vr_user_id = ''alice'', vr_method = Totp code\<rparr>
      in io_then (on_server (server_verify d verify_req) server) (\<lambda>(result, server).
      io_then (io_result result) (\<lambda>result.
      io_assert (vs_valid result)))))))))))))))"

definition test_duplicate_enrollment_rejected :: "('h, 'w) deps \<Rightarrow> (unit, 'w) io" where
  "test_duplicate_enrollment_rejected d =
     (let server = server_new ''test.pqauth.dev'' in
      io_then (on_server (enroll_begin d ''alice'') server) (\<lambda>(begin, server).
      io_then (io_result begin) (\<lambda>begin.
      io_then (io_lift (keypair_generate (dil d))) (\<lambda>client_kp.
      io_then (io_value (hex_decode (hexc d) (eb_kyber_public_key begin))) (\<lambda>key.
      let ch = \<lparr>ec_kyber_public = key, ec_server_id = eb_server_id begin\<rparr> in
      io_then (io_unwrap (client_enroll (sha d) (kyb d) ch (public_key client_kp))) (\<lambda>(resp, _).
      io_then (on_server (enroll_complete d \<lparr>ecr_user_id = ''alice'',
            ecr_ciphertext = hex_encode (hexc d) (er_ciphertext resp),
            ecr_dilithium_public_key = hex_encode (hexc d) (er_dilithium_public resp)\<rparr>) server) (\<lambda>(complete, server).
      io_then (io_result complete) (\<lambda>_.
      io_then (on_server (enroll_begin d ''alice'') server) (\<lambda>(result, server).
      io_assert (\<not> is_ok result))))))))))"

definition test_unknown_user_challenge :: "('h, 'w) deps \<Rightarrow> (unit, 'w) io" where
  "test_unknown_user_challenge d =
     (let server = server_new ''test.pqauth.dev'' in
      io_then (on_server (issue_challenge d ''nobody'') server) (\<lambda>(result, server).
      io_assert (\<not> is_ok result)))"

definition test_audit_log :: "('h, 'w) deps \<Rightarrow> (unit, 'w) io" where
  "test_audit_log d =
     (let server = server_new ''test.pqauth.dev'' in
      io_then (on_server (enroll_begin d ''carol'') server) (\<lambda>(_, server).
      io_then (on_server read_audit_log server) (\<lambda>(log, server).
      io_then (io_assert (length log = 1)) (\<lambda>_.
      io_then (io_value (index log 0)) (\<lambda>e.
      io_then (io_assert (ae_action e = ''enroll_begin'')) (\<lambda>_.
      io_assert (ae_success e)))))))"


section \<open>Each test passes\<close>

lemma wp_challenge_new [wp_rules]:
  "(\<And>n w'. Q \<lparr>nonce = n, issued_at = ts\<rparr> w') \<Longrightarrow> wp (io_lift (challenge_new r ts)) Q w"
  by (rule wp_lift) (auto simp: challenge_new_def split: prod.splits)

lemma wp_respond [wp_rules]:
  assumes "dilithium3_law d" and "generated d kp"
    and "\<And>sg w'. verify_detached d (public_key kp) (signing_payload c cts) sg = Inr () \<Longrightarrow>
      Q \<lparr>resp_nonce = nonce c, client_timestamp = cts, signature = sg\<rparr> w'"
  shows "wp (io_unwrap (respond_to_challenge d kp c cts)) Q w"
proof (rule dsig.sign_then_check [OF assms(1,2), of "signing_payload c cts" w])
  fix sg w'
  assume "keypair_sign d kp (signing_payload c cts) w = (Inr sg, w')"
    and "verify_detached d (public_key kp) (signing_payload c cts) sg = Inr ()"
  then show ?thesis
    by (intro wp_unwrap [of _ _ "\<lparr>resp_nonce = nonce c, client_timestamp = cts, signature = sg\<rparr>" w'] assms(3))
      (simp_all add: respond_to_challenge_def)
qed

lemmas verifier_defs = verifier_verify_def verifier_new_def clear_expired_def mark_used_def horizon_def
  is_expired_def retain_update CHALLENGE_VALIDITY_SECS_def saturating_sub_def abs_diff_def signing_payload_def

lemmas challenge_tests = test_challenge_response_flow_def test_replay_prevention_def test_expired_challenge_def
  test_clock_skew_tolerance_def test_excessive_clock_skew_def test_prune_keeps_fresh_nonce_unreplayable_def

lemma challenge_tests_pass:
  assumes "dilithium3_law d"
  shows "passes (test_challenge_response_flow r d)" "passes (test_replay_prevention r d)"
    "passes (test_expired_challenge r d)" "passes (test_clock_skew_tolerance r d)"
    "passes (test_excessive_clock_skew r d)" "passes (test_prune_keeps_fresh_nonce_unreplayable r d)"
    "passes (test_prune_drops_only_expired_nonces r d)"
proof -
  note rules = wp_keypair_generate wp_challenge_new wp_respond [OF assms]
  show "passes (test_challenge_response_flow r d)" "passes (test_replay_prevention r d)"
    "passes (test_expired_challenge r d)" "passes (test_clock_skew_tolerance r d)"
    "passes (test_excessive_clock_skew r d)" "passes (test_prune_keeps_fresh_nonce_unreplayable r d)"
    by (rule passes_wp, unfold challenge_tests Let_def wp_simps(2), intro rules, assumption, simp add: verifier_defs Let_def)+
  show "passes (test_prune_drops_only_expired_nonces r d)"
    by (rule passes_wp, unfold test_prune_drops_only_expired_nonces_def Let_def wp_simps(2), intro rules, assumption)
      (auto simp: verifier_defs Let_def intro!: rules)
qed


text \<open>A session that \<open>ServerEnrollment::new\<close> can return.\<close>

definition fresh_session :: "'w kyber768_crate \<Rightarrow> string \<Rightarrow> server_enrollment \<Rightarrow> bool" where
  "fresh_session k sid se \<longleftrightarrow> (\<exists>w. fst (server_enrollment_new k sid w) = se)"

lemma wp_server_enrollment_new [wp_rules]:
  "(\<And>se w'. fresh_session k sid se \<Longrightarrow> Q se w') \<Longrightarrow> wp (io_lift (server_enrollment_new k sid)) Q w"
  by (rule wp_lift) (metis fresh_session_def fst_conv)

lemma wp_client_enroll [wp_rules]:
  assumes "kyber768_law k" and "fresh_session k sid se" and "sid \<noteq> []" and "length pk = 1952"
    and "\<And>resp cd rc w'. complete s k se resp = Inr rc \<Longrightarrow> rec_totp_seed rc = ce_totp_seed cd \<Longrightarrow>
      rec_dilithium_public rc = pk \<Longrightarrow> rec_server_id rc = sid \<Longrightarrow> length (ce_totp_seed cd) = 32 \<Longrightarrow>
      length (er_ciphertext resp) = 1088 \<Longrightarrow> Q (resp, cd) w'"
  shows "wp (io_unwrap (client_enroll s k (enrollment_challenge_of se) pk)) Q w"
proof -
  obtain w0 w1 where "server_enrollment_new k sid w0 = (se, w1)"
    using assms(2) unfolding fresh_session_def by (metis prod.collapse)
  then obtain resp cd w2 rc where x: "client_enroll s k (enrollment_challenge_of se) pk w = (Inr (resp, cd), w2)"
    "complete s k se resp = Inr rc" "rec_totp_seed rc = ce_totp_seed cd"
    "rec_dilithium_public rc = pk" "rec_server_id rc = sid"
    using enrollment_exchange [OF assms(1) _ assms(3,4)] by metis
  show ?thesis
    by (intro wp_unwrap [of _ _ "(resp, cd)" w2] assms(5) [OF x(2-5)])
      (use x(1-3) complete_well_formed [OF x(2)] in \<open>simp_all add: complete_ok\<close>)
qed

lemma enrollment_tests_pass:
  assumes "dilithium3_law d" and "kyber768_law k"
  shows "passes (test_full_enrollment_flow s d k)" "passes (test_empty_server_id_rejected s d k)"
    "passes (test_totp_seed_deterministic_derivation s)" "passes (test_reject_short_ciphertext s d k)"
    "passes (test_reject_invalid_public_key_length s d k)" "passes (test_enrollment_totp_integration pf s d k)"
proof -
  note rules = wp_keypair_generate wp_server_enrollment_new wp_client_enroll [OF assms(2)]
    generated_lengths [OF assms(1)]
  show "passes (test_full_enrollment_flow s d k)"
    by (rule passes_wp) (auto simp: test_full_enrollment_flow_def Let_def TOTP_SEED_LEN_def intro!: rules)
  show "passes (test_empty_server_id_rejected s d k)"
    by (rule passes_wp) (auto simp: test_empty_server_id_rejected_def client_enroll_def intro!: rules wp_lift)
  show "passes (test_totp_seed_deterministic_derivation s)"
    by (rule passes_wp) (simp add: test_totp_seed_deterministic_derivation_def)
  show "passes (test_reject_short_ciphertext s d k)"
    by (rule passes_wp) (auto simp: test_reject_short_ciphertext_def Let_def complete_def enrollment_sizes
        intro!: rules)
  show "passes (test_reject_invalid_public_key_length s d k)"
    by (rule passes_wp) (auto simp: test_reject_invalid_public_key_length_def complete_def [of _ _ _ "_\<lparr>er_dilithium_public := _\<rparr>"]
        enrollment_sizes intro!: rules)
  have works: "\<exists>c. generate s seed 1000000 = Some c \<and> (\<exists>ok. verify pf s seed c 1000000 1 = Some ok \<and> ok)" for seed
  proof -
    obtain c where c: "generate s seed 1000000 = Some c" by (simp add: totp.gen_eq)
    with totp.drift_accepted [OF c _ small_window_fits [of 1 1000000]] show ?thesis by auto
  qed
  show "passes (test_enrollment_totp_integration pf s d k)"
    by (rule passes_wp) (auto simp: test_enrollment_totp_integration_def Let_def intro!: rules works)
qed


text \<open>The calls of a server that succeed.\<close>

lemma wp_on_server: "f srv w = (Some r, srv', w') \<Longrightarrow> Q (r, srv') w' \<Longrightarrow> wp (on_server f srv) Q w"
  by (simp add: wp_def on_server_def)

lemma wp_io_now [wp_rules]:
  assumes "\<not> clock_fails d" and "\<And>t w'. clock_shows d t \<Longrightarrow> Q t w'"
  shows "wp (io_now (os d)) Q w"
proof -
  obtain t w' where t: "clock_secs (os d) w = (t, w')" by fastforce
  then have pos: "0 \<le> sint t" using assms(1) unfolding clock_fails_def by (metis fst_conv not_le)
  with t have "clock_shows d t" unfolding clock_shows_def by (metis fst_conv)
  with t pos assms(2) show ?thesis by (simp add: wp_def io_now_def secs_since_epoch_def)
qed

lemma fresh_session_fields:
  assumes "fresh_session k sid se"
  shows "se_server_id se = sid" and "kyber768_law k \<Longrightarrow> length (se_kyber_public se) = 1184"
proof -
  from assms obtain w where "fst (server_enrollment_new k sid w) = se" unfolding fresh_session_def by blast
  then obtain kp w' where kp: "kyber_generate k w = (kp, w')"
    and se: "se_server_id se = sid" "se_kyber_public se = kyber_public kp"
    by (auto simp: server_enrollment_new_def split: prod.splits)
  show "se_server_id se = sid" by (rule se)
  show "kyber768_law k \<Longrightarrow> length (se_kyber_public se) = 1184"
    using kyber_generated_lengths(1) [OF _ kyber_generated_generate [OF kp]] se(2) by simp
qed

lemma wp_client_enroll_with:
  assumes "kyber768_law k" and "fresh_session k sid se" and "sid \<noteq> []" and "length pk = 1952"
    and "\<And>resp cd rc w'. complete s k se resp = Inr rc \<Longrightarrow> rec_totp_seed rc = ce_totp_seed cd \<Longrightarrow> Q (resp, cd) w'"
  shows "wp (io_unwrap (client_enroll s k \<lparr>ec_kyber_public = se_kyber_public se, ec_server_id = sid\<rparr> pk)) Q w"
proof -
  have "\<lparr>ec_kyber_public = se_kyber_public se, ec_server_id = sid\<rparr> = enrollment_challenge_of se"
    using fresh_session_fields(1) [OF assms(2)] by (simp add: enrollment_challenge_of_def)
  then show ?thesis by (simp only:) (rule wp_client_enroll [OF assms(1-4)], rule assms(5))
qed

lemma wp_enroll_begin:
  assumes "server_inv srv" and "\<not> poisoned srv" and "\<not> clock_fails d" and "u \<notin> dom (users (inner srv))"
    and "\<And>se ts srv1 w'. fresh_session (kyb d) (server_id (inner srv)) se \<Longrightarrow> server_inv srv1 \<Longrightarrow> \<not> poisoned srv1 \<Longrightarrow>
      users (inner srv1) = users (inner srv) \<Longrightarrow> pending_enrollments (inner srv1) u = Some se \<Longrightarrow>
      audit_log (inner srv1) = audit_log (inner srv) @ [entry_of ts u ''enroll_begin'' True None] \<Longrightarrow>
      Q (Inr \<lparr>eb_kyber_public_key = hex_encode (hexc d) (se_kyber_public se), eb_server_id = server_id (inner srv)\<rparr>, srv1) w'"
  shows "wp (on_server (enroll_begin d u) srv) Q w"
proof -
  obtain r srv1 w1 where b: "enroll_begin d u srv w = (r, srv1, w1)" by (metis prod_cases3)
  then have body: "do_enroll_begin d u (inner srv) w = (r, inner srv1, w1)" "poisoned srv1 \<longleftrightarrow> r = None"
    using assms(2) by (auto simp: operation_defs elim: with_lock_cases)
  have inv: "server_inv srv1" using b assms(1) server_step_inv server_step.intros by metis
  from body(1) show ?thesis
  proof (cases rule: enroll_begin_cases)
    case (begun se ts)
    have "fresh_session (kyb d) (server_id (inner srv)) se" using begun(3) unfolding fresh_session_def by blast
    from this inv show ?thesis
      by - (rule wp_on_server, rule b [unfolded begun(4)], rule assms(5), use begun body(2) in simp_all)
  qed (use assms(3,4) in auto)
qed

lemma wp_enroll_complete:
  assumes "server_inv srv" and "\<not> poisoned srv" and "\<not> clock_fails d" and "hex_law (hexc d)"
    and "pending_enrollments (inner srv) u = Some se" and "complete (sha d) (kyb d) se resp = Inr rc"
    and "\<And>srv2 w'. server_inv srv2 \<Longrightarrow> \<not> poisoned srv2 \<Longrightarrow> users (inner srv2) u = Some rc \<Longrightarrow>
      rate_limits (inner srv2) = rate_limits (inner srv) \<Longrightarrow>
      Q (Inr \<lparr>ecs_success = True, ecs_message = ''Enrollment successful''\<rparr>, srv2) w'"
  shows "wp (on_server (enroll_complete d \<lparr>ecr_user_id = u, ecr_ciphertext = hex_encode (hexc d) (er_ciphertext resp),
    ecr_dilithium_public_key = hex_encode (hexc d) (er_dilithium_public resp)\<rparr>) srv) Q w"
    (is "wp (on_server (enroll_complete d ?req) srv) Q w")
proof -
  obtain srv2 v2 where c: "enroll_complete d ?req srv w =
      (Some (Inr \<lparr>ecs_success = True, ecs_message = ''Enrollment successful''\<rparr>), srv2, v2)"
    and s: "\<not> poisoned srv2" "users (inner srv2) = (users (inner srv))(u \<mapsto> rc)"
      "rate_limits (inner srv2) = rate_limits (inner srv)"
    using enroll_complete_works [OF assms(2-6)] by metis
  have "server_inv srv2" using c assms(1) server_step_inv server_step.intros by metis
  from assms(7) [OF this s(1) _ s(3)] s(2)
  have "Q (Inr \<lparr>ecs_success = True, ecs_message = ''Enrollment successful''\<rparr>, srv2) v2" by simp
  with c show ?thesis by (rule wp_on_server)
qed

lemma wp_totp_login:
  assumes "server_inv srv" and "\<not> poisoned srv" and "\<not> clock_fails d"
    and "users (inner srv) u = Some rc" and "rate_limits (inner srv) u = None"
    and "generate (sha d) (rec_totp_seed rc) t0 = Some c"
    and "\<And>t. clock_shows d t \<Longrightarrow> unat (abs_diff t0 t) \<le> 30"
    and "\<And>srv' w'. Q (Inr \<lparr>vs_valid = True, vs_message = ''TOTP verified''\<rparr>, srv') w'"
  shows "wp (on_server (server_verify d \<lparr>vr_user_id = u, vr_method = Totp c\<rparr>) srv) Q w"
proof -
  have lim: "limiter d (inner srv) u w = Some (True, (1, request_time d w))"
    using assms(1,2,5) by (intro limiter_first) (simp_all add: server_inv_def limits_ok_def)
  have "\<exists>y. abs_diff y (current_step t) \<le> 1 \<and> generate_at_step (sha d) (rec_totp_seed rc) y = Some c"
    if "clock_shows d t" for t
    using same_step_code [OF assms(6)] step_drift [of t0 t 1] assms(7) [OF that] by (simp add: current_step_def)
  from totp_login [OF assms(2-4) lim this] obtain srv' w' where
    "server_verify d \<lparr>vr_user_id = u, vr_method = Totp c\<rparr> srv w =
      (Some (Inr \<lparr>vs_valid = True, vs_message = ''TOTP verified''\<rparr>), srv', w')" by metis
  then show ?thesis by (rule wp_on_server) (rule assms(8))
qed


lemma wp_enroll_again:
  assumes "\<not> poisoned srv" and "users (inner srv) u = Some rc" and "Q (Inl (UserAlreadyEnrolled u), srv) w"
  shows "wp (on_server (enroll_begin d u) srv) Q w"
proof -
  have "enroll_begin d u srv w = (Some (Inl (UserAlreadyEnrolled u)), srv, w)"
    using assms(1,2) by (cases srv) (auto simp: operation_defs with_lock_def do_enroll_begin_def ret_def)
  then show ?thesis using assms(3) by (rule wp_on_server)
qed

lemma wp_read_audit_log:
  assumes "\<not> poisoned srv" and "Q (audit_log (inner srv), srv) w"
  shows "wp (on_server read_audit_log srv) Q w"
proof -
  have "read_audit_log srv w = (Some (audit_log (inner srv)), srv, w)"
    using assms(1) by (cases srv) (simp add: read_audit_log_def with_lock_def ret_def)
  then show ?thesis using assms(2) by (rule wp_on_server)
qed

text \<open>\<open>hex::encode\<close> writes two digits per byte.\<close>

definition hex_sizes :: "hex_crate \<Rightarrow> bool" where
  "hex_sizes x \<longleftrightarrow> (\<forall>b. length (hex_encode x b) = 2 * length b)"

lemma new_server [simp]:
  "\<not> poisoned (server_new sid)" "users (inner (server_new sid)) = Map.empty"
  "rate_limits (inner (server_new sid)) = Map.empty" "audit_log (inner (server_new sid)) = []"
  "server_id (inner (server_new sid)) = sid"
  by (simp_all add: server_new_def inner_new_def)

lemma inv_unlimited: "server_inv srv \<Longrightarrow> \<not> poisoned srv \<Longrightarrow> u \<notin> dom (users (inner srv)) \<Longrightarrow> rate_limits (inner srv) u = None"
  unfolding server_inv_def accounts_ok_def by auto

lemma server_tests_pass:
  assumes laws: "hex_law (hexc d)" "hex_sizes (hexc d)" "dilithium3_law (dil d)" "kyber768_law (kyb d)"
    and clock: "\<not> clock_fails d"
  shows "passes (test_duplicate_enrollment_rejected d)" "passes (test_unknown_user_challenge d)"
    "passes (test_audit_log d)"
    "(\<And>t t'. clock_shows d t \<Longrightarrow> clock_shows d t' \<Longrightarrow> unat (abs_diff t t') \<le> 30) \<Longrightarrow>
      passes (test_full_enrollment_and_totp_verify d)"
proof -
  note begins = wp_enroll_begin [OF _ _ clock, OF server_new_inv]
  note rules = wp_keypair_generate wp_client_enroll_with [OF laws(4)] wp_enroll_complete [OF _ _ clock laws(1)]
  show "passes (test_unknown_user_challenge d)"
    by (rule passes_wp) (simp add: test_unknown_user_challenge_def operation_defs do_issue_challenge_def wp_def
        on_server_def io_then_def io_assert_def with_lock_def ret_def)
  show "passes (test_audit_log d)"
    by (rule passes_wp) (auto simp: test_audit_log_def intro!: begins wp_read_audit_log)
  note lengths = generated_lengths [OF laws(3)]
  show "passes (test_duplicate_enrollment_rejected d)"
    by (rule passes_wp, unfold test_duplicate_enrollment_rejected_def Let_def wp_simps(2), rule begins)
      (auto simp: laws intro!: rules lengths wp_enroll_again, simp_all)
  have named: "hex_encode (hexc d) (se_kyber_public se) \<noteq> []" if "fresh_session (kyb d) sid se" for sid se
    using fresh_session_fields(2) [OF that laws(4)] laws(2) unfolding hex_sizes_def by (metis list.size(3) mult_eq_0_iff zero_neq_numeral)
  assume steady: "\<And>t t'. clock_shows d t \<Longrightarrow> clock_shows d t' \<Longrightarrow> unat (abs_diff t t') \<le> 30"
  show "passes (test_full_enrollment_and_totp_verify d)"
    by (rule passes_wp, unfold test_full_enrollment_and_totp_verify_def Let_def wp_simps(2), rule begins)
      (auto simp: laws named totp.gen_eq inv_unlimited intro!: rules lengths wp_io_now [OF clock] wp_totp_login [OF _ _ clock] steady, simp_all+)
qed


section \<open>Properties\<close>

definition protocol_tests :: "('h, 'w) deps \<Rightarrow> (unit, 'w) io list" where
  "protocol_tests d =
     (let r = rnd d; dc = dil d; k = kyb d; s = sha d in
     [test_challenge_response_flow r dc, test_replay_prevention r dc, test_expired_challenge r dc,
      test_clock_skew_tolerance r dc, test_excessive_clock_skew r dc,
      test_prune_keeps_fresh_nonce_unreplayable r dc, test_prune_drops_only_expired_nonces r dc,
      test_full_enrollment_flow s dc k, test_empty_server_id_rejected s dc k,
      test_totp_seed_deterministic_derivation s, test_reject_short_ciphertext s dc k,
      test_reject_invalid_public_key_length s dc k, test_enrollment_totp_integration (build d) s dc k,
      test_full_enrollment_and_totp_verify d, test_duplicate_enrollment_rejected d,
      test_unknown_user_challenge d, test_audit_log d])"

text \<open>C36. Of the 21 unit tests of challenge.rs, enrollment.rs and server.rs, the 17 of \<open>protocol_tests\<close>, which
  expect no hashed or random values to differ, pass for every behaviour of the crates that their laws
  allow and every randomness, on a clock that shows times after 1970 and does not move by more than 30
  seconds while a test runs. The test of the pruning passes even if the generator repeats a nonce.\<close>

theorem protocol_tests_pass:
  assumes "hex_law (hexc d)" and "hex_sizes (hexc d)" and "dilithium3_law (dil d)" and "kyber768_law (kyb d)"
    and "\<not> clock_fails d"
    and "\<And>t t'. clock_shows d t \<Longrightarrow> clock_shows d t' \<Longrightarrow> unat (abs_diff t t') \<le> 30"
  shows "list_all passes (protocol_tests d)"
  by (simp add: protocol_tests_def Let_def challenge_tests_pass [OF assms(3)] enrollment_tests_pass [OF assms(3,4)]
      server_tests_pass [OF assms(1-5)] server_tests_pass(4) [OF assms(1-5) assms(6)])

theorem protocol_tests_pass_witness: "list_all passes (protocol_tests (still Debug 1000))"
proof (rule protocol_tests_pass)
  have "length (hex_text b) = 2 * length b" for b by (induction b) simp_all
  then show "hex_sizes (hexc (still Debug 1000))" by (simp add: hex_sizes_def toy_hex_def)
qed (simp_all add: toy_laws)

end
