(* ===== verification/ChanceTests.thy ===== *)
theory ChanceTests
  imports ProtocolTests
begin

text \<open>
  The unit tests that compare random or hashed values for difference, or that expect a signature, a
  password or a code to be refused. No law of a crate makes them pass: each holds up to one accident of the
  cryptography, a colliding hash, a repeated draw or a forgery. Beside each test stands its accident, an
  executable predicate on the world from which the test starts, in terms of what the crates return from
  there; the test fails exactly in the worlds of its accident, and so has no other cause of failure.
\<close>

definition fails :: "(unit, 'w) io \<Rightarrow> 'w \<Rightarrow> bool" where
  "fails t w \<longleftrightarrow> fst (t w) = None"

lemma passes_never_fails: "passes t \<longleftrightarrow> (\<forall>w. \<not> fails t w)"
  unfolding passes_def fails_def by (metis fst_conv not_None_eq old.unit.exhaust prod.collapse)

section \<open>src/shake\_mac.rs\<close>

definition test_mac_different_keys :: "'h sha3_crate \<Rightarrow> (unit, 'w) io" where
  "test_mac_different_keys s =
     (let msg = as_bytes ''same message'';
          mac1 = shake256_mac s (as_bytes ''key1'') msg 32;
          mac2 = shake256_mac s (as_bytes ''key2'') msg 32
      in io_assert (mac1 \<noteq> mac2))"

definition test_mac_different_messages :: "'h sha3_crate \<Rightarrow> (unit, 'w) io" where
  "test_mac_different_messages s =
     (let key = as_bytes ''same-key'';
          mac1 = shake256_mac s key (as_bytes ''msg1'') 32;
          mac2 = shake256_mac s key (as_bytes ''msg2'') 32
      in io_assert (mac1 \<noteq> mac2))"

definition test_verify_mac_invalid :: "'h sha3_crate \<Rightarrow> (unit, 'w) io" where
  "test_verify_mac_invalid s =
     (let mac = shake_mac_new (as_bytes ''secret'');
          tag = shake_mac_mac s mac (as_bytes ''data'')
      in io_assert (\<not> shake_mac_verify s mac (as_bytes ''wrong'') tag))"

text \<open>The accident of each: SHAKE-256 maps two given texts to the same 32 bytes.\<close>

definition same_hash :: "'h sha3_crate \<Rightarrow> string \<Rightarrow> string \<Rightarrow> 'w \<Rightarrow> bool" where
  "same_hash s a b w \<longleftrightarrow> shake256 s (as_bytes a) 32 = shake256 s (as_bytes b) 32"

section \<open>src/pq\_totp.rs\<close>

definition test_different_window_different_code :: "'h sha3_crate \<Rightarrow> (unit, 'w) io" where
  "test_different_window_different_code s =
     io_then (io_value (generate s TEST_SECRET 1000000)) (\<lambda>code1.
     io_then (io_value (generate s TEST_SECRET 1000030)) (\<lambda>code2.
     io_assert (code1 \<noteq> code2)))"

definition test_verify_outside_window :: "profile \<Rightarrow> 'h sha3_crate \<Rightarrow> (unit, 'w) io" where
  "test_verify_outside_window pf s =
     (let ts = 1000000 in
      io_then (io_value (generate s TEST_SECRET ts)) (\<lambda>code.
      io_then (io_value (verify pf s TEST_SECRET code (ts + 90) 1)) (\<lambda>ok.
      io_assert (\<not> ok))))"

definition test_different_secrets :: "'h sha3_crate \<Rightarrow> (unit, 'w) io" where
  "test_different_secrets s =
     io_then (io_value (generate s (as_bytes ''secret-one-32-bytes-long-aaaaaa'') 1000000)) (\<lambda>code1.
     io_then (io_value (generate s (as_bytes ''secret-two-32-bytes-long-bbbbbb'') 1000000)) (\<lambda>code2.
     io_assert (code1 \<noteq> code2)))"

text \<open>The accident: the code of a step is among the codes of other steps, or of another secret.\<close>

definition same_code :: "'h sha3_crate \<Rightarrow> bytes \<Rightarrow> u64 \<Rightarrow> bytes \<Rightarrow> u64 list \<Rightarrow> 'w \<Rightarrow> bool" where
  "same_code s k step k' steps w \<longleftrightarrow> totp_code s k step \<in> set (map (totp_code s k') steps)"

section \<open>src/dilithium.rs\<close>

definition test_verify_wrong_message :: "'w dilithium3_crate \<Rightarrow> (unit, 'w) io" where
  "test_verify_wrong_message d =
     io_then (io_lift (keypair_generate d)) (\<lambda>kp.
     io_then (io_unwrap (keypair_sign d kp (as_bytes ''original''))) (\<lambda>sig.
     io_assert (\<not> is_ok (keypair_verify d kp (as_bytes ''tampered'') sig))))"

definition test_verify_wrong_key :: "'w dilithium3_crate \<Rightarrow> (unit, 'w) io" where
  "test_verify_wrong_key d =
     io_then (io_lift (keypair_generate d)) (\<lambda>kp1.
     io_then (io_lift (keypair_generate d)) (\<lambda>kp2.
     io_then (io_unwrap (keypair_sign d kp1 (as_bytes ''message''))) (\<lambda>sig.
     io_assert (\<not> is_ok (keypair_verify d kp2 (as_bytes ''message'') sig)))))"

definition test_different_messages_different_sigs :: "'w dilithium3_crate \<Rightarrow> (unit, 'w) io" where
  "test_different_messages_different_sigs d =
     io_then (io_lift (keypair_generate d)) (\<lambda>kp.
     io_then (io_unwrap (keypair_sign d kp (as_bytes ''msg1''))) (\<lambda>sig1.
     io_then (io_unwrap (keypair_sign d kp (as_bytes ''msg2''))) (\<lambda>sig2.
     io_assert (sig1 \<noteq> sig2))))"

text \<open>The accidents: the crate accepts a signature for a message or a key that it was not made for, or
  makes one signature for two messages.\<close>

definition opens_other_message :: "'w dilithium3_crate \<Rightarrow> string \<Rightarrow> string \<Rightarrow> 'w \<Rightarrow> bool" where
  "opens_other_message d m m' w =
     (case d3_keypair d w of ((pk, sk), w1) \<Rightarrow>
      case d3_sign d (as_bytes m) sk w1 of (sg, w2) \<Rightarrow> d3_verify d sg (as_bytes m') pk)"

definition opens_under_other_key :: "'w dilithium3_crate \<Rightarrow> string \<Rightarrow> 'w \<Rightarrow> bool" where
  "opens_under_other_key d m w =
     (case d3_keypair d w of ((pk1, sk1), w1) \<Rightarrow>
      case d3_keypair d w1 of ((pk2, sk2), w2) \<Rightarrow>
      case d3_sign d (as_bytes m) sk1 w2 of (sg, w3) \<Rightarrow> d3_verify d sg (as_bytes m) pk2)"

definition signature_repeats :: "'w dilithium3_crate \<Rightarrow> string \<Rightarrow> string \<Rightarrow> 'w \<Rightarrow> bool" where
  "signature_repeats d m m' w =
     (case d3_keypair d w of ((pk, sk), w1) \<Rightarrow>
      case d3_sign d (as_bytes m) sk w1 of (sg1, w2) \<Rightarrow>
      case d3_sign d (as_bytes m') sk w2 of (sg2, w3) \<Rightarrow> sg1 = sg2)"

section \<open>src/kyber.rs\<close>

definition test_different_keypairs_different_secrets :: "'w kyber768_crate \<Rightarrow> (unit, 'w) io" where
  "test_different_keypairs_different_secrets k =
     io_then (io_lift (kyber_generate k)) (\<lambda>kp1.
     io_then (io_lift (kyber_generate k)) (\<lambda>kp2.
     io_then (io_unwrap (encapsulate k (kyber_public kp1))) (\<lambda>enc1.
     io_then (io_unwrap (encapsulate k (kyber_public kp2))) (\<lambda>enc2.
     io_assert (enc_shared_secret enc1 \<noteq> enc_shared_secret enc2)))))"

definition test_wrong_key_decapsulation :: "'w kyber768_crate \<Rightarrow> (unit, 'w) io" where
  "test_wrong_key_decapsulation k =
     io_then (io_lift (kyber_generate k)) (\<lambda>kp1.
     io_then (io_lift (kyber_generate k)) (\<lambda>kp2.
     io_then (io_unwrap (encapsulate k (kyber_public kp1))) (\<lambda>enc.
     io_then (io_result (decapsulate k kp2 (enc_ciphertext enc))) (\<lambda>wrong_ss.
     io_assert (enc_shared_secret enc \<noteq> wrong_ss)))))"

definition test_multiple_encapsulations_different :: "'w kyber768_crate \<Rightarrow> (unit, 'w) io" where
  "test_multiple_encapsulations_different k =
     io_then (io_lift (kyber_generate k)) (\<lambda>kp.
     io_then (io_unwrap (encapsulate k (kyber_public kp))) (\<lambda>enc1.
     io_then (io_unwrap (encapsulate k (kyber_public kp))) (\<lambda>enc2.
     io_then (io_assert (enc_ciphertext enc1 \<noteq> enc_ciphertext enc2)) (\<lambda>_.
     io_then (io_assert (enc_shared_secret enc1 \<noteq> enc_shared_secret enc2)) (\<lambda>_.
     io_then (io_result (decapsulate k kp (enc_ciphertext enc1))) (\<lambda>ss1.
     io_then (io_result (decapsulate k kp (enc_ciphertext enc2))) (\<lambda>ss2.
     io_then (io_assert (enc_shared_secret enc1 = ss1)) (\<lambda>_.
     io_assert (enc_shared_secret enc2 = ss2)))))))))"

text \<open>The accidents: a shared secret or a ciphertext is drawn twice, or a foreign key recovers the secret.\<close>

definition secrets_repeat :: "'w kyber768_crate \<Rightarrow> 'w \<Rightarrow> bool" where
  "secrets_repeat k w =
     (case k768_keypair k w of ((pk1, sk1), w1) \<Rightarrow>
      case k768_keypair k w1 of ((pk2, sk2), w2) \<Rightarrow>
      case k768_encapsulate k pk1 w2 of ((ss1, ct1), w3) \<Rightarrow>
      case k768_encapsulate k pk2 w3 of ((ss2, ct2), w4) \<Rightarrow> ss1 = ss2)"

definition foreign_key_decapsulates :: "'w kyber768_crate \<Rightarrow> 'w \<Rightarrow> bool" where
  "foreign_key_decapsulates k w =
     (case k768_keypair k w of ((pk1, sk1), w1) \<Rightarrow>
      case k768_keypair k w1 of ((pk2, sk2), w2) \<Rightarrow>
      case k768_encapsulate k pk1 w2 of ((ss, ct), w3) \<Rightarrow> k768_decapsulate k ct sk2 = ss)"

definition encapsulation_repeats :: "'w kyber768_crate \<Rightarrow> 'w \<Rightarrow> bool" where
  "encapsulation_repeats k w =
     (case k768_keypair k w of ((pk, sk), w1) \<Rightarrow>
      case k768_encapsulate k pk w1 of ((ss1, ct1), w2) \<Rightarrow>
      case k768_encapsulate k pk w2 of ((ss2, ct2), w3) \<Rightarrow> ct1 = ct2 \<or> ss1 = ss2)"

section \<open>src/hybrid.rs\<close>

definition test_hybrid_wrong_message :: "'w ed25519_crate \<Rightarrow> 'w dilithium3_crate \<Rightarrow> (unit, 'w) io" where
  "test_hybrid_wrong_message e d =
     io_then (io_lift (hybrid_generate e d)) (\<lambda>kp.
     io_then (io_unwrap (hybrid_sign e d kp (as_bytes ''original''))) (\<lambda>sig.
     io_assert (\<not> is_ok (hybrid_verify e d kp (as_bytes ''tampered'') sig))))"

definition test_hybrid_wrong_key :: "'w ed25519_crate \<Rightarrow> 'w dilithium3_crate \<Rightarrow> (unit, 'w) io" where
  "test_hybrid_wrong_key e d =
     io_then (io_lift (hybrid_generate e d)) (\<lambda>kp1.
     io_then (io_lift (hybrid_generate e d)) (\<lambda>kp2.
     io_then (io_unwrap (hybrid_sign e d kp1 (as_bytes ''message''))) (\<lambda>sig.
     io_assert (\<not> is_ok (verify_hybrid e d (hybrid_public kp2) (as_bytes ''message'') sig)))))"

text \<open>\<open>v[i] ^= 0xff\<close>, which panics out of range.\<close>

definition flip_byte :: "nat \<Rightarrow> bytes \<Rightarrow> bytes option" where
  "flip_byte i v = map_option (\<lambda>b. v[i := b XOR 0xFF]) (index v i)"

definition test_hybrid_corrupted_ed25519_portion :: "'w ed25519_crate \<Rightarrow> 'w dilithium3_crate \<Rightarrow> (unit, 'w) io" where
  "test_hybrid_corrupted_ed25519_portion e d =
     io_then (io_lift (hybrid_generate e d)) (\<lambda>kp.
     io_then (io_unwrap (hybrid_sign e d kp (as_bytes ''msg''))) (\<lambda>sig.
     io_then (io_value (flip_byte 0 sig)) (\<lambda>sig.
     io_assert (\<not> is_ok (hybrid_verify e d kp (as_bytes ''msg'') sig)))))"

definition test_hybrid_corrupted_dilithium_portion :: "'w ed25519_crate \<Rightarrow> 'w dilithium3_crate \<Rightarrow> (unit, 'w) io" where
  "test_hybrid_corrupted_dilithium_portion e d =
     io_then (io_lift (hybrid_generate e d)) (\<lambda>kp.
     io_then (io_unwrap (hybrid_sign e d kp (as_bytes ''msg''))) (\<lambda>sig.
     io_then (io_value (flip_byte (ED25519_SIG_SIZE + 10) sig)) (\<lambda>sig.
     io_assert (\<not> is_ok (hybrid_verify e d kp (as_bytes ''msg'') sig)))))"

text \<open>The accidents: both schemes accept a foreign signature; or the scheme whose part was corrupted
  still accepts it, the other part being genuine.\<close>

definition both_open_other_message :: "'w ed25519_crate \<Rightarrow> 'w dilithium3_crate \<Rightarrow> string \<Rightarrow> string \<Rightarrow> 'w \<Rightarrow> bool" where
  "both_open_other_message e d m m' w =
     (case ed_generate e w of (seed, w1) \<Rightarrow>
      case d3_keypair d w1 of ((pk, sk), w2) \<Rightarrow>
      case d3_sign d (as_bytes m) sk w2 of (sg, w3) \<Rightarrow>
        ed_verify e (ed_verifying_key e seed) (as_bytes m') (ed_sign e seed (as_bytes m)) \<and>
        d3_verify d sg (as_bytes m') pk)"

definition both_open_under_other_key :: "'w ed25519_crate \<Rightarrow> 'w dilithium3_crate \<Rightarrow> string \<Rightarrow> 'w \<Rightarrow> bool" where
  "both_open_under_other_key e d m w =
     (case ed_generate e w of (seed1, w1) \<Rightarrow>
      case d3_keypair d w1 of ((pk1, sk1), w2) \<Rightarrow>
      case ed_generate e w2 of (seed2, w3) \<Rightarrow>
      case d3_keypair d w3 of ((pk2, sk2), w4) \<Rightarrow>
      case d3_sign d (as_bytes m) sk1 w4 of (sg, w5) \<Rightarrow>
        ed_verify e (ed_verifying_key e seed2) (as_bytes m) (ed_sign e seed1 (as_bytes m)) \<and>
        d3_verify d sg (as_bytes m) pk2)"

definition ed25519_accepts_flipped :: "'w ed25519_crate \<Rightarrow> string \<Rightarrow> nat \<Rightarrow> 'w \<Rightarrow> bool" where
  "ed25519_accepts_flipped e m i w =
     (case ed_generate e w of (seed, w1) \<Rightarrow>
        let sg = ed_sign e seed (as_bytes m)
        in ed_verify e (ed_verifying_key e seed) (as_bytes m) (sg[i := sg ! i XOR 0xFF]))"

definition dilithium_accepts_flipped :: "'w ed25519_crate \<Rightarrow> 'w dilithium3_crate \<Rightarrow> string \<Rightarrow> nat \<Rightarrow> 'w \<Rightarrow> bool" where
  "dilithium_accepts_flipped e d m i w =
     (case ed_generate e w of (seed, w1) \<Rightarrow>
      case d3_keypair d w1 of ((pk, sk), w2) \<Rightarrow>
      case d3_sign d (as_bytes m) sk w2 of (sg, w3) \<Rightarrow>
      case d3_sig_from d (sg[i := sg ! i XOR 0xFF]) of
        None \<Rightarrow> False
      | Some sg' \<Rightarrow> d3_verify d sg' (as_bytes m) pk)"

section \<open>Proofs\<close>

lemma fails_assert [simp]: "fails (io_assert b) w \<longleftrightarrow> \<not> b"
  by (simp add: fails_def io_assert_def)

lemma fails_value [simp]: "fails (io_then (io_value (Some v)) f) w \<longleftrightarrow> fails (f v) w"
  by (simp add: fails_def io_then_def io_value_def)

lemma fails_lift [simp]: "fails (io_then (io_lift m) f) w \<longleftrightarrow> (case m w of (x, w') \<Rightarrow> fails (f x) w')"
  by (simp add: fails_def io_then_def io_lift_def split: prod.splits)

lemma fails_unwrap [simp]:
  "fails (io_then (io_unwrap m) f) w \<longleftrightarrow> (case m w of (Inl e, w') \<Rightarrow> True | (Inr x, w') \<Rightarrow> fails (f x) w')"
  by (simp add: fails_def io_then_def io_unwrap_def split: prod.splits sum.splits)

lemma mac_accidents:
  assumes "sha3_law s"
  shows "fails (test_mac_different_keys s) w \<longleftrightarrow> same_hash s ''key1same messagekey1'' ''key2same messagekey2'' w"
    and "fails (test_mac_different_messages s) w \<longleftrightarrow> same_hash s ''same-keymsg1same-key'' ''same-keymsg2same-key'' w"
    and "fails (test_verify_mac_invalid s) w \<longleftrightarrow> same_hash s ''secretwrongsecret'' ''secretdatasecret'' w"
proof -
  have mac: "shake256_mac s (as_bytes k) (as_bytes m) 32 = shake256 s (as_bytes (k @ m @ k)) 32" for k m
    by (simp add: shake256_mac_hash [OF assms] as_bytes_def)
  show "fails (test_mac_different_keys s) w \<longleftrightarrow> same_hash s ''key1same messagekey1'' ''key2same messagekey2'' w"
    by (simp add: test_mac_different_keys_def Let_def mac same_hash_def)
  show "fails (test_mac_different_messages s) w \<longleftrightarrow> same_hash s ''same-keymsg1same-key'' ''same-keymsg2same-key'' w"
    by (simp add: test_mac_different_messages_def Let_def mac same_hash_def)
  show "fails (test_verify_mac_invalid s) w \<longleftrightarrow> same_hash s ''secretwrongsecret'' ''secretdatasecret'' w"
    by (simp add: test_verify_mac_invalid_def Let_def mac same_hash_def shake_mac_verify_def shake_mac_mac_def
        shake_mac_new_def shake256_mac_fixed_eq DEFAULT_MAC_LEN_def ct.same_iff)
qed

lemma near_step:
  assumes "unat k < 2 ^ 63"
  shows "abs_diff x k \<le> 1 \<longleftrightarrow> x \<in> {saturating_sub k 1, k, k + 1 :: u64}"
proof -
  have succ: "unat (k + 1) = unat k + 1" using assms by (simp add: unat_word_ariths)
  have "abs_diff x k \<le> 1 \<longleftrightarrow> unat x \<le> unat k + 1 \<and> unat k \<le> unat x + 1"
    by (auto simp: word_le_nat_alt unat_abs_diff)
  also have "\<dots> \<longleftrightarrow> unat x = unat k - 1 \<or> unat x = unat k \<or> unat x = unat k + 1" by arith
  finally show ?thesis by (simp add: word_unat_eq_iff unat_saturating_sub succ)
qed

lemma verify_three:
  "verify pf s k c t 1 =
     Some (c \<in> set (map (totp_code s k) [saturating_sub (t div TIME_STEP) 1, t div TIME_STEP, t div TIME_STEP + 1]))"
proof -
  have "unat (t div TIME_STEP) < 2 ^ 63" using unat64_bound [of t] by (simp add: unat_step)
  from near_step [OF this] totp.check_eq [OF small_window_fits [of 1 t], of pf s k c]
  show ?thesis by (auto simp del: One_nat_def)
qed

lemma totp_accidents:
  "fails (test_different_window_different_code s) w \<longleftrightarrow> same_code s TEST_SECRET 33333 TEST_SECRET [33334] w"
  "fails (test_verify_outside_window pf s) w \<longleftrightarrow> same_code s TEST_SECRET 33333 TEST_SECRET [33335, 33336, 33337] w"
  "fails (test_different_secrets s) w \<longleftrightarrow>
     same_code s (as_bytes ''secret-one-32-bytes-long-aaaaaa'') 33333
       (as_bytes ''secret-two-32-bytes-long-bbbbbb'') [33333] w"
proof -
  show "fails (test_different_window_different_code s) w \<longleftrightarrow> same_code s TEST_SECRET 33333 TEST_SECRET [33334] w"
    by (simp add: test_different_window_different_code_def totp.gen_eq TIME_STEP_def same_code_def)
  show "fails (test_verify_outside_window pf s) w \<longleftrightarrow> same_code s TEST_SECRET 33333 TEST_SECRET [33335, 33336, 33337] w"
    by (simp add: test_verify_outside_window_def totp.gen_eq verify_three TIME_STEP_def same_code_def saturating_sub_def)
  show "fails (test_different_secrets s) w \<longleftrightarrow>
     same_code s (as_bytes ''secret-one-32-bytes-long-aaaaaa'') 33333
       (as_bytes ''secret-two-32-bytes-long-bbbbbb'') [33333] w"
    by (simp add: test_different_secrets_def totp.gen_eq TIME_STEP_def same_code_def)
qed

lemma dilithium_draw:
  assumes "dilithium3_law d"
  obtains pk sk w' where "keypair_generate d w = (\<lparr>public_key = pk, secret_key = sk\<rparr>, w')"
    and "d3_keypair d w = ((pk, sk), w')" and "d3_pk_from d pk = Some pk"
    and "\<And>m v. keypair_sign d \<lparr>public_key = pk, secret_key = sk\<rparr> m v = (case d3_sign d m sk v of (sg, v') \<Rightarrow> (Inr sg, v'))"
    and "\<And>m v sg v'. d3_sign d m sk v = (sg, v') \<Longrightarrow> length sg = 3309 \<and> d3_sig_from d sg = Some sg \<and> d3_verify d sg m pk"
proof -
  obtain pk sk w' where w': "d3_keypair d w = ((pk, sk), w')" by (metis prod_cases3 surj_pair)
  then have pair: "d3_pair d pk sk" unfolding d3_pair_def by (metis fst_conv)
  note laws = dilithium3_lawD [OF assms pair]
  show thesis
    by (rule that [OF _ w' laws(3)]) (use w' laws(4,5) in \<open>simp_all add: keypair_generate_def keypair_sign_def\<close>)
qed

lemma dilithium_accidents:
  assumes "dilithium3_law d"
  shows "fails (test_verify_wrong_message d) w \<longleftrightarrow> opens_other_message d ''original'' ''tampered'' w"
    and "fails (test_verify_wrong_key d) w \<longleftrightarrow> opens_under_other_key d ''message'' w"
    and "fails (test_different_messages_different_sigs d) w \<longleftrightarrow> signature_repeats d ''msg1'' ''msg2'' w"
proof -
  obtain pk sk w1 where kp: "keypair_generate d w = (\<lparr>public_key = pk, secret_key = sk\<rparr>, w1)"
    "d3_keypair d w = ((pk, sk), w1)" "d3_pk_from d pk = Some pk"
    and sign: "\<And>m v. keypair_sign d \<lparr>public_key = pk, secret_key = sk\<rparr> m v = (case d3_sign d m sk v of (sg, v') \<Rightarrow> (Inr sg, v'))"
    and made: "\<And>m v sg v'. d3_sign d m sk v = (sg, v') \<Longrightarrow> length sg = 3309 \<and> d3_sig_from d sg = Some sg \<and> d3_verify d sg m pk"
    by (rule dilithium_draw [OF assms, of w]) (rule that)
  obtain sg w2 where sg: "d3_sign d (as_bytes ''original'') sk w1 = (sg, w2)" by fastforce
  show "fails (test_verify_wrong_message d) w \<longleftrightarrow> opens_other_message d ''original'' ''tampered'' w"
    by (simp add: test_verify_wrong_message_def opens_other_message_def sign made [OF sg] sg kp keypair_verify_def verify_detached_def)
  obtain pk2 sk2 w2 where kp2: "keypair_generate d w1 = (\<lparr>public_key = pk2, secret_key = sk2\<rparr>, w2)"
    "d3_keypair d w1 = ((pk2, sk2), w2)" "d3_pk_from d pk2 = Some pk2"
    using dilithium_draw [OF assms, of w1] by metis
  obtain sg w3 where sg: "d3_sign d (as_bytes ''message'') sk w2 = (sg, w3)" by fastforce
  show "fails (test_verify_wrong_key d) w \<longleftrightarrow> opens_under_other_key d ''message'' w"
    by (simp add: test_verify_wrong_key_def opens_under_other_key_def sign sg made [OF sg] kp kp2
        keypair_verify_def verify_detached_def)
  obtain sg w2 sg' w3 where sg: "d3_sign d (as_bytes ''msg1'') sk w1 = (sg, w2)"
    "d3_sign d (as_bytes ''msg2'') sk w2 = (sg', w3)" by fastforce
  show "fails (test_different_messages_different_sigs d) w \<longleftrightarrow> signature_repeats d ''msg1'' ''msg2'' w"
    by (simp add: test_different_messages_different_sigs_def signature_repeats_def sign sg kp)
qed

lemma fails_result [simp]:
  "fails (io_then (io_result r) f) w \<longleftrightarrow> (case r of Inl e \<Rightarrow> True | Inr x \<Rightarrow> fails (f x) w)"
  by (simp add: fails_def io_then_def io_result_def split: sum.splits)

lemma fails_assert_then [simp]: "fails (io_then (io_assert b) f) w \<longleftrightarrow> (if b then fails (f ()) w else True)"
  by (simp add: fails_def io_then_def io_assert_def)

lemma kyber_draw:
  assumes "kyber768_law k"
  obtains pk sk w' where "kyber_generate k w = (\<lparr>kyber_public = pk, kyber_secret = sk\<rparr>, w')"
    and "k768_keypair k w = ((pk, sk), w')" and "k768_sk_from k sk = Some sk"
    and "\<And>v. encapsulate k pk v = (case k768_encapsulate k pk v of ((ss, ct), v') \<Rightarrow>
      (Inr \<lparr>enc_ciphertext = ct, enc_shared_secret = ss\<rparr>, v'))"
    and "\<And>v ss ct v'. k768_encapsulate k pk v = ((ss, ct), v') \<Longrightarrow>
      length ct = 1088 \<and> k768_ct_from k ct = Some ct \<and> k768_decapsulate k ct sk = ss"
proof -
  obtain pk sk w' where w': "k768_keypair k w = ((pk, sk), w')" by (metis prod_cases3 surj_pair)
  then have pair: "k768_pair k pk sk" unfolding k768_pair_def by (metis fst_conv)
  note laws = kyber768_lawD [OF assms pair]
  show thesis
  proof (rule that [OF _ w' laws(4)])
    show "length ct = 1088 \<and> k768_ct_from k ct = Some ct \<and> k768_decapsulate k ct sk = ss"
      if "k768_encapsulate k pk v = ((ss, ct), v')" for v ss ct v' using laws(5) [OF that] by blast
  qed (use w' laws(3) in \<open>simp_all add: kyber_generate_def encapsulate_def\<close>)
qed

lemma kyber_accidents:
  assumes "kyber768_law k"
  shows "fails (test_different_keypairs_different_secrets k) w \<longleftrightarrow> secrets_repeat k w"
    and "fails (test_wrong_key_decapsulation k) w \<longleftrightarrow> foreign_key_decapsulates k w"
    and "fails (test_multiple_encapsulations_different k) w \<longleftrightarrow> encapsulation_repeats k w"
proof -
  obtain pk sk w1 where kp: "kyber_generate k w = (\<lparr>kyber_public = pk, kyber_secret = sk\<rparr>, w1)"
    "k768_keypair k w = ((pk, sk), w1)" "k768_sk_from k sk = Some sk"
    "\<And>v. encapsulate k pk v = (case k768_encapsulate k pk v of ((ss, ct), v') \<Rightarrow>
      (Inr \<lparr>enc_ciphertext = ct, enc_shared_secret = ss\<rparr>, v'))"
    and made: "\<And>v ss ct v'. k768_encapsulate k pk v = ((ss, ct), v') \<Longrightarrow>
      length ct = 1088 \<and> k768_ct_from k ct = Some ct \<and> k768_decapsulate k ct sk = ss"
    by (rule kyber_draw [OF assms, of w]) (rule that)
  obtain pk2 sk2 w2 where kp2: "kyber_generate k w1 = (\<lparr>kyber_public = pk2, kyber_secret = sk2\<rparr>, w2)"
    "k768_keypair k w1 = ((pk2, sk2), w2)" "k768_sk_from k sk2 = Some sk2"
    "\<And>v. encapsulate k pk2 v = (case k768_encapsulate k pk2 v of ((ss, ct), v') \<Rightarrow>
      (Inr \<lparr>enc_ciphertext = ct, enc_shared_secret = ss\<rparr>, v'))"
    "\<And>v ss ct v'. k768_encapsulate k pk2 v = ((ss, ct), v') \<Longrightarrow>
      length ct = 1088 \<and> k768_ct_from k ct = Some ct \<and> k768_decapsulate k ct sk2 = ss"
    by (rule kyber_draw [OF assms, of w1]) (rule that)
  show "fails (test_different_keypairs_different_secrets k) w \<longleftrightarrow> secrets_repeat k w"
    by (simp add: test_different_keypairs_different_secrets_def secrets_repeat_def kp kp2 split: prod.splits)
  show "fails (test_wrong_key_decapsulation k) w \<longleftrightarrow> foreign_key_decapsulates k w"
    by (auto simp: test_wrong_key_decapsulation_def foreign_key_decapsulates_def decapsulate_def kp kp2
        dest: made split: prod.splits)
  show "fails (test_multiple_encapsulations_different k) w \<longleftrightarrow> encapsulation_repeats k w"
  proof -
    obtain ss ct v ss' ct' v' where draws: "k768_encapsulate k pk w1 = ((ss, ct), v)" "k768_encapsulate k pk v = ((ss', ct'), v')"
      by (metis prod_cases3 surj_pair)
    show ?thesis
      by (simp add: test_multiple_encapsulations_different_def encapsulation_repeats_def decapsulate_def kp draws
          made [OF draws(1)] made [OF draws(2)])
  qed
qed

lemma hybrid_draw:
  assumes "dilithium3_law d" and "ed25519_law e"
  obtains seed pk sk w1 w2 where
    "hybrid_generate e d w = (\<lparr>ed25519_public = ed_verifying_key e seed, ed25519_secret = seed,
       dilithium_public = pk, dilithium_secret = sk\<rparr>, w2)"
    and "ed_generate e w = (seed, w1)" and "d3_keypair d w1 = ((pk, sk), w2)"
    and "\<And>m v. hybrid_sign e d \<lparr>ed25519_public = ed_verifying_key e seed, ed25519_secret = seed,
       dilithium_public = pk, dilithium_secret = sk\<rparr> m v =
         (case d3_sign d m sk v of (sg, v') \<Rightarrow> (Inr (ed_sign e seed m @ sg), v'))"
    and "\<And>m v sg v'. d3_sign d m sk v = (sg, v') \<Longrightarrow> length sg = 3309 \<and> d3_sig_from d sg = Some sg \<and> d3_verify d sg m pk"
    and "\<And>m. length (ed_sign e seed m) = 64 \<and> ed_verify e (ed_verifying_key e seed) m (ed_sign e seed m)"
    and "\<And>m a b. length a = 64 \<Longrightarrow> length b = 3309 \<Longrightarrow>
      is_ok (verify_hybrid e d \<lparr>hpk_ed25519 = ed_verifying_key e seed, hpk_dilithium = pk\<rparr> m (a @ b)) \<longleftrightarrow>
        ed_verify e (ed_verifying_key e seed) m a \<and>
        (case d3_sig_from d b of None \<Rightarrow> False | Some sg \<Rightarrow> d3_verify d sg m pk)"
proof -
  obtain seed w1 where ed: "ed_generate e w = (seed, w1)" by fastforce
  then have len: "length seed = 32" using ed25519_lawD(1) [OF assms(2)] by blast
  note laws = ed25519_lawD(2-5) [OF assms(2) len]
  obtain pk sk w2 where dil: "keypair_generate d w1 = (\<lparr>public_key = pk, secret_key = sk\<rparr>, w2)"
    "d3_keypair d w1 = ((pk, sk), w2)" "d3_pk_from d pk = Some pk"
    "\<And>m v. keypair_sign d \<lparr>public_key = pk, secret_key = sk\<rparr> m v = (case d3_sign d m sk v of (sg, v') \<Rightarrow> (Inr sg, v'))"
    "\<And>m v sg v'. d3_sign d m sk v = (sg, v') \<Longrightarrow> length sg = 3309 \<and> d3_sig_from d sg = Some sg \<and> d3_verify d sg m pk"
    by (rule dilithium_draw [OF assms(1), of w1]) (rule that)
  show thesis
  proof (rule that [OF _ ed dil(2) _ dil(5)])
    fix m a b :: bytes assume ab: "length a = 64" "length b = 3309"
    show "is_ok (verify_hybrid e d \<lparr>hpk_ed25519 = ed_verifying_key e seed, hpk_dilithium = pk\<rparr> m (a @ b)) \<longleftrightarrow>
        ed_verify e (ed_verifying_key e seed) m a \<and>
        (case d3_sig_from d b of None \<Rightarrow> False | Some sg \<Rightarrow> d3_verify d sg m pk)"
      using ab laws(1,2) dil(3)
      by (auto simp: verify_hybrid_def hybrid_sizes try_into_array_def verify_detached_def Let_def split: option.splits)
  qed (use len laws dil(1,4) ed in \<open>auto simp: hybrid_generate_def hybrid_sign_def try_into_array_def Let_def split: prod.splits\<close>)
qed

lemma hybrid_accidents:
  assumes "dilithium3_law d" and "ed25519_law e"
  shows "fails (test_hybrid_wrong_message e d) w \<longleftrightarrow> both_open_other_message e d ''original'' ''tampered'' w"
    and "fails (test_hybrid_wrong_key e d) w \<longleftrightarrow> both_open_under_other_key e d ''message'' w"
    and "fails (test_hybrid_corrupted_ed25519_portion e d) w \<longleftrightarrow> ed25519_accepts_flipped e ''msg'' 0 w"
    and "fails (test_hybrid_corrupted_dilithium_portion e d) w \<longleftrightarrow> dilithium_accepts_flipped e d ''msg'' 10 w"
proof -
  obtain seed pk sk w1 w2 where kp:
    "hybrid_generate e d w = (\<lparr>ed25519_public = ed_verifying_key e seed, ed25519_secret = seed,
       dilithium_public = pk, dilithium_secret = sk\<rparr>, w2)"
    "ed_generate e w = (seed, w1)" "d3_keypair d w1 = ((pk, sk), w2)"
    and sign: "\<And>m v. hybrid_sign e d \<lparr>ed25519_public = ed_verifying_key e seed, ed25519_secret = seed,
       dilithium_public = pk, dilithium_secret = sk\<rparr> m v =
         (case d3_sign d m sk v of (sg, v') \<Rightarrow> (Inr (ed_sign e seed m @ sg), v'))"
    and made: "\<And>m v sg v'. d3_sign d m sk v = (sg, v') \<Longrightarrow> length sg = 3309 \<and> d3_sig_from d sg = Some sg \<and> d3_verify d sg m pk"
    and ed: "\<And>m. length (ed_sign e seed m) = 64 \<and> ed_verify e (ed_verifying_key e seed) m (ed_sign e seed m)"
    and check: "\<And>m a b. length a = 64 \<Longrightarrow> length b = 3309 \<Longrightarrow>
      is_ok (verify_hybrid e d \<lparr>hpk_ed25519 = ed_verifying_key e seed, hpk_dilithium = pk\<rparr> m (a @ b)) \<longleftrightarrow>
        ed_verify e (ed_verifying_key e seed) m a \<and>
        (case d3_sig_from d b of None \<Rightarrow> False | Some sg \<Rightarrow> d3_verify d sg m pk)"
    by (rule hybrid_draw [OF assms, of w]) (rule that)
  note run = hybrid_verify_def hybrid_public_def kp sign ed check
  obtain sg w3 where sg: "d3_sign d (as_bytes ''original'') sk w2 = (sg, w3)" by fastforce
  show "fails (test_hybrid_wrong_message e d) w \<longleftrightarrow> both_open_other_message e d ''original'' ''tampered'' w"
    by (simp add: test_hybrid_wrong_message_def both_open_other_message_def run sg made [OF sg])
  obtain sg w3 where sg: "d3_sign d (as_bytes ''msg'') sk w2 = (sg, w3)" by fastforce
  show "fails (test_hybrid_corrupted_ed25519_portion e d) w \<longleftrightarrow> ed25519_accepts_flipped e ''msg'' 0 w"
    by (simp add: test_hybrid_corrupted_ed25519_portion_def ed25519_accepts_flipped_def flip_byte_def
        run sg made [OF sg] list_update_append nth_append Let_def)
  show "fails (test_hybrid_corrupted_dilithium_portion e d) w \<longleftrightarrow> dilithium_accepts_flipped e d ''msg'' 10 w"
    by (simp add: test_hybrid_corrupted_dilithium_portion_def dilithium_accepts_flipped_def flip_byte_def
        ED25519_SIG_SIZE_def run sg made [OF sg] list_update_append nth_append Let_def)
  obtain seed2 pk2 sk2 v1 v2 where kp2:
    "hybrid_generate e d w2 = (\<lparr>ed25519_public = ed_verifying_key e seed2, ed25519_secret = seed2,
       dilithium_public = pk2, dilithium_secret = sk2\<rparr>, v2)"
    "ed_generate e w2 = (seed2, v1)" "d3_keypair d v1 = ((pk2, sk2), v2)"
    and check2: "\<And>m a b. length a = 64 \<Longrightarrow> length b = 3309 \<Longrightarrow>
      is_ok (verify_hybrid e d \<lparr>hpk_ed25519 = ed_verifying_key e seed2, hpk_dilithium = pk2\<rparr> m (a @ b)) \<longleftrightarrow>
        ed_verify e (ed_verifying_key e seed2) m a \<and>
        (case d3_sig_from d b of None \<Rightarrow> False | Some sg \<Rightarrow> d3_verify d sg m pk2)"
    by (rule hybrid_draw [OF assms, of w2]) (rule that)
  obtain sg w3 where sg: "d3_sign d (as_bytes ''message'') sk v2 = (sg, w3)" by fastforce
  show "fails (test_hybrid_wrong_key e d) w \<longleftrightarrow> both_open_under_other_key e d ''message'' w"
    by (simp add: test_hybrid_wrong_key_def both_open_under_other_key_def run kp2 check2 sg made [OF sg])
qed

end
