(* ===== verification/ChanceStoreTests.thy ===== *)
theory ChanceStoreTests
  imports ChanceTests
begin

text \<open>
  The rest of the tests up to accidents of the library modules: the recovery codes and the keystore. At
  the end, all of them with their accidents in one table.
\<close>

section \<open>src/recovery.rs\<close>

text \<open>The number of distinct codes is the size of the \<open>HashSet\<close> that the test collects.\<close>

definition test_generate_batch :: "'w rand_crate \<Rightarrow> (unit, 'w) io" where
  "test_generate_batch r =
     io_then (generate_codes r DEFAULT_CODE_COUNT) (\<lambda>cs.
     io_then (io_assert (length cs = DEFAULT_CODE_COUNT)) (\<lambda>_.
     let unique = set (map code cs) in
     io_assert (card unique = DEFAULT_CODE_COUNT)))"

definition test_verify_valid_code :: "'h sha3_crate \<Rightarrow> hex_crate \<Rightarrow> (string \<Rightarrow> string) \<Rightarrow> 'w rand_crate \<Rightarrow> (unit, 'w) io" where
  "test_verify_valid_code s x uni r =
     io_then (generate_codes r 5) (\<lambda>cs.
     let rs = from_codes s x uni cs in
     io_then (io_value (index cs 2)) (\<lambda>c.
     let idx = verify_code s x uni (code c) (codes rs) in
     io_assert (idx = Some 2)))"

definition test_verify_invalid_code :: "'h sha3_crate \<Rightarrow> hex_crate \<Rightarrow> (string \<Rightarrow> string) \<Rightarrow> 'w rand_crate \<Rightarrow> (unit, 'w) io" where
  "test_verify_invalid_code s x uni r =
     io_then (generate_codes r 5) (\<lambda>cs.
     let rs = from_codes s x uni cs in
     io_assert (verify_code s x uni ''XXXX-XXXX-XXXX-XXXX-XXXX-XXXX-XXXX-XXXX'' (codes rs) = None))"

definition test_use_code ::
  "profile \<Rightarrow> 'h sha3_crate \<Rightarrow> hex_crate \<Rightarrow> (string \<Rightarrow> string) \<Rightarrow> 'w rand_crate \<Rightarrow> (unit, 'w) io" where
  "test_use_code pf s x uni r =
     io_then (generate_codes r 3) (\<lambda>cs.
     let rs = from_codes s x uni cs in
     io_then (io_assert (remaining rs = 3)) (\<lambda>_.
     io_then (io_value (index cs 0)) (\<lambda>c0.
     io_then (io_value (use_code pf s x uni (code c0) rs)) (\<lambda>(ok, rs).
     io_then (io_assert ok) (\<lambda>_.
     io_then (io_assert (remaining rs = 2)) (\<lambda>_.
     io_then (io_value (use_code pf s x uni (code c0) rs)) (\<lambda>(ok, rs).
     io_then (io_assert (\<not> ok)) (\<lambda>_.
     io_then (io_assert (remaining rs = 2)) (\<lambda>_.
     io_then (io_value (index cs 1)) (\<lambda>c1.
     io_then (io_value (use_code pf s x uni (code c1) rs)) (\<lambda>(ok, rs).
     io_then (io_assert ok) (\<lambda>_.
     io_assert (remaining rs = 1)))))))))))))"

text \<open>The accidents, on the codes that the generator draws: two codes are equal, or the stored hash of a
  code is that of another one.\<close>

definition drawn_codes :: "'w rand_crate \<Rightarrow> nat \<Rightarrow> 'w \<Rightarrow> string list" where
  "drawn_codes r n w = (case fst (generate_codes r n w) of None \<Rightarrow> [] | Some cs \<Rightarrow> map code cs)"

definition drawn_code_repeats :: "'w rand_crate \<Rightarrow> nat \<Rightarrow> 'w \<Rightarrow> bool" where
  "drawn_code_repeats r n w \<longleftrightarrow> \<not> distinct (drawn_codes r n w)"

definition code_hash :: "'h sha3_crate \<Rightarrow> hex_crate \<Rightarrow> (string \<Rightarrow> string) \<Rightarrow> string \<Rightarrow> bytes" where
  "code_hash s x uni text =
     (let key = as_bytes ''pqauth-recovery-v1''
      in shake256 s (key @ as_bytes (to_uppercase uni (filter (\<lambda>c. c \<noteq> CHR ''-'') text)) @ key) 32)"

definition hash_among ::
  "'h sha3_crate \<Rightarrow> hex_crate \<Rightarrow> (string \<Rightarrow> string) \<Rightarrow> string \<Rightarrow> string list \<Rightarrow> bool" where
  "hash_among s x uni text texts \<longleftrightarrow> code_hash s x uni text \<in> set (map (code_hash s x uni) texts)"

definition third_hash_repeats where
  "third_hash_repeats s x uni r w =
     (let cs = drawn_codes r 5 w in hash_among s x uni (cs ! 2) (take 2 cs))"

definition fixed_text_hash_drawn where
  "fixed_text_hash_drawn s x uni r w =
     hash_among s x uni ''XXXX-XXXX-XXXX-XXXX-XXXX-XXXX-XXXX-XXXX'' (drawn_codes r 5 w)"

definition first_hash_repeats where
  "first_hash_repeats s x uni r w =
     (let cs = drawn_codes r 3 w in hash_among s x uni (cs ! 0) (tl cs))"

section \<open>src/keystore.rs\<close>

definition test_wrong_password ::
  "'p argon2_crate \<Rightarrow> 'c aes_gcm_crate \<Rightarrow> hex_crate \<Rightarrow> 'w rand_crate \<Rightarrow> (unit, 'w) io" where
  "test_wrong_password a g x r =
     (let secret = as_bytes ''secret key material''
      in io_then (io_expect (encrypt a g x r secret (as_bytes ''correct'') ''test'')) (\<lambda>keystore.
         io_then (io_value (decrypt a g x keystore (as_bytes ''wrong''))) (\<lambda>result.
         io_then (io_assert (\<not> is_ok result)) (\<lambda>_.
         io_assert (result = Inl Decrypt)))))"

definition test_different_salts ::
  "'p argon2_crate \<Rightarrow> 'c aes_gcm_crate \<Rightarrow> hex_crate \<Rightarrow> 'w rand_crate \<Rightarrow> (unit, 'w) io" where
  "test_different_salts a g x r =
     (let secret = as_bytes ''same secret'';
          password = as_bytes ''same password''
      in io_then (io_expect (encrypt a g x r secret password ''test'')) (\<lambda>ks1.
         io_then (io_expect (encrypt a g x r secret password ''test'')) (\<lambda>ks2.
         io_then (io_assert (ks_salt ks1 \<noteq> ks_salt ks2)) (\<lambda>_.
         io_then (io_assert (ks_ciphertext ks1 \<noteq> ks_ciphertext ks2)) (\<lambda>_.
         io_then (io_expect (io_value (decrypt a g x ks1 password))) (\<lambda>plain1.
         io_then (io_assert (plain1 = secret)) (\<lambda>_.
         io_then (io_expect (io_value (decrypt a g x ks2 password))) (\<lambda>plain2.
         io_assert (plain2 = secret))))))))) "

definition test_corrupted_ciphertext ::
  "'p argon2_crate \<Rightarrow> 'c aes_gcm_crate \<Rightarrow> hex_crate \<Rightarrow> 'w rand_crate \<Rightarrow> (unit, 'w) io" where
  "test_corrupted_ciphertext a g x r =
     (let secret = as_bytes ''secret'';
          password = as_bytes ''pass''
      in io_then (io_expect (encrypt a g x r secret password ''test'')) (\<lambda>keystore.
         io_then (io_value (hex_decode x (ks_ciphertext keystore))) (\<lambda>ct.
         io_then (io_value (flip_byte 0 ct)) (\<lambda>ct.
         let keystore = keystore\<lparr>ks_ciphertext := hex_encode x ct\<rparr>
         in io_then (io_value (decrypt a g x keystore password)) (\<lambda>result.
            io_assert (result = Inl Decrypt))))))"

text \<open>AES-GCM returns more than the message: it appends the tag.\<close>

definition aes_gcm_tag :: "'c aes_gcm_crate \<Rightarrow> bool" where
  "aes_gcm_tag g \<longleftrightarrow> (\<forall>c n m ct. length n = 12 \<longrightarrow> aes_encrypt g c n m = Inr ct \<longrightarrow> length m < length ct)"

text \<open>
  The accidents: the ciphertext opens under the key of another password, or after its first byte was
  changed; two bundles have one salt or one ciphertext. \<open>sealed\<close> is what the crates return for a
  message and a password: the drawn salt and nonce, and the ciphertext; \<open>cipher_of\<close> is the cipher of
  a password.
\<close>

definition cipher_of :: "'p argon2_crate \<Rightarrow> 'c aes_gcm_crate \<Rightarrow> bytes \<Rightarrow> bytes \<Rightarrow> 'c option" where
  "cipher_of a g pw salt =
     (case argon2_params a ARGON2_M_COST ARGON2_T_COST ARGON2_P_COST (Some 32) of
        Inl _ \<Rightarrow> None
      | Inr p \<Rightarrow> (case argon2_hash a p pw salt of
          Inl _ \<Rightarrow> None
        | Inr fill \<Rightarrow> (case aes_new g (map fill [0..<32]) of Inl _ \<Rightarrow> None | Inr c \<Rightarrow> Some c)))"

definition sealed ::
  "'p argon2_crate \<Rightarrow> 'c aes_gcm_crate \<Rightarrow> 'w rand_crate \<Rightarrow> string \<Rightarrow> string \<Rightarrow> 'w \<Rightarrow> (bytes \<times> bytes \<times> bytes) \<times> 'w" where
  "sealed a g r m pw w =
     (case rand_fill r w of (f, w1) \<Rightarrow>
      case rand_fill r w1 of (h, w2) \<Rightarrow>
      let salt = map f [0..<32]; n = map h [0..<12] in
      ((salt, n,
        case cipher_of a g (as_bytes pw) salt of
          None \<Rightarrow> []
        | Some c \<Rightarrow> (case aes_encrypt g c n (as_bytes m) of Inl _ \<Rightarrow> [] | Inr ct \<Rightarrow> ct)), w2))"

definition opens :: "'p argon2_crate \<Rightarrow> 'c aes_gcm_crate \<Rightarrow> string \<Rightarrow> bytes \<Rightarrow> bytes \<Rightarrow> bytes \<Rightarrow> bool" where
  "opens a g pw salt n ct =
     (case cipher_of a g (as_bytes pw) salt of None \<Rightarrow> False | Some c \<Rightarrow> aes_decrypt g c n ct \<noteq> None)"

definition opens_with_other_password where
  "opens_with_other_password a g r w =
     (case sealed a g r ''secret key material'' ''correct'' w of ((salt, n, ct), _) \<Rightarrow> opens a g ''wrong'' salt n ct)"

definition opens_corrupted where
  "opens_corrupted a g r w =
     (case sealed a g r ''secret'' ''pass'' w of ((salt, n, ct), _) \<Rightarrow> opens a g ''pass'' salt n (ct[0 := ct ! 0 XOR 0xFF]))"

definition bundle_repeats where
  "bundle_repeats a g r w =
     (case sealed a g r ''same secret'' ''same password'' w of ((salt1, _, ct1), w1) \<Rightarrow>
      case sealed a g r ''same secret'' ''same password'' w1 of ((salt2, _, ct2), _) \<Rightarrow> salt1 = salt2 \<or> ct1 = ct2)"

section \<open>Proofs\<close>

lemma code_hash_stored:
  assumes "sha3_law s" and "hex_law x"
  shows "hash (hash_code s x uni a) = hash (hash_code s x uni b) \<longleftrightarrow> code_hash s x uni a = code_hash s x uni b"
proof -
  have "hash (hash_code s x uni t) = hex_encode x (code_hash s x uni t)" for t
    by (simp add: hash_code_def code_hash_def Let_def shake256_mac_hash [OF assms(1)])
  moreover have "inj (hex_encode x)" using assms(2) by (metis hex_lawD injI option.inject)
  ultimately show ?thesis by (simp add: inj_eq)
qed

lemma drawn:
  assumes "rand_law r"
  obtains cs w' where "generate_codes r n w = (Some cs, w')" "length cs = n" "drawn_codes r n w = map code cs"
  using generate_codes_ascii [OF assms, of n w] unfolding drawn_codes_def by (metis fst_conv option.simps(5))

lemma fails_draw [simp]:
  "fails (io_then (generate_codes r n) f) w \<longleftrightarrow>
     (case generate_codes r n w of (None, w') \<Rightarrow> True | (Some cs, w') \<Rightarrow> fails (f cs) w')"
  by (simp add: fails_def io_then_def split: prod.splits option.splits)

lemma used_hash_code [simp]: "\<not> used (hash_code s x uni c)"
  by (simp add: hash_code_def Let_def)

lemma recovery_accidents:
  assumes "rand_law r" and "sha3_law s" and "hex_law x"
  shows "fails (test_generate_batch r) w \<longleftrightarrow> drawn_code_repeats r 10 w"
    and "fails (test_verify_valid_code s x uni r) w \<longleftrightarrow> third_hash_repeats s x uni r w"
    and "fails (test_verify_invalid_code s x uni r) w \<longleftrightarrow> fixed_text_hash_drawn s x uni r w"
    and "fails (test_use_code pf s x uni r) w \<longleftrightarrow> first_hash_repeats s x uni r w"
proof -
  note hashes = code_hash_stored [OF assms(2,3), of uni]
  obtain cs w' where cs: "generate_codes r 10 w = (Some cs, w')" "length cs = 10" "drawn_codes r 10 w = map code cs"
    by (rule drawn [OF assms(1)])
  show "fails (test_generate_batch r) w \<longleftrightarrow> drawn_code_repeats r 10 w"
    using card_distinct [of "map code cs"] distinct_card [of "map code cs"] cs
    by (auto simp: test_generate_batch_def drawn_code_repeats_def DEFAULT_CODE_COUNT_def Let_def)
  obtain cs w' where cs: "generate_codes r 5 w = (Some cs, w')" "length cs = 5" "drawn_codes r 5 w = map code cs"
    by (rule drawn [OF assms(1)])
  obtain c0 c1 c2 c3 c4 where five: "cs = [c0, c1, c2, c3, c4]"
    using cs(2) by (auto simp: numeral_eq_Suc length_Suc_conv)
  show "fails (test_verify_invalid_code s x uni r) w \<longleftrightarrow> fixed_text_hash_drawn s x uni r w"
    using cs
    by (auto simp: test_verify_invalid_code_def fixed_text_hash_drawn_def hash_among_def from_codes_def verify_code_eq
        position_None image_iff hashes [symmetric] Let_def dest: sym)
  show "fails (test_verify_valid_code s x uni r) w \<longleftrightarrow> third_hash_repeats s x uni r w"
    using cs unfolding five
    by (auto simp: test_verify_valid_code_def third_hash_repeats_def hash_among_def from_codes_def verify_code_eq
        hashes [symmetric] index_def Let_def)
  obtain cs w' where cs: "generate_codes r 3 w = (Some cs, w')" "length cs = 3" "drawn_codes r 3 w = map code cs"
    by (rule drawn [OF assms(1)])
  obtain c0 c1 c2 where three: "cs = [c0, c1, c2]"
    using cs(2) by (auto simp: numeral_eq_Suc length_Suc_conv)
  show "fails (test_use_code pf s x uni r) w \<longleftrightarrow> first_hash_repeats s x uni r w"
    using cs unfolding three
    by (auto simp: test_use_code_def first_hash_repeats_def hash_among_def from_codes_def verify_code_eq use_code_def
        hashes [symmetric] index_def Let_def checked_sub_def)
qed

lemma fails_encrypt [simp]:
  "fails (io_then (io_expect (encrypt a g x r m pw ty)) f) w \<longleftrightarrow>
     (case encrypt a g x r m pw ty w of (Some (Inr ks), w') \<Rightarrow> fails (f ks) w' | _ \<Rightarrow> True)"
  by (simp add: fails_def io_then_def io_expect_def split: prod.splits option.splits sum.splits)

lemma fails_expect_value [simp]:
  "fails (io_then (io_expect (io_value v)) f) w \<longleftrightarrow> (case v of Some (Inr y) \<Rightarrow> fails (f y) w | _ \<Rightarrow> True)"
  by (simp add: fails_def io_then_def io_expect_def io_value_def split: option.splits sum.splits)

lemma derive_key_cipher:
  assumes "argon2_law a" and "aes_gcm_law g" and "8 \<le> length salt" and "length pw < 2 ^ 32"
  obtains k c where "derive_key a pw salt = Inr k" and "aes_new g k = Inr c" and "cipher_of a g pw salt = Some c"
proof -
  obtain p f where p: "argon2_params a ARGON2_M_COST ARGON2_T_COST ARGON2_P_COST (Some 32) = Inr p"
    "argon2_hash a p pw salt = Inr f"
    using assms unfolding argon2_law_def by blast
  moreover obtain c where "aes_new g (map f [0..<32]) = Inr c"
    using aes_gcm_lawD(1) [OF assms(2), of "map f [0..<32]"] by auto
  ultimately show thesis by (intro that) (simp_all add: derive_key_def cipher_of_def)
qed

lemma encrypt_sealed:
  assumes "argon2_law a" and "aes_gcm_law g" and "aes_gcm_capacity g"
    and "length (as_bytes m) < 2 ^ 36" and "length (as_bytes pw) < 2 ^ 32"
  obtains salt n ct c w' where "sealed a g r m pw w = ((salt, n, ct), w')" and "length salt = 32" and "length n = 12"
    and "cipher_of a g (as_bytes pw) salt = Some c" and "aes_encrypt g c n (as_bytes m) = Inr ct"
    and "encrypt a g x r (as_bytes m) (as_bytes pw) ty w = (Some (Inr \<lparr>ks_salt = hex_encode x salt,
      ks_nonce = hex_encode x n, ks_ciphertext = hex_encode x ct, ks_key_type = ty, ks_version = 1\<rparr>), w')"
proof -
  obtain f w1 h w2 where r: "rand_fill r w = (f, w1)" "rand_fill r w1 = (h, w2)" by fastforce
  let ?salt = "map f [0..<32]" and ?n = "map h [0..<12]"
  obtain k c where k: "derive_key a (as_bytes pw) ?salt = Inr k" "aes_new g k = Inr c"
    "cipher_of a g (as_bytes pw) ?salt = Some c"
    using derive_key_cipher [OF assms(1,2) _ assms(5), of ?salt] by auto
  obtain ct where ct: "aes_encrypt g c ?n (as_bytes m) = Inr ct"
    using assms(3,4) k(2) unfolding aes_gcm_capacity_def by (metis length_map length_upt diff_zero)
  show thesis
    by (rule that [of ?salt ?n ct w2 c])
      (use r k ct aes_gcm_lawD(2) [OF assms(2), of ?n] in
        \<open>simp_all add: sealed_def encrypt_def keystore_sizes Let_def\<close>)
qed

lemma decrypt_sealed:
  assumes "hex_law x" and "argon2_law a" and "aes_gcm_law g"
    and "length salt = 32" and "length n = 12" and "length (as_bytes pw) < 2 ^ 32"
  shows "decrypt a g x \<lparr>ks_salt = hex_encode x salt, ks_nonce = hex_encode x n,
      ks_ciphertext = hex_encode x ct, ks_key_type = ty, ks_version = 1\<rparr> (as_bytes pw) =
    Some (ok_or Decrypt (case cipher_of a g (as_bytes pw) salt of None \<Rightarrow> None | Some c \<Rightarrow> aes_decrypt g c n ct))"
proof -
  obtain k c where "derive_key a (as_bytes pw) salt = Inr k" "aes_new g k = Inr c" "cipher_of a g (as_bytes pw) salt = Some c"
    using derive_key_cipher [OF assms(2,3) _ assms(6), of salt] assms(4) by auto
  then show ?thesis
    using assms(1,5) aes_gcm_lawD(2) [OF assms(3,5)] by (simp add: decrypt_def keystore_sizes)
qed

lemma ok_or_simps [simp]:
  "is_ok (ok_or e v) \<longleftrightarrow> v \<noteq> None" "ok_or e v = Inl e' \<longleftrightarrow> v = None \<and> e' = e" "ok_or e v = Inr y \<longleftrightarrow> v = Some y"
  by (cases v; auto)+

lemma keystore_accidents:
  assumes laws: "hex_law x" "argon2_law a" "aes_gcm_law g" "aes_gcm_capacity g" "aes_gcm_tag g"
  shows "fails (test_wrong_password a g x r) w \<longleftrightarrow> opens_with_other_password a g r w"
    and "fails (test_different_salts a g x r) w \<longleftrightarrow> bundle_repeats a g r w"
    and "fails (test_corrupted_ciphertext a g x r) w \<longleftrightarrow> opens_corrupted a g r w"
proof -
  note seals = encrypt_sealed [OF laws(2-4)]
  note reads = decrypt_sealed [OF laws(1-3)]
  have hex: "hex_encode x b = hex_encode x b' \<longleftrightarrow> b = b'" for b b'
    using laws(1) by (metis hex_lawD option.inject)
  obtain salt n ct c w' where s: "sealed a g r ''secret key material'' ''correct'' w = ((salt, n, ct), w')"
    "length salt = 32" "length n = 12" "cipher_of a g (as_bytes ''correct'') salt = Some c"
    "aes_encrypt g c n (as_bytes ''secret key material'') = Inr ct"
    "encrypt a g x r (as_bytes ''secret key material'') (as_bytes ''correct'') ''test'' w =
      (Some (Inr \<lparr>ks_salt = hex_encode x salt, ks_nonce = hex_encode x n, ks_ciphertext = hex_encode x ct,
        ks_key_type = ''test'', ks_version = 1\<rparr>), w')"
    by (rule seals [of "''secret key material''" "''correct''"]) (simp, simp, rule that)
  show "fails (test_wrong_password a g x r) w \<longleftrightarrow> opens_with_other_password a g r w"
    using s(1-3,6) reads [OF s(2,3)]
    by (auto simp: test_wrong_password_def opens_with_other_password_def opens_def Let_def split: option.splits)
  obtain salt n ct c w' where s: "sealed a g r ''secret'' ''pass'' w = ((salt, n, ct), w')"
    "length salt = 32" "length n = 12" "cipher_of a g (as_bytes ''pass'') salt = Some c"
    "aes_encrypt g c n (as_bytes ''secret'') = Inr ct"
    "encrypt a g x r (as_bytes ''secret'') (as_bytes ''pass'') ''test'' w =
      (Some (Inr \<lparr>ks_salt = hex_encode x salt, ks_nonce = hex_encode x n, ks_ciphertext = hex_encode x ct,
        ks_key_type = ''test'', ks_version = 1\<rparr>), w')"
    by (rule seals [of "''secret''" "''pass''"]) (simp, simp, rule that)
  have "0 < length ct" using laws(5) s(3,5) unfolding aes_gcm_tag_def by fastforce
  then show "fails (test_corrupted_ciphertext a g x r) w \<longleftrightarrow> opens_corrupted a g r w"
    using s(1-3,6) laws(1) reads [OF s(2,3)]
    by (auto simp: test_corrupted_ciphertext_def opens_corrupted_def opens_def flip_byte_def Let_def split: option.splits)
  obtain salt1 n1 ct1 c1 w1 where s1: "sealed a g r ''same secret'' ''same password'' w = ((salt1, n1, ct1), w1)"
    "length salt1 = 32" "length n1 = 12" "cipher_of a g (as_bytes ''same password'') salt1 = Some c1"
    "aes_encrypt g c1 n1 (as_bytes ''same secret'') = Inr ct1"
    "encrypt a g x r (as_bytes ''same secret'') (as_bytes ''same password'') ''test'' w =
      (Some (Inr \<lparr>ks_salt = hex_encode x salt1, ks_nonce = hex_encode x n1, ks_ciphertext = hex_encode x ct1,
        ks_key_type = ''test'', ks_version = 1\<rparr>), w1)"
    by (rule seals [of "''same secret''" "''same password''"]) (simp, simp, rule that)
  obtain salt2 n2 ct2 c2 w2 where s2: "sealed a g r ''same secret'' ''same password'' w1 = ((salt2, n2, ct2), w2)"
    "length salt2 = 32" "length n2 = 12" "cipher_of a g (as_bytes ''same password'') salt2 = Some c2"
    "aes_encrypt g c2 n2 (as_bytes ''same secret'') = Inr ct2"
    "encrypt a g x r (as_bytes ''same secret'') (as_bytes ''same password'') ''test'' w1 =
      (Some (Inr \<lparr>ks_salt = hex_encode x salt2, ks_nonce = hex_encode x n2, ks_ciphertext = hex_encode x ct2,
        ks_key_type = ''test'', ks_version = 1\<rparr>), w2)"
    by (rule seals [of "''same secret''" "''same password''"]) (simp, simp, rule that)
  have "aes_decrypt g c1 n1 ct1 = Some (as_bytes ''same secret'')" "aes_decrypt g c2 n2 ct2 = Some (as_bytes ''same secret'')"
    using aes_gcm_lawD(3) [OF laws(3)] s1(3,5) s2(3,5) by blast+
  then show "fails (test_different_salts a g x r) w \<longleftrightarrow> bundle_repeats a g r w"
    using s1(1,4,6) s2(1,4,6) reads [OF s1(2,3)] reads [OF s2(2,3)]
    by (simp add: test_different_salts_def bundle_repeats_def hex Let_def)
qed

section \<open>Properties\<close>

definition library_accidents ::
  "profile \<Rightarrow> 'h sha3_crate \<Rightarrow> hex_crate \<Rightarrow> 'w rand_crate \<Rightarrow> 'w dilithium3_crate \<Rightarrow> 'w kyber768_crate \<Rightarrow>
   'w ed25519_crate \<Rightarrow> 'p argon2_crate \<Rightarrow> 'c aes_gcm_crate \<Rightarrow> (string \<Rightarrow> string) \<Rightarrow> ((unit, 'w) io \<times> ('w \<Rightarrow> bool)) list" where
  "library_accidents pf s x r d k e a g uni =
     [(test_mac_different_keys s, same_hash s ''key1same messagekey1'' ''key2same messagekey2''),
      (test_mac_different_messages s, same_hash s ''same-keymsg1same-key'' ''same-keymsg2same-key''),
      (test_verify_mac_invalid s, same_hash s ''secretwrongsecret'' ''secretdatasecret''),
      (test_different_window_different_code s, same_code s TEST_SECRET 33333 TEST_SECRET [33334]),
      (test_verify_outside_window pf s, same_code s TEST_SECRET 33333 TEST_SECRET [33335, 33336, 33337]),
      (test_different_secrets s, same_code s (as_bytes ''secret-one-32-bytes-long-aaaaaa'') 33333
         (as_bytes ''secret-two-32-bytes-long-bbbbbb'') [33333]),
      (test_verify_wrong_message d, opens_other_message d ''original'' ''tampered''),
      (test_verify_wrong_key d, opens_under_other_key d ''message''),
      (test_different_messages_different_sigs d, signature_repeats d ''msg1'' ''msg2''),
      (test_different_keypairs_different_secrets k, secrets_repeat k),
      (test_wrong_key_decapsulation k, foreign_key_decapsulates k),
      (test_multiple_encapsulations_different k, encapsulation_repeats k),
      (test_hybrid_wrong_message e d, both_open_other_message e d ''original'' ''tampered''),
      (test_hybrid_wrong_key e d, both_open_under_other_key e d ''message''),
      (test_hybrid_corrupted_ed25519_portion e d, ed25519_accepts_flipped e ''msg'' 0),
      (test_hybrid_corrupted_dilithium_portion e d, dilithium_accepts_flipped e d ''msg'' 10),
      (test_generate_batch r, drawn_code_repeats r 10),
      (test_verify_valid_code s x uni r, third_hash_repeats s x uni r),
      (test_verify_invalid_code s x uni r, fixed_text_hash_drawn s x uni r),
      (test_use_code pf s x uni r, first_hash_repeats s x uni r),
      (test_wrong_password a g x r, opens_with_other_password a g r),
      (test_different_salts a g x r, bundle_repeats a g r),
      (test_corrupted_ciphertext a g x r, opens_corrupted a g r)]"

text \<open>C38. The other 23 unit tests of the library modules expect two values to differ or a check to
  refuse. Each fails exactly in the worlds of its accident: SHAKE-256 collides on the two envelopes, the
  code of a step is that of another one, the crate draws a secret, a salt or a recovery code twice, or it
  accepts a signature or a ciphertext that was made for something else. In every other world the test
  passes; it has no way to fail in pqauth's own code.\<close>

theorem library_tests_fail_iff:
  assumes "sha3_law s" and "hex_law x" and "rand_law r" and "dilithium3_law d" and "kyber768_law k"
    and "ed25519_law e" and "argon2_law a" and "aes_gcm_law g" and "aes_gcm_capacity g" and "aes_gcm_tag g"
  shows "list_all (\<lambda>(t, accident). \<forall>w. fails t w \<longleftrightarrow> accident w) (library_accidents pf s x r d k e a g uni)"
  by (simp add: library_accidents_def mac_accidents [OF assms(1)] totp_accidents dilithium_accidents [OF assms(4)]
      kyber_accidents [OF assms(5)] hybrid_accidents [OF assms(4,6)] recovery_accidents [OF assms(3,1,2)]
      keystore_accidents [OF assms(2,7-10)])

theorem library_tests_fail_iff_witness:
  "list_all (\<lambda>(t, accident). \<forall>w. fails t w \<longleftrightarrow> accident w)
     (library_accidents Release toy_sha toy_hex toy_rnd toy_dil toy_kyb toy_ed toy_argon toy_aes id)"
proof (rule library_tests_fail_iff)
  show "argon2_law toy_argon" by (simp add: argon2_law_def toy_argon_def)
  show "aes_gcm_capacity toy_aes" by (simp add: aes_gcm_capacity_def toy_aes_def)
  show "aes_gcm_tag toy_aes" by (auto simp: aes_gcm_tag_def toy_aes_def)
qed (simp_all add: toy_laws)

end
