(* ===== verification/ChanceProtocolTests.thy ===== *)
theory ChanceProtocolTests
  imports ChanceTests ProtocolTests
begin

text \<open>
  The tests of the challenge, enrollment and server modules that hold up to an accident of the
  cryptography, each with the accident that makes it fail, as in ChanceTests.
\<close>

section \<open>src/challenge.rs\<close>

definition test_wrong_key_fails :: "'w rand_crate \<Rightarrow> 'w dilithium3_crate \<Rightarrow> (unit, 'w) io" where
  "test_wrong_key_fails r d =
     io_then (io_lift (keypair_generate d)) (\<lambda>keypair1.
     io_then (io_lift (keypair_generate d)) (\<lambda>keypair2.
     let ts = 1000000 in
     io_then (io_lift (challenge_new r ts)) (\<lambda>ch.
     io_then (io_unwrap (respond_to_challenge d keypair1 ch ts)) (\<lambda>response.
     let ver = verifier_new 60;
         (result, ver) = verifier_verify d ver ch response (public_key keypair2) (ts + 1)
     in io_assert (\<not> is_ok result)))))"

text \<open>The accident: a signed challenge opens under a key that another draw returned.\<close>

definition response_opens_under_other_key :: "'w rand_crate \<Rightarrow> 'w dilithium3_crate \<Rightarrow> 'w \<Rightarrow> bool" where
  "response_opens_under_other_key r d w =
     (case d3_keypair d w of ((pk1, sk1), w1) \<Rightarrow>
      case d3_keypair d w1 of ((pk2, sk2), w2) \<Rightarrow>
      case rand_fill r w2 of (f, w3) \<Rightarrow>
      let payload = map f [0..<32] @ u64_to_be 1000000 in
      case d3_sign d payload sk1 w3 of (sg, w4) \<Rightarrow> d3_verify d sg payload pk2)"

section \<open>src/enrollment.rs\<close>

definition test_different_enrollments_different_seeds ::
  "'h sha3_crate \<Rightarrow> 'w dilithium3_crate \<Rightarrow> 'w kyber768_crate \<Rightarrow> (unit, 'w) io" where
  "test_different_enrollments_different_seeds s d k =
     io_then (io_lift (keypair_generate d)) (\<lambda>client_kp.
     io_then (io_lift (server_enrollment_new k ''example.com'')) (\<lambda>server1.
     let challenge1 = enrollment_challenge_of server1 in
     io_then (io_unwrap (client_enroll s k challenge1 (public_key client_kp))) (\<lambda>(resp1, data1).
     io_then (io_result (complete s k server1 resp1)) (\<lambda>_.
     io_then (io_lift (server_enrollment_new k ''example.com'')) (\<lambda>server2.
     let challenge2 = enrollment_challenge_of server2 in
     io_then (io_unwrap (client_enroll s k challenge2 (public_key client_kp))) (\<lambda>(resp2, data2).
     io_then (io_result (complete s k server2 resp2)) (\<lambda>_.
     io_assert (ce_totp_seed data1 \<noteq> ce_totp_seed data2))))))))"

definition test_different_servers_different_seeds ::
  "'h sha3_crate \<Rightarrow> 'w dilithium3_crate \<Rightarrow> 'w kyber768_crate \<Rightarrow> (unit, 'w) io" where
  "test_different_servers_different_seeds s d k =
     io_then (io_lift (keypair_generate d)) (\<lambda>client_kp.
     let shared = replicate 32 0xAB;
         seed1 = derive_totp_seed s shared ''server-a.com'';
         seed2 = derive_totp_seed s shared ''server-b.com''
     in io_then (io_assert (seed1 \<noteq> seed2)) (\<lambda>_.
     io_then (io_lift (server_enrollment_new k ''test.com'')) (\<lambda>server.
     let ch = enrollment_challenge_of server in
     io_then (io_unwrap (client_enroll s k ch (public_key client_kp))) (\<lambda>(resp, _).
     io_then (io_result (complete s k server resp)) (\<lambda>rc.
     io_assert (rec_dilithium_public rc = public_key client_kp))))))"

text \<open>The accidents: two seed inputs have one hash.\<close>

definition seed_hash :: "'h sha3_crate \<Rightarrow> bytes \<Rightarrow> string \<Rightarrow> bytes" where
  "seed_hash s secret server = shake256 s (as_bytes ''pqauth-totp-seed-v1'' @ secret @ as_bytes server) 32"

definition seeds_repeat :: "'h sha3_crate \<Rightarrow> 'w dilithium3_crate \<Rightarrow> 'w kyber768_crate \<Rightarrow> 'w \<Rightarrow> bool" where
  "seeds_repeat s d k w =
     (case d3_keypair d w of (_, w1) \<Rightarrow>
      case k768_keypair k w1 of ((pk1, _), w2) \<Rightarrow>
      case k768_encapsulate k pk1 w2 of ((ss1, _), w3) \<Rightarrow>
      case k768_keypair k w3 of ((pk2, _), w4) \<Rightarrow>
      case k768_encapsulate k pk2 w4 of ((ss2, _), w5) \<Rightarrow>
        seed_hash s ss1 ''example.com'' = seed_hash s ss2 ''example.com'')"

definition servers_share_seed :: "'h sha3_crate \<Rightarrow> 'w \<Rightarrow> bool" where
  "servers_share_seed s w \<longleftrightarrow>
     seed_hash s (replicate 32 0xAB) ''server-a.com'' = seed_hash s (replicate 32 0xAB) ''server-b.com''"

section \<open>src/server.rs\<close>

definition test_invalid_totp_rejected :: "('h, 'w) deps \<Rightarrow> (unit, 'w) io" where
  "test_invalid_totp_rejected d =
     (let server = server_new ''test.pqauth.dev'' in
      io_then (on_server (enroll_begin d ''bob'') server) (\<lambda>(begin, server).
      io_then (io_result begin) (\<lambda>begin.
      io_then (io_lift (keypair_generate (dil d))) (\<lambda>client_kp.
      io_then (io_value (hex_decode (hexc d) (eb_kyber_public_key begin))) (\<lambda>key.
      let ch = \<lparr>ec_kyber_public = key, ec_server_id = eb_server_id begin\<rparr> in
      io_then (io_unwrap (client_enroll (sha d) (kyb d) ch (public_key client_kp))) (\<lambda>(resp, _).
      io_then (on_server (enroll_complete d \<lparr>ecr_user_id = ''bob'',
            ecr_ciphertext = hex_encode (hexc d) (er_ciphertext resp),
            ecr_dilithium_public_key = hex_encode (hexc d) (er_dilithium_public resp)\<rparr>) server) (\<lambda>(complete, server).
      io_then (io_result complete) (\<lambda>_.
      io_then (on_server (server_verify d \<lparr>vr_user_id = ''bob'', vr_method = Totp 0\<rparr>) server) (\<lambda>(result, server).
      io_then (io_result result) (\<lambda>result.
      io_assert (\<not> vs_valid result)))))))))))"

text \<open>
  The accident: 0 is the code of one of the three steps around the time that \<open>verify\<close> reads. The
  enrollment of the test reads the clock for two audit entries and the check reads it once for the
  limiter before it reads the time of the code; the seed is the hash of the encapsulated secret.
\<close>

definition clock_after :: "('h, 'w) deps \<Rightarrow> 'w \<Rightarrow> 'w" where
  "clock_after d w = snd (clock_secs (os d) w)"

definition zero_is_current_code :: "('h, 'w) deps \<Rightarrow> 'w \<Rightarrow> bool" where
  "zero_is_current_code d w =
     (case k768_keypair (kyb d) w of ((pk, _), w1) \<Rightarrow>
      case d3_keypair (dil d) (clock_after d w1) of (_, w2) \<Rightarrow>
      case k768_encapsulate (kyb d) pk w2 of ((ss, _), w3) \<Rightarrow>
      let seed = seed_hash (sha d) ss ''test.pqauth.dev'';
          step = request_time d (clock_after d (clock_after d w3)) div 30
      in 0 \<in> set (map (totp_code (sha d) seed) [saturating_sub step 1, step, step + 1]))"

section \<open>Proofs\<close>

lemma challenge_accident:
  assumes "dilithium3_law d"
  shows "fails (test_wrong_key_fails r d) w \<longleftrightarrow> response_opens_under_other_key r d w"
proof -
  obtain pk sk w1 where kp: "keypair_generate d w = (\<lparr>public_key = pk, secret_key = sk\<rparr>, w1)"
    "d3_keypair d w = ((pk, sk), w1)" "d3_pk_from d pk = Some pk"
    and sign: "\<And>m v. keypair_sign d \<lparr>public_key = pk, secret_key = sk\<rparr> m v = (case d3_sign d m sk v of (sg, v') \<Rightarrow> (Inr sg, v'))"
    and made: "\<And>m v sg v'. d3_sign d m sk v = (sg, v') \<Longrightarrow> length sg = 3309 \<and> d3_sig_from d sg = Some sg \<and> d3_verify d sg m pk"
    by (rule dilithium_draw [OF assms, of w]) (rule that)
  obtain pk2 sk2 w2 where kp2: "keypair_generate d w1 = (\<lparr>public_key = pk2, secret_key = sk2\<rparr>, w2)"
    "d3_keypair d w1 = ((pk2, sk2), w2)" "d3_pk_from d pk2 = Some pk2"
    by (rule dilithium_draw [OF assms, of w1]) (rule that)
  obtain f w3 where f: "rand_fill r w2 = (f, w3)" by fastforce
  obtain sg w4 where sg: "d3_sign d (map f [0..<32] @ u64_to_be 1000000) sk w3 = (sg, w4)" by fastforce
  show ?thesis
    by (simp add: test_wrong_key_fails_def response_opens_under_other_key_def challenge_new_def respond_to_challenge_def
        verifier_defs verify_detached_def kp kp2 f sign sg made [OF sg] Let_def)
qed

lemma enrollment_accidents:
  assumes "dilithium3_law d" and "kyber768_law k"
  shows "fails (test_different_enrollments_different_seeds s d k) w \<longleftrightarrow> seeds_repeat s d k w"
    and "fails (test_different_servers_different_seeds s d k) w \<longleftrightarrow> servers_share_seed s w"
proof -
  note sizes = enrollment_sizes server_enrollment_new_def client_enroll_def complete_def decapsulate_def
    enrollment_challenge_of_def derive_totp_seed_eq seed_hash_def TOTP_SEED_DOMAIN_def Let_def
  obtain pk sk w1 where kp: "keypair_generate d w = (\<lparr>public_key = pk, secret_key = sk\<rparr>, w1)"
    "d3_keypair d w = ((pk, sk), w1)"
    by (rule dilithium_draw [OF assms(1), of w]) (rule that)
  then have "length pk = 1952" using generated_lengths(1) [OF assms(1) generated_keypair_generate] by fastforce
  note kp = kp this
  obtain ek dk w2 where ek: "kyber_generate k w1 = (\<lparr>kyber_public = ek, kyber_secret = dk\<rparr>, w2)"
    "k768_keypair k w1 = ((ek, dk), w2)" "k768_sk_from k dk = Some dk"
    "\<And>v. encapsulate k ek v = (case k768_encapsulate k ek v of ((ss, ct), v') \<Rightarrow>
      (Inr \<lparr>enc_ciphertext = ct, enc_shared_secret = ss\<rparr>, v'))"
    and made: "\<And>v ss ct v'. k768_encapsulate k ek v = ((ss, ct), v') \<Longrightarrow>
      length ct = 1088 \<and> k768_ct_from k ct = Some ct \<and> k768_decapsulate k ct dk = ss"
    by (rule kyber_draw [OF assms(2), of w1]) (rule that)
  obtain ss ct w3 where draw: "k768_encapsulate k ek w2 = ((ss, ct), w3)" by (metis prod_cases3 surj_pair)
  show "fails (test_different_servers_different_seeds s d k) w \<longleftrightarrow> servers_share_seed s w"
    by (simp add: test_different_servers_different_seeds_def servers_share_seed_def sizes kp ek draw made [OF draw])
  obtain ek' dk' w4 where ek': "kyber_generate k w3 = (\<lparr>kyber_public = ek', kyber_secret = dk'\<rparr>, w4)"
    "k768_keypair k w3 = ((ek', dk'), w4)" "k768_sk_from k dk' = Some dk'"
    "\<And>v. encapsulate k ek' v = (case k768_encapsulate k ek' v of ((ss, ct), v') \<Rightarrow>
      (Inr \<lparr>enc_ciphertext = ct, enc_shared_secret = ss\<rparr>, v'))"
    and made': "\<And>v ss ct v'. k768_encapsulate k ek' v = ((ss, ct), v') \<Longrightarrow>
      length ct = 1088 \<and> k768_ct_from k ct = Some ct \<and> k768_decapsulate k ct dk' = ss"
    by (rule kyber_draw [OF assms(2), of w3]) (rule that)
  obtain ss' ct' w5 where draw': "k768_encapsulate k ek' w4 = ((ss', ct'), w5)" by (metis prod_cases3 surj_pair)
  show "fails (test_different_enrollments_different_seeds s d k) w \<longleftrightarrow> seeds_repeat s d k w"
    by (simp add: test_different_enrollments_different_seeds_def seeds_repeat_def sizes kp ek ek' draw draw'
        made [OF draw] made' [OF draw'])
qed

lemma clock_reads:
  assumes "\<not> clock_fails d"
  shows "clock_secs (os d) w = (request_time d w, clock_after d w)" "secs_since_epoch (request_time d w) = Some (request_time d w)"
  using assms by (auto simp: request_time_def clock_after_def clock_fails_def secs_since_epoch_def not_less)

lemma fails_on_server [simp]:
  "fails (io_then (on_server f srv) g) w \<longleftrightarrow>
     (case f srv w of (None, srv', w') \<Rightarrow> True | (Some r, srv', w') \<Rightarrow> fails (g (r, srv')) w')"
  by (simp add: fails_def io_then_def on_server_def split: prod.splits option.splits)

lemma server_accident:
  assumes "hex_law (hexc d)" and "dilithium3_law (dil d)" and "kyber768_law (kyb d)" and "\<not> clock_fails d"
  shows "fails (test_invalid_totp_rejected d) w \<longleftrightarrow> zero_is_current_code d w"
proof -
  obtain ek dk w1 where ek: "kyber_generate (kyb d) w = (\<lparr>kyber_public = ek, kyber_secret = dk\<rparr>, w1)"
    "k768_keypair (kyb d) w = ((ek, dk), w1)" "k768_sk_from (kyb d) dk = Some dk"
    "\<And>v. encapsulate (kyb d) ek v = (case k768_encapsulate (kyb d) ek v of ((ss, ct), v') \<Rightarrow>
      (Inr \<lparr>enc_ciphertext = ct, enc_shared_secret = ss\<rparr>, v'))"
    and made: "\<And>v ss ct v'. k768_encapsulate (kyb d) ek v = ((ss, ct), v') \<Longrightarrow>
      length ct = 1088 \<and> k768_ct_from (kyb d) ct = Some ct \<and> k768_decapsulate (kyb d) ct dk = ss"
    by (rule kyber_draw [OF assms(3), of w]) (rule that)
  obtain pk sk w2 where kp: "keypair_generate (dil d) (clock_after d w1) = (\<lparr>public_key = pk, secret_key = sk\<rparr>, w2)"
    "d3_keypair (dil d) (clock_after d w1) = ((pk, sk), w2)"
    by (rule dilithium_draw [OF assms(2), of "clock_after d w1"]) (rule that)
  then have "length pk = 1952" using generated_lengths(1) [OF assms(2) generated_keypair_generate] by fastforce
  note kp = kp this
  obtain ss ct w3 where draw: "k768_encapsulate (kyb d) ek w2 = ((ss, ct), w3)" by (metis prod_cases3 surj_pair)
  note exchange = enrollment_sizes server_enrollment_new_def client_enroll_def complete_def decapsulate_def
    enrollment_challenge_of_def derive_totp_seed_eq seed_hash_def TOTP_SEED_DOMAIN_def
  note server = operation_defs with_lock_def do_enroll_begin_def do_enroll_complete_def do_verify_def bodies audit_def
    check_rate_limit_def verify_totp_arm_def server_new_def inner_new_def clock_reads [OF assms(4)] completion_of_def
    entry_or_insert_def rate_entry_step_def checked_sub_le checked_add_small verify_three
  show ?thesis
    by (simp add: test_invalid_totp_rejected_def zero_is_current_code_def exchange server kp ek draw made [OF draw] assms(1) TIME_STEP_def)
qed

section \<open>Properties\<close>

definition protocol_accidents :: "('h, 'w) deps \<Rightarrow> ((unit, 'w) io \<times> ('w \<Rightarrow> bool)) list" where
  "protocol_accidents d =
     [(test_wrong_key_fails (rnd d) (dil d), response_opens_under_other_key (rnd d) (dil d)),
      (test_different_enrollments_different_seeds (sha d) (dil d) (kyb d), seeds_repeat (sha d) (dil d) (kyb d)),
      (test_different_servers_different_seeds (sha d) (dil d) (kyb d), servers_share_seed (sha d)),
      (test_invalid_totp_rejected d, zero_is_current_code d)]"

text \<open>C39. The other four unit tests of the protocol modules fail exactly in the worlds of their
  accidents. In particular the server's test of a wrong one-time code, which sends the code 0, fails when
  0 is the code of one of the three steps around the time at which the server reads its clock for the
  fourth time, under the seed of the secret that the test's own enrollment draws; on a clock after 1970
  neither the enrollment nor the limiter nor the audit log can make it fail.\<close>

theorem protocol_tests_fail_iff:
  assumes "hex_law (hexc d)" and "dilithium3_law (dil d)" and "kyber768_law (kyb d)" and "\<not> clock_fails d"
  shows "list_all (\<lambda>(t, accident). \<forall>w. fails t w \<longleftrightarrow> accident w) (protocol_accidents d)"
  by (simp add: protocol_accidents_def challenge_accident [OF assms(2)] enrollment_accidents [OF assms(2,3)]
      server_accident [OF assms])

theorem protocol_tests_fail_iff_witness:
  "list_all (\<lambda>(t, accident). \<forall>w. fails t w \<longleftrightarrow> accident w) (protocol_accidents (still Release 1000))"
  by (rule protocol_tests_fail_iff) (simp_all add: toy_laws)

end
