(* ===== verification/Spec2Isabelle.thy ===== *)
theory Spec2Isabelle
  imports PqTotp Hybrid Kyber Challenge Enrollment Recovery Keystore RateLimit Server Serde ServerRuns
    ServerProperties Http Bench Cli Concurrency
    LibraryTests ProtocolTests ChanceStoreTests ChanceProtocolTests
begin

text \<open>
  A verification development of pqauth, a Rust library, server and command line for two-factor
  authentication with post-quantum cryptography.

  \<^bold>\<open>The program.\<close> \<open>src/shake_mac.rs\<close> builds a MAC from SHAKE-256; \<open>src/pq_totp.rs\<close> makes and checks
  time-based codes with it; \<open>src/dilithium.rs\<close>, \<open>src/kyber.rs\<close> and \<open>src/hybrid.rs\<close> wrap signatures and
  key encapsulation; \<open>src/challenge.rs\<close> has challenges, signed responses and a verifier that prevents
  replay; \<open>src/enrollment.rs\<close> gives client and server a common TOTP seed; \<open>src/recovery.rs\<close> and
  \<open>src/keystore.rs\<close> keep backup codes and encrypted keys. \<open>src/server.rs\<close> puts enrollment, challenges,
  codes, a rate limiter and an audit log behind one mutex, and \<open>src/main.rs\<close> offers it over HTTP next to
  a few commands.

  \<^bold>\<open>Conventions.\<close> Integers are words of their width, byte vectors lists of 8-bit words, strings their
  UTF-8 bytes, hash maps functions to \<open>option\<close>. A \<open>Result\<close> is a sum with the error on the left, a panic
  is \<open>None\<close> around it. Overflow follows the build profile (\<open>Debug\<close> panics, \<open>Release\<close> wraps), an argument
  of every operation that can overflow. The crates and the operating system are records of functions
  (theory Crates) with one predicate per crate that states its documented behaviour (\<open>sha3_law\<close>,
  \<open>dilithium3_law\<close>, ...); only theorems that need a law assume it. Randomness and time are read from a
  world \<open>'w\<close> that is threaded through; a property that quantifies over worlds holds whatever the
  clock and the generator do between the reads.

  \<^bold>\<open>Theories.\<close>
  \<^item> PqPrelude: types, standard-library operations, words, decimal text, transition systems.
  \<^item> Crates, Instances: the parameters, their laws, and concrete instances for the witnesses.
  \<^item> Io: straight-line code that can panic, with weakest preconditions; used by Bench and the tests.
  \<^item> ShakeMac, PqTotp, Dilithium, Kyber, Hybrid, Challenge, Enrollment, Recovery, Keystore: one file of
    \<open>src/\<close> each, definitions in the order of the file and under its names (a suffix or prefix where two
    files share a name: \<open>verifier_verify\<close> is \<open>ChallengeVerifier::verify\<close>, \<open>keypair_sign\<close> is
    \<open>Keypair::sign\<close>).
  \<^item> RateLimit: what one attempt does to a limiter entry, in \<open>check_rate_limit\<close> of \<open>src/server.rs\<close>.
  \<^item> Server: the state and the operations of \<open>src/server.rs\<close>; \<open>do_x\<close> is the body of the operation \<open>x\<close>
    between taking and releasing the lock, \<open>server_verify\<close> is \<open>PqAuthServer::verify\<close>. The relation
    \<open>server_step\<close> has one rule per public operation.
  \<^item> Json, Serde: JSON values and the contract of a reader and a writer; the JSON form of every type that
    derives \<open>Serialize\<close> and \<open>Deserialize\<close>, with its attributes. \<open>x_json\<close> writes and \<open>x_of_json\<close> reads.
  \<^item> ServerRuns, ServerProperties: sequences of requests, the abstract account machine, the bounds over
    runs, and the properties of the server.
  \<^item> History: the requests of a run with their answers, and where in them the server's state comes from.
  \<^item> Concurrency: the operations as programs of small actions, and threads that interleave them under the
    mutex; \<open>thread_step\<close> has a rule for the arrival of a request at a thread, for taking the mutex, for
    being refused by a poisoned one, for an action, for the drop of the guard, and for time that passes;
    \<open>logged_step\<close> keeps a log of the arrivals and answers.
  \<^item> Http: the router and the handlers of \<open>run_server\<close> in \<open>src/main.rs\<close>, over the parameter for
    \<open>axum\<close>, with the bodies of theory Serde.
  \<^item> Bench, Cli: the commands of \<open>src/main.rs\<close>; \<open>run_command\<close> is \<open>main\<close> after argument parsing.
  \<^item> LibraryTests, ProtocolTests: the unit tests of \<open>src/\<close>, under their names, as programs over the model,
    as far as the laws of the crates make them pass.
  \<^item> ChanceTests, ChanceStoreTests, ChanceProtocolTests: the other unit tests, which expect random or hashed
    values to differ or a check to refuse, each with the accident of the cryptography that makes it fail.

  \<^bold>\<open>Interfaces.\<close> Each locale is a contract that a client needs and is interpreted on the model's own
  definitions: \<open>tag_comparison\<close> (the MAC comparison), \<open>one_time_codes\<close> (TOTP), \<open>signature_scheme\<close>
  (Dilithium and Hybrid), \<open>key_encapsulation\<close> (Kyber), \<open>nonce_store\<close> (the table of used nonces),
  \<open>single_use\<close> (recovery codes), \<open>fixed_window\<close> (the limiter), \<open>codec\<close> (each JSON form), \<open>transition_system\<close>
  and its extension
  \<open>climbing_system\<close> (the server and its reachable states, the interleaved threads).

  \<^bold>\<open>What is shown.\<close> For the server: a login reported as valid is one (C1) and agrees with the enrollment
  and the challenge that the history of the run shows (C2), attempts are bounded per window (C4), a user at
  the limit is refused until the window ends (C33) and not longer (C32), the invariant of the reachable
  states (C6), the refinement of the account machine (C7), permanence of enrollment (C13), the audit log
  (C16), the only causes of a panic (C18), and what a clock that steps back does (C19). For its threads:
  every interleaving gives the answers of a sequence of requests in the order of the answers (C8), so the
  properties over sequences hold of concurrent runs, as shown for the single use of challenges (C9). For
  the HTTP API: JSON and the routes pass requests and answers on unchanged (C21), what each route answers
  (C24) and the types of the answers (C35). For serialization: round trips (C22), and secrets that are
  never written (C23). For the challenge verifier: when it accepts and what it records (C17); a nonce is
  accepted once although the table forgets (C3), and forgetting changes no decision (C10), both as long as
  time does not run backwards, issue times and skew are not zero, and a nonce is not presented with a later
  issue time; C29 and C30 show what happens otherwise. For the other parts: the window of accepted codes
  (C11), the time a code remains the current one (C34), the formula of the codes (C25), single use and
  redemption of recovery codes (C12, C26), the keystore (C15) and the command line (C20, C40). Of the unit
  tests, those listed in C36 and C37 pass for every behaviour of the crates that their laws allow, and
  those listed in C38 and C39 fail exactly by the accident named beside them. The limits of the guarantees,
  where the code has some, are C19, C23, C27 to C31 and C40. The end-to-end theorems are in this theory
  (C5, C14).

  \<^bold>\<open>Bounds.\<close> No definition of the program uses fuel: the recursions are structural or, for the loop over
  time steps, justified by a measure, so a result is a value of the code. The properties over runs of
  attempts assume fewer than 2 ^ 32 attempts in a window, as the counter has 32 bits.

  \<^bold>\<open>Not modelled.\<close> Zeroization and timing (no result depends on them), the text of JSON (\<open>serde_json\<close>
  prints and parses it), argument parsing (clap), and the inside of the crates, of the axum and tokio runtime and of the
  operating system, which are parameters. The probability of the accidents of C38 and C39 is not
  modelled: a world fixes what the generator returns, and nothing says how likely a world is.
\<close>

section \<open>Properties that span components\<close>

text \<open>C5. Enrollment and TOTP login over the API. On any well-formed server, for a user who is not
  enrolled: \<open>enroll_begin\<close> answers with a Kyber key in hexadecimal that the client can read; the client's
  enrollment against it succeeds, the server accepts the completion the client sends, the record it then
  holds of the user has the client's seed and public key, and the code the client generates from its seed
  logs the user in, as long as every time the server's clock shows is within 30 seconds of the client's.
  No step panics, whatever the states of the outside world in which the steps run.\<close>

theorem enroll_then_totp_login:
  assumes "hex_law (hexc d)" and "kyber768_law (kyb d)" and "\<not> clock_fails d"
    and "server_inv srv" and "\<not> poisoned srv" and "u \<notin> dom (users (inner srv))"
    and "server_id (inner srv) \<noteq> []" and "length pk = 1952"
    and "\<And>t. clock_shows d t \<Longrightarrow> unat (abs_diff t_client t) \<le> 30"
  shows "\<exists>b srv1 w1 kpub. enroll_begin d u srv w = (Some (Inr b), srv1, w1) \<and>
    hex_decode (hexc d) (eb_kyber_public_key b) = Some kpub \<and>
    (\<forall>v v' v''. \<exists>resp cd v1 srv2 v2 rc totp_code srv3 v3.
      client_enroll (sha d) (kyb d) \<lparr>ec_kyber_public = kpub, ec_server_id = eb_server_id b\<rparr> pk v = (Inr (resp, cd), v1) \<and>
      enroll_complete d \<lparr>ecr_user_id = u, ecr_ciphertext = hex_encode (hexc d) (er_ciphertext resp),
        ecr_dilithium_public_key = hex_encode (hexc d) (er_dilithium_public resp)\<rparr> srv1 v' =
        (Some (Inr \<lparr>ecs_success = True, ecs_message = ''Enrollment successful''\<rparr>), srv2, v2) \<and>
      users (inner srv2) u = Some rc \<and> rec_totp_seed rc = ce_totp_seed cd \<and> rec_dilithium_public rc = pk \<and>
      generate (sha d) (ce_totp_seed cd) t_client = Some totp_code \<and>
      server_verify d \<lparr>vr_user_id = u, vr_method = Totp totp_code\<rparr> srv2 v'' =
        (Some (Inr \<lparr>vs_valid = True, vs_message = ''TOTP verified''\<rparr>), srv3, v3))"
proof (rule enrollment_flow [OF assms(1,2,3,5,6,7,8), of w], goal_cases)
  case (1 b srv1 w1 kpub)
  have unlimited: "rate_limits (inner srv) u = None"
    using assms(4-6) unfolding server_inv_def accounts_ok_def by auto
  have "\<exists>resp cd v1 srv2 v2 rc totp_code srv3 v3.
      client_enroll (sha d) (kyb d) \<lparr>ec_kyber_public = kpub, ec_server_id = eb_server_id b\<rparr> pk v = (Inr (resp, cd), v1) \<and>
      enroll_complete d \<lparr>ecr_user_id = u, ecr_ciphertext = hex_encode (hexc d) (er_ciphertext resp),
        ecr_dilithium_public_key = hex_encode (hexc d) (er_dilithium_public resp)\<rparr> srv1 v' =
        (Some (Inr \<lparr>ecs_success = True, ecs_message = ''Enrollment successful''\<rparr>), srv2, v2) \<and>
      users (inner srv2) u = Some rc \<and> rec_totp_seed rc = ce_totp_seed cd \<and> rec_dilithium_public rc = pk \<and>
      generate (sha d) (ce_totp_seed cd) t_client = Some totp_code \<and>
      server_verify d \<lparr>vr_user_id = u, vr_method = Totp totp_code\<rparr> srv2 v'' =
        (Some (Inr \<lparr>vs_valid = True, vs_message = ''TOTP verified''\<rparr>), srv3, v3)" for v v' v''
  proof -
    obtain resp cd v1 srv2 v2 rc where
      x: "client_enroll (sha d) (kyb d) \<lparr>ec_kyber_public = kpub, ec_server_id = eb_server_id b\<rparr> pk v = (Inr (resp, cd), v1)"
      "enroll_complete d \<lparr>ecr_user_id = u, ecr_ciphertext = hex_encode (hexc d) (er_ciphertext resp),
        ecr_dilithium_public_key = hex_encode (hexc d) (er_dilithium_public resp)\<rparr> srv1 v' =
        (Some (Inr \<lparr>ecs_success = True, ecs_message = ''Enrollment successful''\<rparr>), srv2, v2)"
      "\<not> poisoned srv2" "users (inner srv2) = (users (inner srv))(u \<mapsto> rc)"
      "rec_totp_seed rc = ce_totp_seed cd" "rate_limits (inner srv2) = rate_limits (inner srv)"
      "rec_dilithium_public rc = pk"
      using 1(3) by metis
    have "server_inv srv2"
      using 1(1) x(2) assms(4) server_step_inv server_step.intros by metis
    then have lim: "limiter d (inner srv2) u v'' = Some (True, (1, request_time d v''))"
      using x(3,6) unlimited by (intro limiter_first) (simp_all add: server_inv_def limits_ok_def)
    obtain c where c: "generate (sha d) (ce_totp_seed cd) t_client = Some c" by (simp add: totp.gen_eq)
    have good: "\<exists>y. abs_diff y (current_step t) \<le> 1 \<and> generate_at_step (sha d) (rec_totp_seed rc) y = Some c"
      if "clock_shows d t" for t
      using same_step_code [OF c] step_drift [of t_client t 1] assms(9) [OF that] x(5)
      by (simp add: current_step_def)
    have "users (inner srv2) u = Some rc" using x(4) by simp
    from totp_login [OF x(3) assms(3) this lim good] obtain srv3 v3 where
      "server_verify d \<lparr>vr_user_id = u, vr_method = Totp c\<rparr> srv2 v'' =
        (Some (Inr \<lparr>vs_valid = True, vs_message = ''TOTP verified''\<rparr>), srv3, v3)" by metis
    with x(1,2,5,7) c \<open>users (inner srv2) u = Some rc\<close> show ?thesis by blast
  qed
  with 1(1,2) show ?case by blast
qed

theorem enroll_then_totp_login_witness:
  "\<exists>b srv1 w1 kpub resp cd v1 srv2 v2 rc totp_code srv3 v3.
     enroll_begin (still Debug 1000) ''bob'' demo (0, 5) = (Some (Inr b), srv1, w1) \<and>
     client_enroll toy_sha toy_kyb \<lparr>ec_kyber_public = kpub, ec_server_id = eb_server_id b\<rparr> (replicate 1952 7) (0, 6) =
       (Inr (resp, cd), v1) \<and>
     enroll_complete (still Debug 1000) \<lparr>ecr_user_id = ''bob'', ecr_ciphertext = hex_text (er_ciphertext resp),
       ecr_dilithium_public_key = hex_text (er_dilithium_public resp)\<rparr> srv1 (0, 7) =
       (Some (Inr \<lparr>ecs_success = True, ecs_message = ''Enrollment successful''\<rparr>), srv2, v2) \<and>
     users (inner srv2) ''bob'' = Some rc \<and> rec_totp_seed rc = ce_totp_seed cd \<and>
     generate toy_sha (ce_totp_seed cd) 990 = Some totp_code \<and>
     server_verify (still Debug 1000) \<lparr>vr_user_id = ''bob'', vr_method = Totp totp_code\<rparr> srv2 (0, 8) =
       (Some (Inr \<lparr>vs_valid = True, vs_message = ''TOTP verified''\<rparr>), srv3, v3)"
proof -
  let ?d = "still Debug 1000" and ?pk = "replicate 1952 7 :: bytes"
  have start: "hex_law (hexc ?d)" "kyber768_law (kyb ?d)" "\<not> clock_fails ?d" "server_inv demo" "\<not> poisoned demo"
    "''bob'' \<notin> dom (users (inner demo))" "server_id (inner demo) \<noteq> []" "length ?pk = 1952"
    using demo_inv by (simp_all add: toy_laws)
  have near: "unat (abs_diff 990 t) \<le> 30" if "clock_shows ?d t" for t using that by (simp add: abs_diff_def)
  from enroll_then_totp_login [OF start near, of "(0, 5)"] obtain b srv1 w1 kpub where
    b: "enroll_begin ?d ''bob'' demo (0, 5) = (Some (Inr b), srv1, w1)"
    and rest: "\<forall>v v' v''. \<exists>resp cd v1 srv2 v2 rc totp_code srv3 v3.
      client_enroll (sha ?d) (kyb ?d) \<lparr>ec_kyber_public = kpub, ec_server_id = eb_server_id b\<rparr> ?pk v = (Inr (resp, cd), v1) \<and>
      enroll_complete ?d \<lparr>ecr_user_id = ''bob'', ecr_ciphertext = hex_encode (hexc ?d) (er_ciphertext resp),
        ecr_dilithium_public_key = hex_encode (hexc ?d) (er_dilithium_public resp)\<rparr> srv1 v' =
        (Some (Inr \<lparr>ecs_success = True, ecs_message = ''Enrollment successful''\<rparr>), srv2, v2) \<and>
      users (inner srv2) ''bob'' = Some rc \<and> rec_totp_seed rc = ce_totp_seed cd \<and> rec_dilithium_public rc = ?pk \<and>
      generate (sha ?d) (ce_totp_seed cd) 990 = Some totp_code \<and>
      server_verify ?d \<lparr>vr_user_id = ''bob'', vr_method = Totp totp_code\<rparr> srv2 v'' =
        (Some (Inr \<lparr>vs_valid = True, vs_message = ''TOTP verified''\<rparr>), srv3, v3)"
    by blast
  from rest [rule_format, of "(0, 6)" "(0, 7)" "(0, 8)"] b show ?thesis
    by (simp add: toy_hex_def) blast
qed

text \<open>C14. Challenge login over the API. After the server issued a challenge to an enrolled user, the client
  that holds the enrolled key pair reads the nonce, signs, and is logged in by sending the response, as
  long as the limiter admits the attempt, the clock shows times at most 300 seconds after the issue and
  within the skew of the client's time, and the random nonce was never used before.\<close>

theorem challenge_login_works:
  assumes "hex_law (hexc d)" and "dilithium3_law (dil d)" and "\<not> clock_fails d"
    and "issue_challenge d u srv w = (Some (Inr ci), srv1, w1)"
    and "users (inner srv) u = Some rc" and "rec_dilithium_public rc = public_key kp"
    and "keypair_generate (dil d) w0 = (kp, w0')"
    and "limiter d (inner srv1) u w4 = Some (True, e)"
    and "\<And>t. clock_shows d t \<Longrightarrow> unat t - unat (ci_issued_at ci) \<le> 300 \<and>
      abs_diff cts t \<le> max_clock_skew (verifier (inner srv))"
    and "\<And>n. hex_decode (hexc d) (ci_nonce ci) = Some n \<Longrightarrow> used_nonces (verifier (inner srv)) n = None"
  shows "\<exists>n r w3 srv2 w5. hex_decode (hexc d) (ci_nonce ci) = Some n \<and>
    respond_to_challenge (dil d) kp \<lparr>nonce = n, issued_at = ci_issued_at ci\<rparr> cts w2 = (Inr r, w3) \<and>
    server_verify d \<lparr>vr_user_id = u, vr_method = ChallengeMethod (hex_encode (hexc d) (resp_nonce r)) cts
        (hex_encode (hexc d) (signature r))\<rparr> srv1 w4 =
      (Some (Inr \<lparr>vs_valid = True, vs_message = ''Challenge-response verified''\<rparr>), srv2, w5)"
  by (rule challenge_login [OF assms, of w2]) blast+

theorem challenge_login_works_witness:
  "\<exists>ci srv1 w1 (r :: challenge_response) srv2 w5. issue_challenge (still Debug 1000) ''alice'' demo (0, 1) = (Some (Inr ci), srv1, w1) \<and>
    server_verify (still Debug 1000) \<lparr>vr_user_id = ''alice'', vr_method =
        ChallengeMethod (hex_text (resp_nonce r)) 1003 (hex_text (signature r))\<rparr> srv1 (0, 2) =
      (Some (Inr \<lparr>vs_valid = True, vs_message = ''Challenge-response verified''\<rparr>), srv2, w5)"
proof -
  let ?d = "still Debug 1000" and ?kp = "fst (keypair_generate toy_dil (0, 5))"
  obtain r srv1 w1 where i: "issue_challenge ?d ''alice'' demo (0, 1) = (r, srv1, w1)" by (metis prod_cases3)
  then have "do_issue_challenge ?d ''alice'' (inner demo) (0, 1) = (r, inner srv1, w1)"
    by (auto simp: operation_defs elim: with_lock_cases)
  moreover have first: "limiter ?d (inner demo) ''alice'' (0, 1) = Some (True, (1, 1000))" by (simp add: limiter_first)
  ultimately obtain ci where ci: "r = Some (Inr ci)" "ci_issued_at ci = 1000"
    "rate_limits (inner srv1) ''alice'' = Some (1, 1000)" "max_attempts (inner srv1) = 5" "rate_window (inner srv1) = 300"
    by (cases rule: issue_challenge_cases) auto
  have lim: "limiter ?d (inner srv1) ''alice'' (0, 2) = Some (True, (2, 1000))"
    using ci(3-5) by (simp add: limiter_def entry_or_insert_def rate_entry_step_def checked_sub_le checked_add_small)
  have laws: "hex_law (hexc ?d)" "dilithium3_law (dil ?d)" and clock: "\<not> clock_fails ?d"
    and alice: "users (inner demo) ''alice'' = Some demo_record" by (simp_all add: toy_laws)
  have pk: "rec_dilithium_public demo_record = public_key ?kp"
    by (simp add: demo_record_def keypair_generate_def toy_dil_def)
  have gen: "keypair_generate (dil ?d) (0, 5) = (?kp, snd (keypair_generate toy_dil (0, 5)))" by simp
  have "\<exists>n r w3 srv2 w5. hex_decode (hexc ?d) (ci_nonce ci) = Some n \<and>
    respond_to_challenge (dil ?d) ?kp \<lparr>nonce = n, issued_at = ci_issued_at ci\<rparr> 1003 (0, 3) = (Inr r, w3) \<and>
    server_verify ?d \<lparr>vr_user_id = ''alice'', vr_method = ChallengeMethod (hex_encode (hexc ?d) (resp_nonce r)) 1003
        (hex_encode (hexc ?d) (signature r))\<rparr> srv1 (0, 2) =
      (Some (Inr \<lparr>vs_valid = True, vs_message = ''Challenge-response verified''\<rparr>), srv2, w5)"
    by (rule challenge_login_works [OF laws clock i [unfolded ci(1)] alice pk gen lim])
      (simp_all add: ci(2) abs_diff_def)
  with i ci(1) show ?thesis by (auto simp: toy_hex_def)
qed

end
